(* ===== verification/AE_Prelude.thy ===== *)
theory AE_Prelude
  imports Main "HOL-Library.AList" "HOL-Library.Word"
begin

text \<open>
  Shared vocabulary of the development: the machine integers of the Rust sources, the
  result type, and \<open>std::collections::HashMap\<close> as an association list with distinct
  keys. The order of the list stands for the (unspecified) iteration order of the hash
  map: every theorem is stated for an arbitrary list, so it holds for every order.
\<close>

named_theorems hm_simps \<open>lookup laws of the hash-map operations\<close>
named_theorems hm_inv \<open>key distinctness is kept by the hash-map operations\<close>

type_synonym u8 = "8 word"
type_synonym u16 = "16 word"
type_synonym u32 = "32 word"
type_synonym u64 = "64 word"

text \<open>\<open>Result<T, E>\<close>: \<open>Inl\<close> is \<open>Err\<close>, \<open>Inr\<close> is \<open>Ok\<close>.\<close>

type_synonym ('e, 'a) result = "'e + 'a"

section \<open>Hash maps\<close>

type_synonym ('k, 'v) hashmap = "('k \<times> 'v) list"

definition hm_get :: "('k, 'v) hashmap \<Rightarrow> 'k \<Rightarrow> 'v option" where
  "hm_get m k = map_of m k"

definition hm_insert :: "'k \<Rightarrow> 'v \<Rightarrow> ('k, 'v) hashmap \<Rightarrow> ('k, 'v) hashmap" where
  "hm_insert k v m = AList.update k v m"

definition hm_remove :: "'k \<Rightarrow> ('k, 'v) hashmap \<Rightarrow> ('k, 'v) hashmap" where
  "hm_remove k m = AList.delete k m"

definition hm_contains_key :: "('k, 'v) hashmap \<Rightarrow> 'k \<Rightarrow> bool" where
  "hm_contains_key m k = (hm_get m k \<noteq> None)"

definition hm_values :: "('k, 'v) hashmap \<Rightarrow> 'v list" where
  "hm_values m = map snd m"

definition hm_ok :: "('k, 'v) hashmap \<Rightarrow> bool" where
  "hm_ok m = distinct (map fst m)"

text \<open>\<open>iter().collect()\<close> into a map: later pairs overwrite earlier ones.\<close>

definition hm_collect :: "('k \<times> 'v) list \<Rightarrow> ('k, 'v) hashmap" where
  "hm_collect ps = fold (\<lambda>(k, v). hm_insert k v) ps []"

lemma hm_get_Nil [simp]: "hm_get [] k = None"
  by (simp add: hm_get_def)

lemma hm_get_insert [hm_simps]: "hm_get (hm_insert k v m) = (hm_get m)(k \<mapsto> v)"
  by (simp add: hm_get_def hm_insert_def update_conv' fun_eq_iff)

lemma hm_get_remove [hm_simps]: "hm_get (hm_remove k m) = (hm_get m)(k := None)"
  by (simp add: hm_get_def hm_remove_def delete_conv' fun_eq_iff)

lemma hm_ok_Nil [simp, hm_inv]: "hm_ok []"
  by (simp add: hm_ok_def)

lemma hm_ok_insert [hm_inv]: "hm_ok m \<Longrightarrow> hm_ok (hm_insert k v m)"
  by (simp add: hm_ok_def hm_insert_def distinct_update)

lemma hm_ok_remove [hm_inv]: "hm_ok m \<Longrightarrow> hm_ok (hm_remove k m)"
  by (simp add: hm_ok_def hm_remove_def distinct_delete)

lemma hm_get_Some_in: "hm_get m k = Some v \<Longrightarrow> (k, v) \<in> set m"
  by (simp add: hm_get_def map_of_SomeD)

lemma hm_get_iff: "hm_ok m \<Longrightarrow> hm_get m k = Some v \<longleftrightarrow> (k, v) \<in> set m"
  by (simp add: hm_ok_def hm_get_def)

lemma hm_insert_fresh:
  "hm_get m k = None \<Longrightarrow> hm_insert k v m = m @ [(k, v)]"
  by (induction m) (auto simp: hm_get_def hm_insert_def split: if_splits)

lemma set_hm_remove: "set (hm_remove k m) = {p \<in> set m. fst p \<noteq> k}"
  by (auto simp: hm_remove_def AList.delete_eq)

lemma hm_remove_filter: "hm_remove k m = filter (\<lambda>p. fst p \<noteq> k) m"
  by (auto simp: hm_remove_def AList.delete_eq case_prod_unfold intro: filter_cong)

lemma hm_contains_key_iff: "hm_contains_key m k \<longleftrightarrow> k \<in> fst ` set m"
  by (simp add: hm_contains_key_def hm_get_def map_of_eq_None_iff)

lemma hm_collect_ok_acc: "hm_ok m \<Longrightarrow> hm_ok (fold (\<lambda>(k, v). hm_insert k v) ps m)"
  by (induction ps arbitrary: m) (auto simp: hm_inv)

lemma hm_ok_collect [simp, hm_inv]: "hm_ok (hm_collect ps)"
  by (simp add: hm_collect_def hm_collect_ok_acc)

lemma hm_collect_append:
  "hm_collect (ps @ [(k, v)]) = hm_insert k v (hm_collect ps)"
  by (simp add: hm_collect_def)

lemma hm_get_collect: "hm_get (hm_collect ps) k = map_of (rev ps) k"
proof (induction ps rule: rev_induct)
  case Nil
  show ?case by (simp add: hm_collect_def)
next
  case (snoc p ps)
  then show ?case
    by (cases p) (simp add: hm_collect_append hm_simps)
qed

lemma hm_get_collect_in: "hm_get (hm_collect ps) k = Some v \<Longrightarrow> (k, v) \<in> set ps"
  by (auto simp: hm_get_collect dest: map_of_SomeD)

lemma hm_get_collect_None: "hm_get (hm_collect ps) k = None \<longleftrightarrow> k \<notin> fst ` set ps"
  by (simp add: hm_get_collect map_of_eq_None_iff)

lemma set_hm_insert: "set (hm_insert k v m) \<subseteq> insert (k, v) (set m)"
  by (induction m) (auto simp: hm_insert_def)

section \<open>Updating the first match of a list\<close>

text \<open>\<open>values_mut().find(p)\<close> followed by an assignment through the reference.\<close>

fun update_first :: "('a \<Rightarrow> bool) \<Rightarrow> ('a \<Rightarrow> 'a) \<Rightarrow> 'a list \<Rightarrow> 'a list" where
  "update_first P f [] = []"
| "update_first P f (x # xs) = (if P x then f x # xs else x # update_first P f xs)"

lemma update_first_none: "\<not> (\<exists>x\<in>set xs. P x) \<Longrightarrow> update_first P f xs = xs"
  by (induction xs) auto

lemma map_update_first: "(\<And>x. g (f x) = g x) \<Longrightarrow> map g (update_first P f xs) = map g xs"
  by (induction xs) auto

lemma update_first_unique:
  assumes "distinct (map g xs)" and "\<And>x. P x \<longleftrightarrow> g x = k"
  shows "update_first P f xs = map (\<lambda>x. if P x then f x else x) xs"
proof (insert assms, induction xs)
  case (Cons x xs)
  have "map (\<lambda>y. if P y then f y else y) xs = xs" if "g x = k"
  proof (rule map_idI)
    fix y
    assume "y \<in> set xs"
    then have "g y \<in> g ` set xs" by (rule imageI)
    with Cons.prems that show "(if P y then f y else y) = y" by auto
  qed
  with Cons show ?case by auto
qed simp

lemma find_Some_in: "List.find P xs = Some x \<Longrightarrow> x \<in> set xs \<and> P x"
  by (auto simp: find_Some_iff)

lemma find_unique:
  assumes "distinct (map g xs)" and "x \<in> set xs" and "g x = k"
  shows "List.find (\<lambda>x. g x = k) xs = Some x"
  using assms by (induction xs) auto

lemma find_append: "List.find P (xs @ ys) = (case List.find P xs of None \<Rightarrow> List.find P ys | Some x \<Rightarrow> Some x)"
  by (induction xs) auto

lemma find_None_iff': "List.find P xs = None \<longleftrightarrow> (\<forall>x\<in>set xs. \<not> P x)"
  by (auto simp: find_None_iff)

end
