(* ===== verification/Rust_Text.thy ===== *)
theory Rust_Text
  imports AE_Prelude
begin

text \<open>
  The functions of Rust's \<open>str\<close> and \<open>[u8]\<close> that the crates use, on byte
  strings: a \<open>string\<close> is the list of the UTF-8 bytes, a \<open>char\<close> is one byte. Lengths
  and offsets are therefore byte counts, as they are in Rust.
\<close>

named_theorems rust_str \<open>definitions of the \<open>str\<close> methods\<close>

abbreviation byte :: "char \<Rightarrow> nat" where
  "byte c \<equiv> of_char c"

abbreviation CR :: char where "CR \<equiv> CHR 0x0D"
abbreviation LF :: char where "LF \<equiv> CHR 0x0A"
abbreviation DQUOTE :: char where "DQUOTE \<equiv> CHR 0x22"
abbreviation BACKSLASH :: char where "BACKSLASH \<equiv> CHR 0x5C"
definition crlf :: string where "crlf = [CR, LF]"

lemma length_crlf [simp]: "length crlf = 2"
  by (simp add: crlf_def)

lemma crlf_nonempty [simp]: "crlf \<noteq> []"
  by (simp add: crlf_def)

section \<open>Prefixes, substrings, splitting\<close>

fun starts_with :: "string \<Rightarrow> string \<Rightarrow> bool" where
  "starts_with [] s = True"
| "starts_with (p # ps) [] = False"
| "starts_with (p # ps) (c # s) = (p = c \<and> starts_with ps s)"

definition strip_prefix :: "string \<Rightarrow> string \<Rightarrow> string option" where
  "strip_prefix p s = (if starts_with p s then Some (drop (length p) s) else None)"

definition strip_suffix :: "string \<Rightarrow> string \<Rightarrow> string option" where
  "strip_suffix p s = map_option rev (strip_prefix (rev p) (rev s))"

text \<open>\<open>str::find\<close>: the offset of the first occurrence.\<close>

fun find_sub :: "string \<Rightarrow> string \<Rightarrow> nat option" where
  "find_sub p [] = (if p = [] then Some 0 else None)"
| "find_sub p (c # s) =
     (if starts_with p (c # s) then Some 0 else map_option Suc (find_sub p s))"

definition str_contains :: "string \<Rightarrow> string \<Rightarrow> bool" where
  "str_contains p s = (find_sub p s \<noteq> None)"

text \<open>\<open>str::split\<close> with a non-empty string pattern.\<close>

function split_on :: "string \<Rightarrow> string \<Rightarrow> string list" where
  "split_on p s =
     (case find_sub p s of
        None \<Rightarrow> [s]
      | Some i \<Rightarrow> if p = [] then [s] else take i s # split_on p (drop (i + length p) s))"
  by pat_completeness auto

lemma starts_with_iff: "starts_with p s \<longleftrightarrow> (\<exists>r. s = p @ r)"
  by (induction p s rule: starts_with.induct) auto

lemma starts_with_append [simp]: "starts_with p (p @ r)"
  by (auto simp: starts_with_iff)

lemma strip_prefix_Some_iff: "strip_prefix p s = Some r \<longleftrightarrow> s = p @ r"
  by (auto simp: strip_prefix_def starts_with_iff)

lemma starts_with_self [simp]: "starts_with p p"
  by (induction p) auto

lemma starts_with_length: "starts_with p s \<Longrightarrow> length p \<le> length s"
  by (auto simp: starts_with_iff)

lemma starts_with_take: "starts_with p s \<longleftrightarrow> take (length p) s = p"
  by (metis append_take_drop_id starts_with_iff append_eq_conv_conj)

lemma find_sub_Some:
  "find_sub p s = Some i \<Longrightarrow>
     starts_with p (drop i s) \<and> (\<forall>j<i. \<not> starts_with p (drop j s)) \<and> i + length p \<le> length s"
proof (induction s arbitrary: i)
  case Nil
  then show ?case by (auto split: if_splits)
next
  case (Cons c s)
  show ?case
  proof (cases "starts_with p (c # s)")
    case True
    with Cons.prems show ?thesis using starts_with_length by fastforce
  next
    case False
    with Cons.prems obtain i' where i': "find_sub p s = Some i'" and i: "i = Suc i'"
      by auto
    from Cons.IH[OF i'] False i show ?thesis
      by (auto simp: less_Suc_eq_0_disj)
  qed
qed

lemma find_sub_None: "find_sub p s = None \<Longrightarrow> \<not> starts_with p (drop j s)"
proof (induction s arbitrary: j)
  case Nil
  then show ?case by (cases p) auto
next
  case (Cons c s)
  then show ?case by (cases j) (auto split: if_splits)
qed

lemma find_sub_least:
  "starts_with p (drop j s) \<Longrightarrow> \<exists>i\<le>j. find_sub p s = Some i"
  by (metis find_sub_None find_sub_Some not_None_eq not_le)

lemma find_sub_eq:
  assumes "starts_with p (drop i s)" and "\<And>j. j < i \<Longrightarrow> \<not> starts_with p (drop j s)"
  shows "find_sub p s = Some i"
  using assms by (metis find_sub_Some find_sub_least linorder_less_linear not_le)

lemma str_contains_iff: "str_contains p s \<longleftrightarrow> (\<exists>a b. s = a @ p @ b)"
proof
  assume "str_contains p s"
  then obtain i where "find_sub p s = Some i" by (auto simp: str_contains_def)
  then have "starts_with p (drop i s)" by (blast dest: find_sub_Some)
  then obtain b where "drop i s = p @ b" by (auto simp: starts_with_iff)
  then have "s = take i s @ p @ b" by (metis append_take_drop_id)
  then show "\<exists>a b. s = a @ p @ b" by blast
next
  assume "\<exists>a b. s = a @ p @ b"
  then obtain a b where "s = a @ p @ b" by blast
  then have "starts_with p (drop (length a) s)" by simp
  then show "str_contains p s" by (auto simp: str_contains_def dest!: find_sub_least)
qed

termination split_on
proof (relation "measure (\<lambda>(p, s). length s)", goal_cases)
  case (2 p s i)
  then show ?case by (cases p) (auto dest!: find_sub_Some)
qed simp

declare split_on.simps [simp del]

lemma split_on_nonempty [simp]: "split_on p s \<noteq> []"
  by (subst split_on.simps) (auto split: option.splits)


text \<open>\<open>[T]::join\<close>.\<close>

fun join :: "string \<Rightarrow> string list \<Rightarrow> string" where
  "join sep [] = []"
| "join sep [x] = x"
| "join sep (x # y # ys) = x @ sep @ join sep (y # ys)"

lemma join_Cons: "ys \<noteq> [] \<Longrightarrow> join sep (y # ys) = y @ sep @ join sep ys"
  by (cases ys) auto

lemma join_split_on [simp]: "join p (split_on p s) = s"
proof (induction p s rule: split_on.induct)
  case (1 p s)
  show ?case
  proof (cases "find_sub p s")
    case None
    then show ?thesis by (subst split_on.simps) simp
  next
    case (Some i)
    show ?thesis
    proof (cases "p = []")
      case True
      with Some show ?thesis by (subst split_on.simps) simp
    next
      case False
      from Some have "starts_with p (drop i s)" by (blast dest: find_sub_Some)
      then have "drop i s = p @ drop (i + length p) s"
        by (metis append_take_drop_id drop_drop add.commute starts_with_take)
      then have "s = take i s @ p @ drop (i + length p) s"
        by (metis append_take_drop_id)
      with Some False "1.IH" show ?thesis
        by (subst split_on.simps) (simp add: join_Cons)
    qed
  qed
qed

lemma split_on_pieces:
  "p \<noteq> [] \<Longrightarrow> x \<in> set (split_on p s) \<Longrightarrow> \<not> str_contains p x"
proof (induction p s rule: split_on.induct)
  case (1 p s)
  show ?case
  proof (cases "find_sub p s")
    case None
    with "1.prems" show ?thesis by (simp add: split_on.simps[of p s] str_contains_def)
  next
    case (Some i)
    have first: "\<not> str_contains p (take i s)"
    proof
      assume "str_contains p (take i s)"
      then obtain a b where ab: "take i s = a @ p @ b" by (auto simp: str_contains_iff)
      then have "s = a @ p @ b @ drop i s" by (metis append.assoc append_take_drop_id)
      then have "starts_with p (drop (length a) s)"
        by (metis append_eq_conv_conj starts_with_append)
      moreover have "length a < i" using ab "1.prems"(1) Some
        by (metis append_take_drop_id find_sub_Some length_append length_greater_0_conv
            length_take less_add_same_cancel1 min.absorb2 nat_le_linear not_le take_all
            add_leE trans_less_add1)
      ultimately show False using Some by (blast dest: find_sub_Some)
    qed
    from Some "1.prems" have "x = take i s \<or> x \<in> set (split_on p (drop (i + length p) s))"
      by (simp add: split_on.simps[of p s])
    with first "1.IH"[OF Some "1.prems"(1) "1.prems"(1)] show ?thesis by blast
  qed
qed

lemma no_crlf_prefix:
  assumes "\<not> str_contains crlf x" and "j < length x"
  shows "\<not> starts_with crlf (drop j (x @ crlf @ r))"
proof
  assume sw: "starts_with crlf (drop j (x @ crlf @ r))"
  show False
  proof (cases "Suc j < length x")
    case True
    then have "drop j x = x ! j # x ! Suc j # drop (Suc (Suc j)) x"
      by (metis Cons_nth_drop_Suc assms(2))
    with sw assms(2) have "drop j x = crlf @ drop (Suc (Suc j)) x" by (simp add: crlf_def)
    then have "x = take j x @ crlf @ drop (Suc (Suc j)) x" by (metis append_take_drop_id)
    with assms(1) show False by (auto simp: str_contains_iff)
  next
    case False
    with assms(2) have "j = length x - 1" by simp
    with assms(2) have "drop j x = [x ! j]"
      by (metis Cons_nth_drop_Suc One_nat_def Suc_pred drop_all length_greater_0_conv
          list.size(3) not_less_zero order_refl)
    with sw assms(2) show False by (simp add: crlf_def)
  qed
qed

lemma find_crlf_append:
  assumes "\<not> str_contains crlf x"
  shows "find_sub crlf (x @ crlf @ r) = Some (length x)"
proof (rule find_sub_eq)
  show "starts_with crlf (drop (length x) (x @ crlf @ r))" by simp
  show "\<not> starts_with crlf (drop j (x @ crlf @ r))" if "j < length x" for j
    using assms that by (rule no_crlf_prefix)
qed

lemma split_join_crlf:
  assumes "ps \<noteq> []" and "\<And>x. x \<in> set ps \<Longrightarrow> \<not> str_contains crlf x"
  shows "split_on crlf (join crlf ps) = ps"
  using assms
proof (induction ps)
  case Nil
  then show ?case by simp
next
  case (Cons x xs)
  show ?case
  proof (cases "xs = []")
    case True
    with Cons.prems show ?thesis
      by (simp add: split_on.simps[of crlf x] str_contains_def)
  next
    case False
    have "find_sub crlf (x @ crlf @ join crlf xs) = Some (length x)"
      by (rule find_crlf_append) (simp add: Cons.prems)
    then have "split_on crlf (x @ crlf @ join crlf xs) = x # split_on crlf (join crlf xs)"
      by (simp add: split_on.simps[of crlf "x @ crlf @ join crlf xs"])
    with False Cons show ?thesis by (simp add: join_Cons)
  qed
qed

text \<open>\<open>split_once\<close> and \<open>rsplit_once\<close> on a character, \<open>str::split\<close> on a character.\<close>

definition split_once :: "char \<Rightarrow> string \<Rightarrow> (string \<times> string) option" where
  "split_once c s =
     (case dropWhile (\<lambda>x. x \<noteq> c) s of
        [] \<Rightarrow> None
      | _ # r \<Rightarrow> Some (takeWhile (\<lambda>x. x \<noteq> c) s, r))"

definition rsplit_once :: "char \<Rightarrow> string \<Rightarrow> (string \<times> string) option" where
  "rsplit_once c s =
     (case split_once c (rev s) of
        None \<Rightarrow> None
      | Some (b, a) \<Rightarrow> Some (rev a, rev b))"

fun split_char :: "char \<Rightarrow> string \<Rightarrow> string list" where
  "split_char c [] = [[]]"
| "split_char c (x # s) =
     (if x = c then [] # split_char c s
      else (case split_char c s of [] \<Rightarrow> [[x]] | p # ps \<Rightarrow> (x # p) # ps))"

lemma split_once_Some_iff:
  "split_once c s = Some (a, b) \<longleftrightarrow> s = a @ c # b \<and> c \<notin> set a"
proof
  assume "split_once c s = Some (a, b)"
  then obtain x where x: "dropWhile (\<lambda>x. x \<noteq> c) s = x # b"
    and a: "a = takeWhile (\<lambda>x. x \<noteq> c) s"
    by (cases "dropWhile (\<lambda>x. x \<noteq> c) s") (simp_all add: split_once_def)
  from x have "x = c" by (simp add: dropWhile_eq_Cons_conv)
  with x a have "s = a @ c # b" by (metis takeWhile_dropWhile_id)
  moreover from a have "c \<notin> set a" by (auto dest: set_takeWhileD)
  ultimately show "s = a @ c # b \<and> c \<notin> set a" by simp
next
  assume *: "s = a @ c # b \<and> c \<notin> set a"
  then have "\<forall>x\<in>set a. x \<noteq> c" by auto
  then have "dropWhile (\<lambda>x. x \<noteq> c) (a @ c # b) = c # b"
    and "takeWhile (\<lambda>x. x \<noteq> c) (a @ c # b) = a"
    by (simp_all add: dropWhile_append2 takeWhile_append2)
  with * have "dropWhile (\<lambda>x. x \<noteq> c) s = c # b" and "takeWhile (\<lambda>x. x \<noteq> c) s = a"
    by simp_all
  then show "split_once c s = Some (a, b)" by (simp add: split_once_def)
qed

lemma split_once_None_iff: "split_once c s = None \<longleftrightarrow> c \<notin> set s"
proof -
  have "split_once c s = None \<longleftrightarrow> dropWhile (\<lambda>x. x \<noteq> c) s = []"
    by (auto simp: split_once_def simp del: dropWhile_eq_Nil_conv split: list.splits)
  also have "\<dots> \<longleftrightarrow> c \<notin> set s"
    by (auto simp: dropWhile_eq_Nil_conv)
  finally show ?thesis .
qed

lemma split_once_app: "c \<notin> set a \<Longrightarrow> split_once c (a @ c # b) = Some (a, b)"
  by (simp add: split_once_Some_iff)

lemma rsplit_once_Some_iff:
  "rsplit_once c s = Some (a, b) \<longleftrightarrow> s = a @ c # b \<and> c \<notin> set b"
proof -
  have flip: "rev s = rev b @ c # rev a \<longleftrightarrow> s = a @ c # b"
    by (metis append.assoc append_Cons append_Nil rev.simps(2) rev_append rev_rev_ident)
  have "rsplit_once c s = Some (a, b) \<longleftrightarrow> split_once c (rev s) = Some (rev b, rev a)"
    by (force simp: rsplit_once_def split: option.splits)
  also have "\<dots> \<longleftrightarrow> s = a @ c # b \<and> c \<notin> set b"
    by (simp add: split_once_Some_iff flip)
  finally show ?thesis .
qed

lemma rsplit_once_None_iff: "rsplit_once c s = None \<longleftrightarrow> c \<notin> set s"
proof -
  have "rsplit_once c s = None \<longleftrightarrow> split_once c (rev s) = None"
    by (auto simp: rsplit_once_def split: option.splits)
  then show ?thesis by (simp add: split_once_None_iff)
qed

lemma split_char_nonempty [simp]: "split_char c s \<noteq> []"
  by (induction s) (auto split: list.splits)

lemma split_char_none: "c \<notin> set s \<Longrightarrow> split_char c s = [s]"
  by (induction s) auto

lemma split_char_append:
  "c \<notin> set a \<Longrightarrow> split_char c (a @ c # b) = a # split_char c b"
  by (induction a) auto

lemma join_split_char: "join [c] (split_char c s) = s"
proof (induction s)
  case (Cons x s)
  obtain p ps where "split_char c s = p # ps"
    by (cases "split_char c s") auto
  with Cons show ?case by (cases ps) (auto simp: join_Cons)
qed simp


text \<open>\<open>str::lines\<close>: pieces end at LF, a CR before the LF is dropped, and a last piece
  without LF is a line only when it is not empty (and then keeps a trailing CR).\<close>

definition strip_cr :: "string \<Rightarrow> string" where
  "strip_cr l = (if l \<noteq> [] \<and> last l = CR then butlast l else l)"

definition str_lines :: "string \<Rightarrow> string list" where
  "str_lines s =
     (let ps = split_char LF s
      in map strip_cr (butlast ps) @ (if last ps = [] then [] else [last ps]))"

section \<open>Letter case, white space\<close>

definition ascii_lower :: "char \<Rightarrow> char" where
  "ascii_lower c = (if 65 \<le> byte c \<and> byte c \<le> 90 then char_of (byte c + 32) else c)"

definition eq_ignore_ascii_case :: "string \<Rightarrow> string \<Rightarrow> bool" where
  "eq_ignore_ascii_case a b = (map ascii_lower a = map ascii_lower b)"

text \<open>
  \<open>str::to_lowercase\<close>. Above ASCII, the only characters whose lower case contains an
  ASCII character are U+212A (Kelvin sign, lower case \<open>k\<close>) and U+0130 (capital I with
  dot, lower case \<open>i\<close> and U+0307); both are translated. The other characters above
  ASCII are left as they are: the crates only compare the result with ASCII text (a host
  of a parsed \<open>Uri\<close>) or search it for an ASCII literal, and neither can tell them from
  their lower case.
\<close>

function to_lowercase :: "string \<Rightarrow> string" where
  "to_lowercase s =
     (case s of
        [] \<Rightarrow> []
      | c # r \<Rightarrow>
          if starts_with [CHR 0xE2, CHR 0x84, CHR 0xAA] s then CHR ''k'' # to_lowercase (drop 3 s)
          else if starts_with [CHR 0xC4, CHR 0xB0] s
            then [CHR ''i'', CHR 0xCC, CHR 0x87] @ to_lowercase (drop 2 s)
          else ascii_lower c # to_lowercase r)"
  by pat_completeness auto
termination by (relation "measure length") auto

declare to_lowercase.simps [simp del]

lemma to_lowercase_Nil [simp]: "to_lowercase [] = []"
  by (simp add: to_lowercase.simps)

lemma to_lowercase_ascii: "\<forall>c\<in>set s. byte c < 128 \<Longrightarrow> to_lowercase s = map ascii_lower s"
proof (induction s)
  case (Cons c s)
  then have "c \<noteq> CHR 0xE2" "c \<noteq> CHR 0xC4" by auto
  with Cons show ?case by (simp add: to_lowercase.simps[of "c # s"])
qed simp

lemma ascii_lower_idem [simp]: "ascii_lower (ascii_lower c) = ascii_lower c"
  by (simp add: ascii_lower_def)

lemma eq_ignore_ascii_case_refl [simp]: "eq_ignore_ascii_case a a"
  by (simp add: eq_ignore_ascii_case_def)

text \<open>
  The number of bytes of the white-space character (Unicode \<open>White_Space\<close>) that a
  string starts with, 0 if there is none; and the same for a reversed string, read from
  the end of the text.
\<close>

definition ws_len :: "string \<Rightarrow> nat" where
  "ws_len s =
     (case s of
        [] \<Rightarrow> 0
      | c # r \<Rightarrow>
          if (9 \<le> byte c \<and> byte c \<le> 13) \<or> byte c = 32 then 1
          else if starts_with [CHR 0xC2, CHR 0x85] s \<or> starts_with [CHR 0xC2, CHR 0xA0] s then 2
          else if starts_with [CHR 0xE1, CHR 0x9A, CHR 0x80] s
               \<or> starts_with [CHR 0xE2, CHR 0x81, CHR 0x9F] s
               \<or> starts_with [CHR 0xE3, CHR 0x80, CHR 0x80] s then 3
          else if starts_with [CHR 0xE2, CHR 0x80] s then
            (case drop 2 s of
               [] \<Rightarrow> 0
             | d # _ \<Rightarrow> if (128 \<le> byte d \<and> byte d \<le> 138)
                          \<or> byte d = 168 \<or> byte d = 169 \<or> byte d = 175 then 3 else 0)
          else 0)"

definition ws_len_rev :: "string \<Rightarrow> nat" where
  "ws_len_rev s =
     (if ws_len (take 1 s) = 1 then 1
      else if ws_len (rev (take 2 s)) = 2 then 2
      else if ws_len (rev (take 3 s)) = 3 then 3
      else 0)"

function trim_by :: "(string \<Rightarrow> nat) \<Rightarrow> string \<Rightarrow> string" where
  "trim_by w s = (if w s = 0 \<or> s = [] then s else trim_by w (drop (w s) s))"
  by pat_completeness auto
termination by (relation "measure (\<lambda>(w, s). length s)") auto

declare trim_by.simps [simp del]

definition trim_start :: "string \<Rightarrow> string" where
  "trim_start s = trim_by ws_len s"

definition trim_end :: "string \<Rightarrow> string" where
  "trim_end s = rev (trim_by ws_len_rev (rev s))"

definition trim :: "string \<Rightarrow> string" where
  "trim s = trim_end (trim_start s)"

lemma trim_by_suffix: "\<exists>a. s = a @ trim_by w s"
proof (induction w s rule: trim_by.induct)
  case (1 w s)
  show ?case
  proof (cases "w s = 0 \<or> s = []")
    case True
    then show ?thesis by (simp add: trim_by.simps[of w s])
  next
    case False
    with "1.IH" obtain a where "drop (w s) s = a @ trim_by w s"
      by (auto simp: trim_by.simps[of w s])
    then have "s = (take (w s) s @ a) @ trim_by w s"
      by (metis append.assoc append_take_drop_id)
    then show ?thesis by blast
  qed
qed

lemma trim_infix: "\<exists>a b. s = a @ trim s @ b"
proof -
  obtain a where a: "s = a @ trim_start s"
    using trim_by_suffix[of s ws_len] by (auto simp: trim_start_def)
  obtain b where "rev (trim_start s) = b @ trim_by ws_len_rev (rev (trim_start s))"
    using trim_by_suffix by blast
  then have "trim_start s = trim s @ rev b"
    by (metis rev_append rev_rev_ident trim_def trim_end_def)
  with a have "s = a @ trim s @ rev b" by simp
  then show ?thesis by blast
qed

lemma trim_by_stop: "w s = 0 \<Longrightarrow> trim_by w s = s"
  by (simp add: trim_by.simps[of w s])

definition visible :: "char \<Rightarrow> bool" where
  "visible c = (32 < byte c \<and> byte c < 127)"

lemma visible_ws_len: "visible c \<Longrightarrow> ws_len (c # s) = 0"
  by (auto simp: ws_len_def visible_def char_of_eq_iff)

lemma visible_not:
  assumes "visible c"
  shows "CHR 0x80 \<noteq> c" "CHR 0x85 \<noteq> c" "CHR 0x9F \<noteq> c" "CHR 0xA0 \<noteq> c"
    "\<not> 128 \<le> byte c" "byte c \<noteq> 168" "byte c \<noteq> 169" "byte c \<noteq> 175"
  using assms by (auto simp: visible_def)

lemma visible_ws_len_2: "visible c \<Longrightarrow> ws_len [d, c] \<le> 1"
  by (simp add: ws_len_def visible_not)

lemma visible_ws_len_3: "visible c \<Longrightarrow> ws_len [e, d, c] \<le> 2"
  by (simp add: ws_len_def visible_not)

lemma visible_ws_len_rev:
  assumes "visible c"
  shows "ws_len_rev (c # s) = 0"
proof -
  have 1: "ws_len [c] = 0" by (rule visible_ws_len) fact
  have 2: "ws_len [d, c] \<noteq> 2" "ws_len [d, c] \<noteq> 3" "ws_len [e, d, c] \<noteq> 3" for d e
    using visible_ws_len_2[OF assms, of d] visible_ws_len_3[OF assms, of e d] by linarith+
  show ?thesis
    using 2 by (cases s; cases "List.tl s") (simp_all add: ws_len_rev_def 1 numeral_3_eq_3)
qed

lemma trim_visible:
  assumes "s \<noteq> []" and "visible (hd s)" and "visible (last s)"
  shows "trim s = s"
proof -
  from assms(1,2) have "trim_start s = s"
    by (cases s) (simp_all add: trim_start_def trim_by_stop visible_ws_len)
  moreover from assms(1,3) have "trim_by ws_len_rev (rev s) = rev s"
    by (cases s rule: rev_cases) (simp_all add: trim_by_stop visible_ws_len_rev)
  ultimately show ?thesis by (simp add: trim_def trim_end_def)
qed

lemma trim_space_end:
  assumes "s \<noteq> []" and "visible (hd s)" and "visible (last s)"
  shows "trim (s @ '' '') = s"
proof -
  from assms(1,2) have "trim_start (s @ '' '') = s @ '' ''"
    by (cases s) (simp_all add: trim_start_def trim_by_stop visible_ws_len)
  moreover have "ws_len_rev (CHR '' '' # rev s) = 1" by (simp add: ws_len_rev_def ws_len_def)
  moreover from assms(1,3) have "trim_by ws_len_rev (rev s) = rev s"
    by (cases s rule: rev_cases) (simp_all add: trim_by_stop visible_ws_len_rev)
  ultimately show ?thesis by (simp add: trim_def trim_end_def trim_by.simps[of _ "CHR '' '' # _"])
qed

text \<open>\<open>str::split_whitespace\<close>; \<open>acc\<close> is the word read so far.\<close>

function split_ws :: "string \<Rightarrow> string \<Rightarrow> string list" where
  "split_ws acc s =
     (case s of
        [] \<Rightarrow> [acc]
      | c # r \<Rightarrow> if ws_len s = 0 then split_ws (acc @ [c]) r
                else acc # split_ws [] (drop (ws_len s) s))"
  by pat_completeness auto
termination by (relation "measure (\<lambda>(acc, s). length s)") auto

declare split_ws.simps [simp del]

definition split_whitespace :: "string \<Rightarrow> string list" where
  "split_whitespace s = filter (\<lambda>w. w \<noteq> []) (split_ws [] s)"

lemma split_ws_word:
  "\<forall>c\<in>set w. visible c \<Longrightarrow> split_ws acc (w @ s) = split_ws (acc @ w) s"
proof (induction w arbitrary: acc)
  case (Cons c w)
  then have "split_ws acc ((c # w) @ s) = split_ws (acc @ [c]) (w @ s)"
    by (simp add: split_ws.simps[of acc "c # _"] visible_ws_len)
  with Cons show ?case by simp
qed simp

lemma split_whitespace_word:
  assumes "\<forall>c\<in>set w. visible c" and "w \<noteq> []"
  shows "split_whitespace (w @ CHR '' '' # s) = w # split_whitespace s"
  using split_ws_word[OF assms(1), of "[]" "CHR '' '' # s"] assms(2)
  by (simp add: split_whitespace_def split_ws.simps[of w "CHR '' '' # s"] ws_len_def)

lemma set_trim: "set (trim s) \<subseteq> set s"
  using trim_infix[of s] by (metis Un_iff set_append subsetI)


section \<open>Numbers\<close>

text \<open>\<open>str::parse\<close> for an unsigned type with values below \<open>bound\<close>: an optional plus
  sign, then at least one decimal digit, no overflow.\<close>

definition is_digit :: "char \<Rightarrow> bool" where
  "is_digit c = (48 \<le> byte c \<and> byte c \<le> 57)"

fun digits_value :: "nat \<Rightarrow> string \<Rightarrow> nat" where
  "digits_value acc [] = acc"
| "digits_value acc (c # s) = digits_value (10 * acc + (byte c - 48)) s"

definition parse_uint :: "nat \<Rightarrow> string \<Rightarrow> nat option" where
  "parse_uint bound s =
     (let ds = (case s of [] \<Rightarrow> [] | c # r \<Rightarrow> if c = CHR ''+'' then r else s)
      in if ds = [] \<or> \<not> list_all is_digit ds then None
         else if digits_value 0 ds < bound then Some (digits_value 0 ds) else None)"

definition digit_char :: "nat \<Rightarrow> char" where
  "digit_char d = char_of (48 + d)"

text \<open>\<open>Display\<close> of an unsigned integer, as \<open>format!\<close> and \<open>to_string\<close> print it.\<close>

fun show_nat :: "nat \<Rightarrow> string" where
  "show_nat n = (if n < 10 then [digit_char n] else show_nat (n div 10) @ [digit_char (n mod 10)])"

declare show_nat.simps [simp del]

lemma byte_digit_char: "d < 10 \<Longrightarrow> byte (digit_char d) = 48 + d"
  by (simp add: digit_char_def)

lemma is_digit_digit_char: "d < 10 \<Longrightarrow> is_digit (digit_char d)"
  by (simp add: is_digit_def byte_digit_char)

lemma digit_visible: "is_digit c \<Longrightarrow> visible c"
  by (simp add: is_digit_def visible_def)

lemma show_nat_digits: "list_all is_digit (show_nat n)"
proof (induction n rule: show_nat.induct)
  case (1 n)
  then show ?case
    by (cases "n < 10") (simp_all add: show_nat.simps[of n] is_digit_digit_char)
qed

lemma show_nat_nonempty [simp]: "show_nat n \<noteq> []"
  by (subst show_nat.simps) simp

lemma digits_value_append:
  "digits_value a (xs @ [c]) = 10 * digits_value a xs + (byte c - 48)"
  by (induction xs arbitrary: a) auto

lemma digits_value_show: "digits_value 0 (show_nat n) = n"
proof (induction n rule: show_nat.induct)
  case (1 n)
  show ?case
  proof (cases "n < 10")
    case True
    then show ?thesis by (simp add: show_nat.simps[of n] byte_digit_char)
  next
    case False
    with 1 show ?thesis
      by (simp add: show_nat.simps[of n] digits_value_append byte_digit_char)
  qed
qed

lemma is_digit_not_plus: "is_digit c \<Longrightarrow> c \<noteq> CHR ''+''"
  by (auto simp: is_digit_def)

lemma parse_show_nat: "n < b \<Longrightarrow> parse_uint b (show_nat n) = Some n"
proof -
  assume "n < b"
  obtain c r where cr: "show_nat n = c # r" by (cases "show_nat n") auto
  then have "is_digit c" using show_nat_digits[of n] by simp
  with cr have "(case show_nat n of [] \<Rightarrow> [] | c # r \<Rightarrow> if c = CHR ''+'' then r else show_nat n)
      = show_nat n"
    by (simp add: is_digit_not_plus)
  with \<open>n < b\<close> show ?thesis
    by (simp add: parse_uint_def Let_def show_nat_digits digits_value_show)
qed

lemma show_nat_inj: "show_nat m = show_nat n \<longleftrightarrow> m = n"
  by (metis digits_value_show)

lemma show_nat_no: "\<not> is_digit c \<Longrightarrow> c \<notin> set (show_nat n)"
  using show_nat_digits[of n] by (auto simp: list_all_iff)

lemma parse_uint_bound: "parse_uint b s = Some n \<Longrightarrow> n < b"
  by (auto simp: parse_uint_def Let_def split: if_splits)

text \<open>\<open>str::replace\<close> of a character by a string.\<close>

definition replace_char :: "char \<Rightarrow> string \<Rightarrow> string \<Rightarrow> string" where
  "replace_char c r s = concat (map (\<lambda>x. if x = c then r else [x]) s)"

section \<open>UTF-8\<close>

definition is_cont :: "char \<Rightarrow> bool" where
  "is_cont c = (128 \<le> byte c \<and> byte c \<le> 191)"

text \<open>
  One step of \<open>core::str::lossy::Utf8Chunks\<close> on a non-empty input: whether it starts with
  a valid character and how many bytes are consumed, where an invalid sequence is the
  longest prefix of a valid one (at least one byte).
\<close>

definition second_byte_ok :: "char \<Rightarrow> char \<Rightarrow> bool" where
  "second_byte_ok b c =
     (if byte b = 224 then 160 \<le> byte c \<and> byte c \<le> 191
      else if byte b = 237 then 128 \<le> byte c \<and> byte c \<le> 159
      else if byte b = 240 then 144 \<le> byte c \<and> byte c \<le> 191
      else if byte b = 244 then 128 \<le> byte c \<and> byte c \<le> 143
      else is_cont c)"

fun next_is :: "(char \<Rightarrow> bool) \<Rightarrow> string \<Rightarrow> bool" where
  "next_is P [] = False"
| "next_is P (c # _) = P c"

definition utf8_step :: "string \<Rightarrow> bool \<times> nat" where
  "utf8_step s =
     (let b = hd s; n = byte b in
      if n < 128 then (True, 1)
      else if 194 \<le> n \<and> n \<le> 223 then
        (if next_is is_cont (drop 1 s) then (True, 2) else (False, 1))
      else if 224 \<le> n \<and> n \<le> 239 then
        (if \<not> next_is (second_byte_ok b) (drop 1 s) then (False, 1)
         else if \<not> next_is is_cont (drop 2 s) then (False, 2)
         else (True, 3))
      else if 240 \<le> n \<and> n \<le> 244 then
        (if \<not> next_is (second_byte_ok b) (drop 1 s) then (False, 1)
         else if \<not> next_is is_cont (drop 2 s) then (False, 2)
         else if \<not> next_is is_cont (drop 3 s) then (False, 3)
         else (True, 4))
      else (False, 1))"

definition replacement_char :: string where
  "replacement_char = [CHR 0xEF, CHR 0xBF, CHR 0xBD]"

lemma utf8_step_pos: "0 < snd (utf8_step s)"
  by (simp add: utf8_step_def Let_def)

text \<open>\<open>String::from_utf8_lossy\<close> and the test behind \<open>std::str::from_utf8\<close>.\<close>

function from_utf8_lossy :: "string \<Rightarrow> string" where
  "from_utf8_lossy s =
     (if s = [] then []
      else (if fst (utf8_step s) then take (snd (utf8_step s)) s else replacement_char)
           @ from_utf8_lossy (drop (snd (utf8_step s)) s))"
  by pat_completeness auto
termination
  by (relation "measure length") (auto simp: utf8_step_pos diff_less)

function utf8_valid :: "string \<Rightarrow> bool" where
  "utf8_valid s =
     (if s = [] then True
      else if fst (utf8_step s) then utf8_valid (drop (snd (utf8_step s)) s)
      else False)"
  by pat_completeness auto
termination
  by (relation "measure length") (auto simp: utf8_step_pos diff_less)

declare from_utf8_lossy.simps [simp del] utf8_valid.simps [simp del]

definition from_utf8 :: "string \<Rightarrow> string option" where
  "from_utf8 s = (if utf8_valid s then Some s else None)"

lemma from_utf8_lossy_Nil [simp]: "from_utf8_lossy [] = []"
  by (simp add: from_utf8_lossy.simps)

lemma utf8_valid_Nil [simp]: "utf8_valid []"
  by (simp add: utf8_valid.simps)

lemma lossy_valid_id: "utf8_valid s \<Longrightarrow> from_utf8_lossy s = s"
proof (induction s rule: utf8_valid.induct)
  case (1 s)
  show ?case
  proof (cases "s = []")
    case False
    with "1.prems" have "fst (utf8_step s)" and "utf8_valid (drop (snd (utf8_step s)) s)"
      by (simp_all add: utf8_valid.simps[of s] split: if_splits)
    with False "1.IH" show ?thesis by (simp add: from_utf8_lossy.simps[of s])
  qed simp
qed

lemma next_is_nth: "next_is P (drop k s) \<longleftrightarrow> k < length s \<and> P (s ! k)"
proof (cases "k < length s")
  case True
  then have "drop k s = s ! k # drop (Suc k) s" by (simp add: Cons_nth_drop_Suc)
  with True show ?thesis by simp
qed simp

lemma next_is_take:
  "k < n \<Longrightarrow> next_is P (drop k s) \<Longrightarrow> next_is P (drop k (take n s @ t))"
  unfolding next_is_nth by (auto simp: nth_append)

lemma utf8_step_cases:
  assumes "fst (utf8_step s)"
  obtains "byte (hd s) < 128" and "snd (utf8_step s) = 1"
  | "194 \<le> byte (hd s)" and "byte (hd s) \<le> 223" and "next_is is_cont (drop 1 s)"
    and "snd (utf8_step s) = 2"
  | "224 \<le> byte (hd s)" and "byte (hd s) \<le> 239" and "next_is (second_byte_ok (hd s)) (drop 1 s)"
    and "next_is is_cont (drop 2 s)" and "snd (utf8_step s) = 3"
  | "240 \<le> byte (hd s)" and "byte (hd s) \<le> 244" and "next_is (second_byte_ok (hd s)) (drop 1 s)"
    and "next_is is_cont (drop 2 s)" and "next_is is_cont (drop 3 s)"
    and "snd (utf8_step s) = 4"
  using assms unfolding utf8_step_def Let_def by (auto split: if_split_asm)

lemma utf8_step_width:
  assumes "s \<noteq> []" and "fst (utf8_step s)"
  shows "snd (utf8_step s) \<le> length s"
  using assms(2)
proof (cases rule: utf8_step_cases)
  case 1
  with assms(1) show ?thesis by (simp add: Suc_le_eq)
qed (simp_all only: next_is_nth, simp_all)

lemma utf8_step_take:
  assumes "s \<noteq> []" and "fst (utf8_step s)"
  shows "utf8_step (take (snd (utf8_step s)) s @ t) = (True, snd (utf8_step s))"
proof -
  have hd: "hd (take n s @ t) = hd s" if "0 < n" for n
    using assms(1) that by (cases s) (auto simp: take_Cons')
  from assms(2) show ?thesis
  proof (cases rule: utf8_step_cases)
    case 1
    then show ?thesis by (simp add: utf8_step_def[of "_ @ t"] hd)
  next
    case 2
    then show ?thesis
      using next_is_take[of 1 2 is_cont s t]
      by (simp add: utf8_step_def[of "_ @ t"] hd Let_def del: drop_append)
  next
    case 3
    then show ?thesis
      using next_is_take[of 1 3 "second_byte_ok (hd s)" s t] next_is_take[of 2 3 is_cont s t]
      by (simp add: utf8_step_def[of "_ @ t"] hd Let_def del: drop_append)
  next
    case 4
    then show ?thesis
      using next_is_take[of 1 4 "second_byte_ok (hd s)" s t] next_is_take[of 2 4 is_cont s t]
        next_is_take[of 3 4 is_cont s t]
      by (simp add: utf8_step_def[of "_ @ t"] hd Let_def del: drop_append)
  qed
qed

lemma utf8_valid_step:
  assumes "utf8_step s = (True, n)" and "length s = n" and "utf8_valid t"
  shows "utf8_valid (s @ t)"
proof -
  from assms(1) have "0 < n" using utf8_step_pos[of s] by simp
  with assms(2) have "s \<noteq> []" by auto
  with assms(1,2) have "utf8_step (s @ t) = (True, n)"
    using utf8_step_take[of s t] by simp
  with assms(2,3) show ?thesis by (simp add: utf8_valid.simps[of "s @ t"])
qed

lemma utf8_valid_lossy: "utf8_valid (from_utf8_lossy s)"
proof (induction s rule: from_utf8_lossy.induct)
  case (1 s)
  let ?n = "snd (utf8_step s)"
  show ?case
  proof (cases "s = []")
    case False
    with "1.IH" have IH: "utf8_valid (from_utf8_lossy (drop ?n s))" by simp
    show ?thesis
    proof (cases "fst (utf8_step s)")
      case True
      with False have "utf8_step (take ?n s) = (True, ?n)" and "length (take ?n s) = ?n"
        using utf8_step_take[of s "[]"] utf8_step_width[of s] by simp_all
      from utf8_valid_step[OF this IH] True False show ?thesis
        by (simp add: from_utf8_lossy.simps[of s])
    next
      case False
      have "utf8_step replacement_char = (True, 3)" and "length replacement_char = 3"
        by (simp_all add: replacement_char_def utf8_step_def second_byte_ok_def is_cont_def)
      from utf8_valid_step[OF this IH] False \<open>s \<noteq> []\<close> show ?thesis
        by (simp add: from_utf8_lossy.simps[of s])
    qed
  qed simp
qed

lemma lossy_idem [simp]: "from_utf8_lossy (from_utf8_lossy s) = from_utf8_lossy s"
  by (rule lossy_valid_id) (rule utf8_valid_lossy)

lemma utf8_valid_ascii: "\<forall>c\<in>set s. byte c < 128 \<Longrightarrow> utf8_valid s"
proof (induction s)
  case (Cons c s)
  then have "utf8_step [c] = (True, 1)" by (simp add: utf8_step_def Let_def)
  from utf8_valid_step[OF this _ Cons.IH] Cons.prems show ?case by simp
qed simp

lemma trim_show_nat [simp]: "trim (show_nat n) = show_nat n"
proof -
  have v: "\<forall>c\<in>set (show_nat n). visible c"
    using show_nat_digits[of n] by (auto simp: list_all_iff digit_visible)
  moreover have "show_nat n \<noteq> []" by simp
  ultimately show ?thesis by (intro trim_visible) auto
qed

lemma from_utf8_show_nat [simp]: "from_utf8 (show_nat n) = Some (show_nat n)"
  using show_nat_digits[of n]
  by (auto simp: from_utf8_def list_all_iff is_digit_def intro!: utf8_valid_ascii)

end
