(* ===== verification/Vault.thy ===== *)
theory Vault
  imports Rust_Text
begin

text \<open>
  \<open>crates/proxy/src/vault.rs\<close>: the secret store the proxy resolves \<open>credential_ref\<close>
  entries with. \<open>serde_json\<close>, which reads the key file, is the argument \<open>parse\<close>; the
  result of reading standard input is the argument \<open>input\<close>. The trait \<open>SecretStore\<close>
  is the locale \<open>secret_store\<close>; the file store and the mock store interpret it.
\<close>

section \<open>Errors and key pairs\<close>

datatype secret_store_error =
    SecretNotFound string
  | SecretInvalid string
  | SecretInternal string

fun secret_store_error_to_string :: "secret_store_error \<Rightarrow> string" where
  "secret_store_error_to_string (SecretNotFound r) = ''credential ref not found: '' @ r"
| "secret_store_error_to_string (SecretInvalid m) = ''credential ref invalid: '' @ m"
| "secret_store_error_to_string (SecretInternal m) = ''secret store error: '' @ m"

record key_pair =
  dummy :: string
  real :: string

type_synonym fetcher = "string \<Rightarrow> (secret_store_error, key_pair) result"

section \<open>The stores\<close>

record mock_secret_store =
  mock_keys :: "(string, key_pair) hashmap"

definition mock_new :: mock_secret_store where
  "mock_new = \<lparr>mock_keys = []\<rparr>"

definition mock_insert ::
  "mock_secret_store \<Rightarrow> string \<Rightarrow> string \<Rightarrow> string \<Rightarrow> mock_secret_store" where
  "mock_insert st credential_ref d r =
     st\<lparr>mock_keys := hm_insert credential_ref \<lparr>dummy = d, real = r\<rparr> (mock_keys st)\<rparr>"

definition mock_fetch :: "mock_secret_store \<Rightarrow> fetcher" where
  "mock_fetch st credential_ref =
     (case hm_get (mock_keys st) credential_ref of
        Some p \<Rightarrow> Inr p
      | None \<Rightarrow> Inl (SecretNotFound credential_ref))"

record file_secret_store =
  file_keys :: "(string, key_pair) hashmap"

definition file_store_new ::
  "(string \<Rightarrow> (string, (string, key_pair) hashmap) result) \<Rightarrow> string
     \<Rightarrow> (secret_store_error, file_secret_store) result" where
  "file_store_new parse plaintext_json =
     (case parse plaintext_json of
        Inl e \<Rightarrow> Inl (SecretInvalid (''malformed key file JSON: '' @ e))
      | Inr keys \<Rightarrow>
          if keys = [] then Inl (SecretInvalid ''key file is empty'')
          else Inr \<lparr>file_keys = keys\<rparr>)"

definition file_store_from_stdin ::
  "(string \<Rightarrow> (string, (string, key_pair) hashmap) result) \<Rightarrow> (string, string) result
     \<Rightarrow> (secret_store_error, file_secret_store) result" where
  "file_store_from_stdin parse input =
     (case input of
        Inl e \<Rightarrow> Inl (SecretInternal (''failed to read stdin: '' @ e))
      | Inr s \<Rightarrow> file_store_new parse s)"

definition file_fetch :: "file_secret_store \<Rightarrow> fetcher" where
  "file_fetch st credential_ref =
     (case hm_get (file_keys st) credential_ref of
        Some p \<Rightarrow> Inr p
      | None \<Rightarrow> Inl (SecretNotFound credential_ref))"

section \<open>The trait as an interface\<close>

locale secret_store =
  fixes fetch :: "'s \<Rightarrow> fetcher"
    and entries :: "'s \<Rightarrow> string \<Rightarrow> key_pair option"
  assumes fetch_ok: "fetch s r = Inr p \<longleftrightarrow> entries s r = Some p"
    and fetch_err: "fetch s r = Inl e \<Longrightarrow> e = SecretNotFound r"
begin

lemma fetch_missing: "entries s r = None \<Longrightarrow> fetch s r = Inl (SecretNotFound r)"
  by (metis fetch_ok fetch_err option.distinct(1) sum.exhaust)

lemma fetch_err_iff: "fetch s r = Inl e \<longleftrightarrow> e = SecretNotFound r \<and> entries s r = None"
  by (metis fetch_ok fetch_err fetch_missing not_None_eq Inl_Inr_False)

lemma fetch_determined: "entries s r = entries s' r \<Longrightarrow> fetch s r = fetch s' r"
  by (metis fetch_missing fetch_ok not_None_eq)

end

locale secret_store_update = secret_store fetch entries
  for fetch :: "'s \<Rightarrow> fetcher" and entries :: "'s \<Rightarrow> string \<Rightarrow> key_pair option" +
  fixes insert :: "'s \<Rightarrow> string \<Rightarrow> string \<Rightarrow> string \<Rightarrow> 's"
  assumes entries_insert:
    "entries (insert s r d k) = (entries s)(r \<mapsto> \<lparr>dummy = d, real = k\<rparr>)"
begin

lemma fetch_insert_same: "fetch (insert s r d k) r = Inr \<lparr>dummy = d, real = k\<rparr>"
  by (simp add: fetch_ok entries_insert)

lemma fetch_insert_other: "r' \<noteq> r \<Longrightarrow> fetch (insert s r d k) r' = fetch s r'"
  by (rule fetch_determined) (simp add: entries_insert)

end

interpretation file_store: secret_store file_fetch "\<lambda>st. hm_get (file_keys st)"
  by unfold_locales (auto simp: file_fetch_def split: option.splits)

interpretation mock_store: secret_store_update mock_fetch "\<lambda>st. hm_get (mock_keys st)" mock_insert
  by unfold_locales (auto simp: mock_fetch_def mock_insert_def hm_simps split: option.splits)

section \<open>The file store\<close>

lemma file_store_new_nonempty:
  "file_store_new parse j = Inr st \<Longrightarrow> file_keys st \<noteq> [] \<and> parse j = Inr (file_keys st)"
  by (auto simp: file_store_new_def split: sum.splits if_splits)

end
