(* ===== verification/Session.thy ===== *)
theory Session
  imports Rust_Text
begin

text \<open>
  \<open>crates/proxy/src/session.rs\<close>: the session store, an in-memory map keyed by source IP
  in front of the SQLite table \<open>sessions\<close>.

  The table is the list of its rows, with the constraints of \<open>SCHEMA_SQL\<close>; each SQL
  statement of the source is one definition on it. What the model does not own is in the
  record \<open>session_lib\<close>: the failures SQLite may report for a statement (\<open>sql_fault\<close>),
  the text of its constraint error, and \<open>serde_json\<close> on the allowlist column. 64-bit
  values are kept at their width: \<open>as i64\<close> is \<open>sint\<close>, \<open>as u64\<close> is \<open>word_of_int\<close>.
  Counters wrap as they do in a release build.
\<close>

named_theorems store_defs \<open>unfolding the operations of the session store\<close>

section \<open>Data\<close>

datatype session_error =
    Sqlite string
  | Json string
  | AlreadyExists string
  | SessionNotFound string
  | SessionInvalid string

fun session_error_to_string :: "session_error \<Rightarrow> string" where
  "session_error_to_string (Sqlite e) = ''sqlite: '' @ e"
| "session_error_to_string (Json e) = ''json: '' @ e"
| "session_error_to_string (AlreadyExists e) = ''session already exists: '' @ e"
| "session_error_to_string (SessionNotFound e) = ''session not found: '' @ e"
| "session_error_to_string (SessionInvalid e) = ''invalid session data: '' @ e"

record allowlist_entry =
  domain :: string
  mode :: string
  credential_ref :: "string option"

record session =
  session_id :: string
  source_ip :: string
  allowlist :: "allowlist_entry list"
  created_at :: u64
  expires_at :: "u64 option"
  dummy_to_real :: "(string, string) hashmap"

record create_session_request =
  req_session_id :: string
  req_source_ip :: string
  req_allowlist :: "allowlist_entry list"
  req_expires_at :: "string option"

record session_stats =
  requests_total :: u64
  requests_mitm :: u64
  requests_tunnel :: u64
  requests_dropped :: u64
  bytes_upstream :: u64
  bytes_downstream :: u64

definition default_stats :: session_stats where
  "default_stats = \<lparr>requests_total = 0, requests_mitm = 0, requests_tunnel = 0,
     requests_dropped = 0, bytes_upstream = 0, bytes_downstream = 0\<rparr>"

record session_response =
  resp_session_id :: string
  resp_source_ip :: string
  resp_allowlist :: "allowlist_entry list"
  resp_created_at :: string
  resp_expires_at :: "string option"
  resp_stats :: "session_stats option"
  resp_dummy_keys :: "(string, string) hashmap option"

record session_summary =
  sum_session_id :: string
  sum_source_ip :: string
  sum_created_at :: string
  sum_expires_at :: "string option"

section \<open>Timestamps\<close>

text \<open>
  The \<open>time\<close> crate: reading and printing RFC 3339, and the conversion of an
  \<open>OffsetDateTime\<close> from and to Unix seconds.
\<close>

record 'dt time_lib =
  from_unix_timestamp :: "int \<Rightarrow> 'dt option"
  unix_timestamp :: "'dt \<Rightarrow> int"
  format_rfc3339 :: "'dt \<Rightarrow> string option"
  parse_rfc3339 :: "string \<Rightarrow> 'dt option"

definition parse_iso8601 :: "'dt time_lib \<Rightarrow> string \<Rightarrow> u64 option" where
  "parse_iso8601 tm s =
     (if s = [] then None
      else (case parse_rfc3339 tm s of
              Some dt \<Rightarrow> Some (word_of_int (unix_timestamp tm dt))
            | None \<Rightarrow> None))"

definition format_iso8601 :: "'dt time_lib \<Rightarrow> u64 \<Rightarrow> string option" where
  "format_iso8601 tm ts =
     (if ts = 0 then None
      else map_option (\<lambda>dt. case format_rfc3339 tm dt of Some s \<Rightarrow> s | None \<Rightarrow> [])
             (from_unix_timestamp tm (sint ts)))"

definition session_response_from :: "'dt time_lib \<Rightarrow> session \<Rightarrow> session_response" where
  "session_response_from tm s =
     \<lparr>resp_session_id = session_id s, resp_source_ip = source_ip s,
      resp_allowlist = allowlist s,
      resp_created_at = (case format_iso8601 tm (created_at s) of Some t \<Rightarrow> t | None \<Rightarrow> []),
      resp_expires_at = Option.bind (expires_at s) (format_iso8601 tm),
      resp_stats = None, resp_dummy_keys = None\<rparr>"

definition session_summary_from :: "'dt time_lib \<Rightarrow> session \<Rightarrow> session_summary" where
  "session_summary_from tm s =
     \<lparr>sum_session_id = session_id s, sum_source_ip = source_ip s,
      sum_created_at = (case format_iso8601 tm (created_at s) of Some t \<Rightarrow> t | None \<Rightarrow> []),
      sum_expires_at = Option.bind (expires_at s) (format_iso8601 tm)\<rparr>"

section \<open>The table and its statements\<close>

record session_row =
  row_session_id :: string
  row_source_ip :: string
  row_allowlist :: string
  row_created_at :: int
  row_expires_at :: "int option"

datatype sql_stmt =
    OpenConnection | ExecSchema | PurgeExpired | SelectAll
  | SelectById | SelectByIp | InsertRow | DeleteById

record session_lib =
  sql_fault :: "sql_stmt \<Rightarrow> string option"
  unique_msg :: string
  to_json :: "allowlist_entry list \<Rightarrow> (string, string) result"
  from_json :: "string \<Rightarrow> allowlist_entry list option"

text \<open>\<open>PRIMARY KEY\<close> and \<open>UNIQUE\<close> of \<open>SCHEMA_SQL\<close>; an \<open>INTEGER\<close> of SQLite is a signed
  64-bit value.\<close>

definition i64_ok :: "int \<Rightarrow> bool" where
  "i64_ok i = (- (2 ^ 63) \<le> i \<and> i < 2 ^ 63)"

definition row_typed :: "session_row \<Rightarrow> bool" where
  "row_typed r = (i64_ok (row_created_at r)
     \<and> (case row_expires_at r of None \<Rightarrow> True | Some e \<Rightarrow> i64_ok e))"

definition schema_ok :: "session_row list \<Rightarrow> bool" where
  "schema_ok rows = (distinct (map row_session_id rows) \<and> distinct (map row_source_ip rows)
     \<and> list_all row_typed rows)"

definition select_by_id :: "session_row list \<Rightarrow> string \<Rightarrow> bool" where
  "select_by_id rows sid = list_ex (\<lambda>r. row_session_id r = sid) rows"

definition select_by_ip :: "session_row list \<Rightarrow> string \<Rightarrow> bool" where
  "select_by_ip rows ip = list_ex (\<lambda>r. row_source_ip r = ip) rows"

definition insert_row ::
  "session_lib \<Rightarrow> session_row \<Rightarrow> session_row list \<Rightarrow> (string, session_row list) result" where
  "insert_row lib r rows =
     (case sql_fault lib InsertRow of
        Some e \<Rightarrow> Inl e
      | None \<Rightarrow>
          if select_by_id rows (row_session_id r) \<or> select_by_ip rows (row_source_ip r)
          then Inl (unique_msg lib)
          else Inr (rows @ [r]))"

definition delete_rows :: "string \<Rightarrow> session_row list \<Rightarrow> session_row list" where
  "delete_rows sid rows = filter (\<lambda>r. row_session_id r \<noteq> sid) rows"

text \<open>\<open>DELETE \<dots> WHERE expires_at IS NOT NULL AND expires_at < now\<close>, on signed values.\<close>

definition row_expired :: "u64 \<Rightarrow> session_row \<Rightarrow> bool" where
  "row_expired now r =
     (case row_expires_at r of None \<Rightarrow> False | Some e \<Rightarrow> e < sint now)"

definition purge_expired :: "u64 \<Rightarrow> session_row list \<Rightarrow> session_row list" where
  "purge_expired now rows = filter (\<lambda>r. \<not> row_expired now r) rows"

definition session_of_row :: "session_lib \<Rightarrow> session_row \<Rightarrow> session" where
  "session_of_row lib r =
     \<lparr>session_id = row_session_id r, source_ip = row_source_ip r,
      allowlist = (case from_json lib (row_allowlist r) of Some a \<Rightarrow> a | None \<Rightarrow> []),
      created_at = word_of_int (row_created_at r),
      expires_at = map_option word_of_int (row_expires_at r),
      dummy_to_real = []\<rparr>"

section \<open>The store\<close>

record session_store =
  conn :: "session_row list"
  sessions :: "(string, session) hashmap"
  stats :: "(string, session_stats) hashmap"

definition in_memory :: "session_lib \<Rightarrow> (session_error, session_store) result" where
  "in_memory lib =
     (case sql_fault lib OpenConnection of
        Some e \<Rightarrow> Inl (Sqlite e)
      | None \<Rightarrow>
     (case sql_fault lib ExecSchema of
        Some e \<Rightarrow> Inl (Sqlite e)
      | None \<Rightarrow> Inr \<lparr>conn = [], sessions = [], stats = []\<rparr>))"

definition store_open ::
  "session_lib \<Rightarrow> u64 \<Rightarrow> session_row list \<Rightarrow> (session_error, session_store) result" where
  "store_open lib now file =
     (case sql_fault lib OpenConnection of
        Some e \<Rightarrow> Inl (Sqlite e)
      | None \<Rightarrow>
     (case sql_fault lib ExecSchema of
        Some e \<Rightarrow> Inl (Sqlite e)
      | None \<Rightarrow>
     (case sql_fault lib PurgeExpired of
        Some e \<Rightarrow> Inl (Sqlite e)
      | None \<Rightarrow>
          (let rows = purge_expired now file in
           case sql_fault lib SelectAll of
             Some e \<Rightarrow> Inl (Sqlite e)
           | None \<Rightarrow>
               (let loaded = map (session_of_row lib) rows;
                    m = hm_collect (map (\<lambda>s. (source_ip s, s)) loaded)
                in Inr \<lparr>conn = rows, sessions = m, stats = []\<rparr>)))))"

definition store_create ::
  "session_lib \<Rightarrow> session \<Rightarrow> session_store \<Rightarrow> (session_error, unit) result \<times> session_store" where
  "store_create lib s st =
     (let exists = (sql_fault lib SelectById = None \<and> select_by_id (conn st) (session_id s)) in
      if exists then (Inl (AlreadyExists (session_id s)), st)
      else
        let ip_exists = (sql_fault lib SelectByIp = None \<and> select_by_ip (conn st) (source_ip s)) in
        if ip_exists then (Inl (AlreadyExists (source_ip s)), st)
        else
          case to_json lib (allowlist s) of
            Inl e \<Rightarrow> (Inl (Json e), st)
          | Inr allowlist_json \<Rightarrow>
              (case insert_row lib
                      \<lparr>row_session_id = session_id s, row_source_ip = source_ip s,
                       row_allowlist = allowlist_json,
                       row_created_at = sint (created_at s),
                       row_expires_at = map_option sint (expires_at s)\<rparr> (conn st) of
                 Inl e \<Rightarrow> (Inl (Sqlite e), st)
               | Inr rows \<Rightarrow>
                   (Inr (),
                    st\<lparr>conn := rows,
                       sessions := hm_insert (source_ip s) (s\<lparr>dummy_to_real := []\<rparr>) (sessions st)\<rparr>)))"

definition store_get :: "session_store \<Rightarrow> string \<Rightarrow> session option" where
  "store_get st sid = List.find (\<lambda>s. session_id s = sid) (hm_values (sessions st))"

definition store_get_by_ip :: "session_store \<Rightarrow> string \<Rightarrow> session option" where
  "store_get_by_ip st ip = hm_get (sessions st) ip"

definition store_delete ::
  "session_lib \<Rightarrow> string \<Rightarrow> session_store \<Rightarrow> (session_error, bool) result \<times> session_store" where
  "store_delete lib sid st =
     (case map_option source_ip (store_get st sid) of
        None \<Rightarrow> (Inr False, st)
      | Some ip \<Rightarrow>
          (case sql_fault lib DeleteById of
             Some e \<Rightarrow> (Inl (Sqlite e), st)
           | None \<Rightarrow>
               (Inr True,
                st\<lparr>conn := delete_rows sid (conn st),
                   sessions := hm_remove ip (sessions st),
                   stats := hm_remove sid (stats st)\<rparr>)))"

definition store_list :: "session_store \<Rightarrow> session list" where
  "store_list st = hm_values (sessions st)"

definition store_count :: "session_store \<Rightarrow> nat" where
  "store_count st = length (sessions st)"

definition bump_stats :: "string \<Rightarrow> u64 \<Rightarrow> u64 \<Rightarrow> session_stats \<Rightarrow> session_stats" where
  "bump_stats kind up down e =
     (let e1 = e\<lparr>requests_total := requests_total e + 1\<rparr>;
          e2 = (if kind = ''mitm'' then e1\<lparr>requests_mitm := requests_mitm e1 + 1\<rparr>
                else if kind = ''tunnel'' then e1\<lparr>requests_tunnel := requests_tunnel e1 + 1\<rparr>
                else if kind = ''dropped'' then e1\<lparr>requests_dropped := requests_dropped e1 + 1\<rparr>
                else e1)
      in e2\<lparr>bytes_upstream := bytes_upstream e2 + up,
            bytes_downstream := bytes_downstream e2 + down\<rparr>)"

definition record_stats ::
  "string \<Rightarrow> string \<Rightarrow> u64 \<Rightarrow> u64 \<Rightarrow> session_store \<Rightarrow> session_store" where
  "record_stats sid kind up down st =
     (let e = (case hm_get (stats st) sid of Some e \<Rightarrow> e | None \<Rightarrow> default_stats)
      in st\<lparr>stats := hm_insert sid (bump_stats kind up down e) (stats st)\<rparr>)"

definition get_stats :: "session_store \<Rightarrow> string \<Rightarrow> session_stats option" where
  "get_stats st sid = hm_get (stats st) sid"

definition set_key_map ::
  "string \<Rightarrow> (string, string) hashmap \<Rightarrow> session_store \<Rightarrow> bool \<times> session_store" where
  "set_key_map sid keys st =
     (if list_ex (\<lambda>p. session_id (snd p) = sid) (sessions st)
      then (True,
            st\<lparr>sessions := update_first (\<lambda>p. session_id (snd p) = sid)
                 (\<lambda>(ip, s). (ip, s\<lparr>dummy_to_real := keys\<rparr>)) (sessions st)\<rparr>)
      else (False, st))"


section \<open>The invariant of the store\<close>

definition forget_keys :: "session \<Rightarrow> session" where
  "forget_keys s = s\<lparr>dummy_to_real := []\<rparr>"

text \<open>What the store needs of \<open>serde_json\<close>: reading back what was written.\<close>

definition json_lawful :: "session_lib \<Rightarrow> bool" where
  "json_lawful lib \<longleftrightarrow> (\<forall>a j. to_json lib a = Inr j \<longrightarrow> from_json lib j = Some a)"

text \<open>The map is keyed by the session's IP, session ids are unique.\<close>

definition mem_ok :: "(string, session) hashmap \<Rightarrow> bool" where
  "mem_ok m \<longleftrightarrow> hm_ok m \<and> (\<forall>p\<in>set m. source_ip (snd p) = fst p)
     \<and> distinct (map session_id (hm_values m))"

text \<open>Table and map hold the same sessions, up to the keys, which are never stored.\<close>

definition synced :: "session_lib \<Rightarrow> session_store \<Rightarrow> bool" where
  "synced lib st \<longleftrightarrow>
     session_of_row lib ` set (conn st) = forget_keys ` set (hm_values (sessions st))"

definition store_inv :: "session_lib \<Rightarrow> session_store \<Rightarrow> bool" where
  "store_inv lib st \<longleftrightarrow> mem_ok (sessions st) \<and> schema_ok (conn st) \<and> synced lib st"

lemma forget_keys_simps [simp]:
  "session_id (forget_keys s) = session_id s" "source_ip (forget_keys s) = source_ip s"
  "allowlist (forget_keys s) = allowlist s" "expires_at (forget_keys s) = expires_at s"
  "created_at (forget_keys s) = created_at s" "dummy_to_real (forget_keys s) = []"
  "forget_keys (forget_keys s) = forget_keys s"
  "forget_keys (s\<lparr>dummy_to_real := m\<rparr>) = forget_keys s"
  by (simp_all add: forget_keys_def)

lemma session_of_row_simps [simp]:
  "session_id (session_of_row lib r) = row_session_id r"
  "source_ip (session_of_row lib r) = row_source_ip r"
  "dummy_to_real (session_of_row lib r) = []"
  by (simp_all add: session_of_row_def)

lemma forget_keys_eqD: "forget_keys s = t \<Longrightarrow> session_id s = session_id t \<and> source_ip s = source_ip t"
  by auto

lemma synced_ids:
  assumes "synced lib st"
  shows "row_session_id ` set (conn st) = session_id ` set (hm_values (sessions st))"
    and "row_source_ip ` set (conn st) = source_ip ` set (hm_values (sessions st))"
proof -
  from assms have "session_id ` session_of_row lib ` set (conn st)
      = session_id ` forget_keys ` set (hm_values (sessions st))"
    and "source_ip ` session_of_row lib ` set (conn st)
      = source_ip ` forget_keys ` set (hm_values (sessions st))"
    by (simp_all add: synced_def)
  then show "row_session_id ` set (conn st) = session_id ` set (hm_values (sessions st))"
    and "row_source_ip ` set (conn st) = source_ip ` set (hm_values (sessions st))"
    by (simp_all add: image_image)
qed

lemma select_by_id_iff: "select_by_id rows sid \<longleftrightarrow> sid \<in> row_session_id ` set rows"
  by (auto simp: select_by_id_def list_ex_iff)

lemma select_by_ip_iff: "select_by_ip rows ip \<longleftrightarrow> ip \<in> row_source_ip ` set rows"
  by (auto simp: select_by_ip_def list_ex_iff)

lemma mem_ok_ips: "mem_ok m \<Longrightarrow> source_ip ` set (hm_values m) = fst ` set m"
  by (force simp: mem_ok_def hm_values_def)

lemma store_get_None_iff: "store_get st sid = None \<longleftrightarrow> sid \<notin> session_id ` set (hm_values (sessions st))"
  by (auto simp: store_get_def find_None_iff')

lemma store_get_iff:
  "mem_ok (sessions st) \<Longrightarrow>
     store_get st sid = Some s \<longleftrightarrow> s \<in> set (hm_values (sessions st)) \<and> session_id s = sid"
  unfolding store_get_def mem_ok_def
  by (auto intro: find_unique dest: find_Some_in)

lemma store_get_by_ip_iff:
  "mem_ok (sessions st) \<Longrightarrow>
     store_get_by_ip st ip = Some s \<longleftrightarrow> s \<in> set (hm_values (sessions st)) \<and> source_ip s = ip"
  unfolding store_get_by_ip_def mem_ok_def
  by (force simp: hm_get_iff hm_values_def)

lemma store_get_by_ip_None_iff:
  "mem_ok (sessions st) \<Longrightarrow>
     store_get_by_ip st ip = None \<longleftrightarrow> ip \<notin> source_ip ` set (hm_values (sessions st))"
  using store_get_by_ip_iff[of st ip]
  by (cases "store_get_by_ip st ip") (auto simp: image_iff, metis)

lemma select_by_id_get:
  "store_inv lib st \<Longrightarrow> select_by_id (conn st) sid \<longleftrightarrow> store_get st sid \<noteq> None"
  using synced_ids(1)[of lib st]
  by (simp add: store_inv_def select_by_id_iff store_get_None_iff)

lemma select_by_ip_get:
  "store_inv lib st \<Longrightarrow> select_by_ip (conn st) ip \<longleftrightarrow> store_get_by_ip st ip \<noteq> None"
  using synced_ids(2)[of lib st]
  by (simp add: store_inv_def select_by_ip_iff store_get_by_ip_None_iff)

lemma mem_ok_values_distinct: "mem_ok m \<Longrightarrow> s \<in> set (hm_values m) \<Longrightarrow> t \<in> set (hm_values m)
    \<Longrightarrow> session_id s = session_id t \<Longrightarrow> s = t"
  unfolding mem_ok_def by (auto simp: distinct_map inj_on_def)

subsection \<open>Creation\<close>

definition row_of :: "session \<Rightarrow> string \<Rightarrow> session_row" where
  "row_of s j = \<lparr>row_session_id = session_id s, row_source_ip = source_ip s,
     row_allowlist = j, row_created_at = sint (created_at s),
     row_expires_at = map_option sint (expires_at s)\<rparr>"

lemma i64_ok_sint: "i64_ok (sint (w :: u64))"
  using sint_greater_eq[of w] sint_lt[of w] by (simp add: i64_ok_def)

lemma sint_of_i64: "i64_ok i \<Longrightarrow> sint (word_of_int i :: u64) = i"
  by (simp add: i64_ok_def signed_take_bit_int_eq_self sint_sbintrunc')

lemma row_of_simps [simp]:
  "row_session_id (row_of s j) = session_id s" "row_source_ip (row_of s j) = source_ip s"
  by (simp_all add: row_of_def)

lemma row_typed_row_of [simp]: "row_typed (row_of s j)"
  by (simp add: row_typed_def row_of_def i64_ok_sint split: option.splits)

lemma session_of_row_of:
  "from_json lib j = Some (allowlist s) \<Longrightarrow> session_of_row lib (row_of s j) = forget_keys s"
  by (cases s) (simp add: session_of_row_def row_of_def forget_keys_def option.map_comp
      comp_def map_option.identity)

definition inserted :: "session \<Rightarrow> string \<Rightarrow> session_store \<Rightarrow> session_store" where
  "inserted s j st = st\<lparr>conn := conn st @ [row_of s j],
     sessions := hm_insert (source_ip s) (forget_keys s) (sessions st)\<rparr>"

text \<open>Every outcome of \<open>create\<close>, for a store that satisfies the invariant.\<close>

lemma store_create_cases:
  assumes "store_inv lib st"
  shows "store_create lib s st =
    (if store_get st (session_id s) \<noteq> None \<and> sql_fault lib SelectById = None
       then (Inl (AlreadyExists (session_id s)), st)
     else if store_get_by_ip st (source_ip s) \<noteq> None \<and> sql_fault lib SelectByIp = None
       then (Inl (AlreadyExists (source_ip s)), st)
     else case to_json lib (allowlist s) of Inl e \<Rightarrow> (Inl (Json e), st)
     | Inr j \<Rightarrow>
        (case sql_fault lib InsertRow of Some e \<Rightarrow> (Inl (Sqlite e), st)
         | None \<Rightarrow>
            if store_get st (session_id s) \<noteq> None \<or> store_get_by_ip st (source_ip s) \<noteq> None
            then (Inl (Sqlite (unique_msg lib)), st)
            else (Inr (), inserted s j st)))"
  using assms
  by (auto simp: store_create_def Let_def insert_row_def row_of_def inserted_def forget_keys_def
      select_by_id_get select_by_ip_get split: sum.splits option.splits)

lemma store_create_err: "fst (store_create lib s st) = Inl e \<Longrightarrow> snd (store_create lib s st) = st"
  by (auto simp: store_create_def Let_def split: sum.splits option.splits if_splits)

lemma store_create_okD:
  assumes "store_inv lib st" and "store_create lib s st = (Inr (), st')"
  obtains j where "to_json lib (allowlist s) = Inr j" and "st' = inserted s j st"
    and "store_get st (session_id s) = None" and "store_get_by_ip st (source_ip s) = None"
  using assms(2) unfolding store_create_cases[OF assms(1)]
  by (auto split: if_splits sum.splits option.splits)

lemma inserted_sessions:
  assumes "mem_ok (sessions st)" and "store_get_by_ip st (source_ip s) = None"
  shows "sessions (inserted s j st) = sessions st @ [(source_ip s, forget_keys s)]"
  using assms by (simp add: inserted_def hm_insert_fresh store_get_by_ip_def)

lemma store_inv_inserted:
  assumes inv: "store_inv lib st" and js: "from_json lib j = Some (allowlist s)"
    and id: "store_get st (session_id s) = None" and ip: "store_get_by_ip st (source_ip s) = None"
  shows "store_inv lib (inserted s j st)"
proof -
  from inv have mem: "mem_ok (sessions st)" by (simp add: store_inv_def)
  note ses = inserted_sessions[OF mem ip, of j]
  have fresh: "session_id s \<notin> session_id ` set (hm_values (sessions st))"
      "source_ip s \<notin> fst ` set (sessions st)"
    using id ip mem by (simp_all add: store_get_None_iff store_get_by_ip_None_iff mem_ok_ips)
  have 1: "mem_ok (sessions (inserted s j st))"
    using mem fresh unfolding ses by (auto simp: mem_ok_def hm_ok_def hm_values_def)
  have 2: "schema_ok (conn (inserted s j st))"
    using inv id ip select_by_id_get[OF inv] select_by_ip_get[OF inv]
    by (simp add: store_inv_def schema_ok_def inserted_def row_of_def[symmetric]
        select_by_id_iff select_by_ip_iff)
  have 3: "synced lib (inserted s j st)"
    using inv session_of_row_of[OF js] unfolding synced_def ses
    by (simp add: store_inv_def synced_def inserted_def hm_values_def)
  from 1 2 3 show ?thesis by (simp add: store_inv_def)
qed

lemma store_inv_create:
  assumes "json_lawful lib" and "store_inv lib st"
  shows "store_inv lib (snd (store_create lib s st))"
proof (cases "store_create lib s st")
  case (Pair r st')
  show ?thesis
  proof (cases r)
    case (Inl e)
    with Pair store_create_err[of lib s st e] assms(2) show ?thesis by simp
  next
    case (Inr u)
    with Pair have "store_create lib s st = (Inr (), st')" by simp
    from store_create_okD[OF assms(2) this] obtain j where
      "to_json lib (allowlist s) = Inr j" "st' = inserted s j st"
      "store_get st (session_id s) = None" "store_get_by_ip st (source_ip s) = None" .
    with assms Pair show ?thesis by (simp add: store_inv_inserted json_lawful_def)
  qed
qed

lemma store_get_inserted:
  assumes inv: "store_inv lib st" and "store_get st (session_id s) = None"
    and ip: "store_get_by_ip st (source_ip s) = None"
  shows "store_get (inserted s j st) = (store_get st)(session_id s \<mapsto> forget_keys s)"
proof
  fix sid
  from inv have mem: "mem_ok (sessions st)" by (simp add: store_inv_def)
  have "hm_values (sessions (inserted s j st)) = hm_values (sessions st) @ [forget_keys s]"
    by (simp add: inserted_sessions[OF mem ip] hm_values_def)
  with assms(2) show "store_get (inserted s j st) sid
      = ((store_get st)(session_id s \<mapsto> forget_keys s)) sid"
    by (auto simp: store_get_def find_append split: option.splits)
qed


subsection \<open>Deletion\<close>

definition deleted :: "session \<Rightarrow> session_store \<Rightarrow> session_store" where
  "deleted s st = st\<lparr>conn := delete_rows (session_id s) (conn st),
     sessions := hm_remove (source_ip s) (sessions st),
     stats := hm_remove (session_id s) (stats st)\<rparr>"

lemma store_delete_cases:
  assumes "mem_ok (sessions st)"
  shows "store_delete lib sid st =
    (case store_get st sid of
       None \<Rightarrow> (Inr False, st)
     | Some s \<Rightarrow> (case sql_fault lib DeleteById of
         Some e \<Rightarrow> (Inl (Sqlite e), st)
       | None \<Rightarrow> (Inr True, deleted s st)))"
proof (cases "store_get st sid")
  case (Some s)
  with assms have "session_id s = sid" by (simp add: store_get_iff)
  with Some show ?thesis by (simp add: store_delete_def deleted_def split: option.splits)
qed (simp add: store_delete_def)

lemma store_delete_err: "fst (store_delete lib sid st) = Inl e \<Longrightarrow> snd (store_delete lib sid st) = st"
  by (auto simp: store_delete_def split: option.splits)

lemma hm_values_remove:
  assumes "mem_ok m" and "s \<in> set (hm_values m)"
  shows "hm_values (hm_remove (source_ip s) m) = filter (\<lambda>t. session_id t \<noteq> session_id s) (hm_values m)"
proof -
  have "fst p \<noteq> source_ip s \<longleftrightarrow> session_id (snd p) \<noteq> session_id s" if "p \<in> set m" for p
  proof -
    from that have p: "snd p \<in> set (hm_values m)" by (simp add: hm_values_def)
    from assms(1) that have ip: "source_ip (snd p) = fst p" by (simp add: mem_ok_def)
    from assms(2) obtain q where q: "q \<in> set m" "snd q = s" by (auto simp: hm_values_def)
    with assms(1) have "source_ip s = fst q" by (auto simp: mem_ok_def)
    show ?thesis
    proof
      assume "fst p \<noteq> source_ip s"
      with ip show "session_id (snd p) \<noteq> session_id s"
        using mem_ok_values_distinct[OF assms(1) p assms(2)] by auto
    next
      assume "session_id (snd p) \<noteq> session_id s"
      then have "p \<noteq> q" using q by auto
      with assms(1) that q(1) \<open>source_ip s = fst q\<close> show "fst p \<noteq> source_ip s"
        by (auto simp: mem_ok_def hm_ok_def distinct_map inj_on_def)
    qed
  qed
  then have "filter (\<lambda>p. fst p \<noteq> source_ip s) m
      = filter (\<lambda>p. session_id (snd p) \<noteq> session_id s) m"
    by (auto intro: filter_cong)
  then show ?thesis by (simp add: hm_values_def hm_remove_filter filter_map comp_def)
qed

lemma mem_ok_remove: "mem_ok m \<Longrightarrow> mem_ok (hm_remove k m)"
  unfolding mem_ok_def
  by (auto simp: hm_ok_remove set_hm_remove hm_values_def)
    (simp add: hm_remove_filter distinct_map inj_on_def)

lemma store_inv_deleted:
  assumes inv: "store_inv lib st" and s: "store_get st sid = Some s"
  shows "store_inv lib (deleted s st)"
proof -
  from inv have mem: "mem_ok (sessions st)" by (simp add: store_inv_def)
  from s mem have s': "s \<in> set (hm_values (sessions st))" by (simp add: store_get_iff)
  have schema: "schema_ok (conn (deleted s st))"
    using inv by (auto simp: store_inv_def schema_ok_def deleted_def delete_rows_def
        distinct_map_filter list_all_iff)
  have "session_of_row lib ` set (conn (deleted s st))
      = {t \<in> session_of_row lib ` set (conn st). session_id t \<noteq> session_id s}"
    by (auto simp: deleted_def delete_rows_def)
  also have "\<dots> = {t \<in> forget_keys ` set (hm_values (sessions st)). session_id t \<noteq> session_id s}"
    using inv by (simp add: store_inv_def synced_def)
  also have "\<dots> = forget_keys ` set (hm_values (sessions (deleted s st)))"
    by (auto simp: deleted_def hm_values_remove[OF mem s'])
  finally have "synced lib (deleted s st)" by (simp add: synced_def)
  with schema mem show ?thesis by (simp add: store_inv_def deleted_def mem_ok_remove)
qed

lemma store_inv_delete: "store_inv lib st \<Longrightarrow> store_inv lib (snd (store_delete lib sid st))"
  using store_delete_cases[of st lib sid] store_inv_deleted[of lib st sid]
  by (auto simp: store_inv_def split: option.splits)

lemma store_get_deleted:
  assumes "mem_ok (sessions st)" and "store_get st sid = Some s"
  shows "store_get (deleted s st) = (store_get st)(sid := None)"
proof
  fix sid'
  from assms have s: "s \<in> set (hm_values (sessions st))" "session_id s = sid"
    by (simp_all add: store_get_iff)
  have find: "List.find (\<lambda>t. session_id t = sid') (filter (\<lambda>t. session_id t \<noteq> sid) xs)
      = (if sid' = sid then None else List.find (\<lambda>t. session_id t = sid') xs)" for xs
    by (induction xs) auto
  show "store_get (deleted s st) sid' = ((store_get st)(sid := None)) sid'"
    using s(2) by (simp add: store_get_def deleted_def hm_values_remove[OF assms(1) s(1)] find)
qed

subsection \<open>The key map\<close>

lemma set_key_map_found:
  "mem_ok (sessions st) \<Longrightarrow>
     fst (set_key_map sid keys st) = (store_get st sid \<noteq> None)"
  by (force simp: set_key_map_def store_get_None_iff hm_values_def list_ex_iff image_iff)

lemma set_key_map_sessions:
  assumes "mem_ok (sessions st)"
  shows "sessions (snd (set_key_map sid keys st)) =
    map (\<lambda>(ip, s). (ip, if session_id s = sid then s\<lparr>dummy_to_real := keys\<rparr> else s)) (sessions st)"
proof -
  have "update_first (\<lambda>p. session_id (snd p) = sid)
      (\<lambda>(ip, s). (ip, s\<lparr>dummy_to_real := keys\<rparr>)) (sessions st)
    = map (\<lambda>p. if session_id (snd p) = sid then (\<lambda>(ip, s). (ip, s\<lparr>dummy_to_real := keys\<rparr>)) p else p)
        (sessions st)"
    by (rule update_first_unique[where g = "\<lambda>p. session_id (snd p)" and k = sid])
      (use assms in \<open>simp_all add: mem_ok_def hm_values_def comp_def\<close>)
  also have "\<dots> = map (\<lambda>(ip, s). (ip, if session_id s = sid then s\<lparr>dummy_to_real := keys\<rparr> else s))
      (sessions st)"
    by (auto intro: map_cong)
  finally have upd: "update_first (\<lambda>p. session_id (snd p) = sid)
      (\<lambda>(ip, s). (ip, s\<lparr>dummy_to_real := keys\<rparr>)) (sessions st) = \<dots>" .
  have "map (\<lambda>(ip, s). (ip, if session_id s = sid then s\<lparr>dummy_to_real := keys\<rparr> else s)) (sessions st)
      = sessions st" if "\<not> list_ex (\<lambda>p. session_id (snd p) = sid) (sessions st)"
    by (rule map_idI) (use that in \<open>auto simp: list_ex_iff\<close>)
  with upd show ?thesis by (simp add: set_key_map_def)
qed

lemma hm_values_set_key_map:
  "mem_ok (sessions st) \<Longrightarrow> hm_values (sessions (snd (set_key_map sid keys st))) =
    map (\<lambda>s. if session_id s = sid then s\<lparr>dummy_to_real := keys\<rparr> else s) (hm_values (sessions st))"
  by (simp add: set_key_map_sessions hm_values_def comp_def case_prod_unfold)

lemma set_key_map_conn [simp]: "conn (snd (set_key_map sid keys st)) = conn st"
  by (simp add: set_key_map_def)

lemma store_inv_set_key_map:
  assumes "store_inv lib st"
  shows "store_inv lib (snd (set_key_map sid keys st))"
proof -
  from assms have mem: "mem_ok (sessions st)" by (simp add: store_inv_def)
  let ?f = "\<lambda>s. if session_id s = sid then s\<lparr>dummy_to_real := keys\<rparr> else s"
  have fk: "forget_keys (?f s) = forget_keys s" for s by simp
  have same: "session_id (?f s) = session_id s" "source_ip (?f s) = source_ip s" for s by simp_all
  have "mem_ok (sessions (snd (set_key_map sid keys st)))"
    using mem unfolding mem_ok_def set_key_map_sessions[OF mem]
    by (simp add: same hm_ok_def hm_values_def comp_def case_prod_unfold del: if_split)
  moreover have "forget_keys ` ?f ` A = forget_keys ` A" for A
    unfolding image_image fk ..
  ultimately show ?thesis
    using assms unfolding store_inv_def synced_def hm_values_set_key_map[OF mem] list.set_map
    by simp
qed

lemma store_get_set_key_map:
  assumes "mem_ok (sessions st)"
  shows "store_get (snd (set_key_map sid keys st)) =
    (store_get st)(sid := map_option (\<lambda>s. s\<lparr>dummy_to_real := keys\<rparr>) (store_get st sid))"
proof
  fix sid'
  have find: "List.find (\<lambda>s. session_id s = sid')
      (map (\<lambda>s. if session_id s = sid then s\<lparr>dummy_to_real := keys\<rparr> else s) xs)
    = ((\<lambda>i. List.find (\<lambda>s. session_id s = i) xs)
        (sid := map_option (\<lambda>s. s\<lparr>dummy_to_real := keys\<rparr>) (List.find (\<lambda>s. session_id s = sid) xs))) sid'"
    for xs by (induction xs) auto
  show "store_get (snd (set_key_map sid keys st)) sid' =
    ((store_get st)(sid := map_option (\<lambda>s. s\<lparr>dummy_to_real := keys\<rparr>) (store_get st sid))) sid'"
    unfolding store_get_def hm_values_set_key_map[OF assms] by (rule find)
qed

subsection \<open>Statistics\<close>

lemma store_inv_record_stats: "store_inv lib st \<Longrightarrow> store_inv lib (record_stats sid kind up down st)"
  by (simp add: store_inv_def synced_def record_stats_def Let_def)

subsection \<open>Opening the database\<close>

lemma schema_ok_purge: "schema_ok rows \<Longrightarrow> schema_ok (purge_expired now rows)"
  by (simp add: schema_ok_def purge_expired_def distinct_map_filter list_all_iff)

lemma hm_collect_distinct:
  "distinct (map fst ps) \<Longrightarrow> hm_collect ps = ps"
proof (induction ps rule: rev_induct)
  case Nil
  show ?case by (simp add: hm_collect_def)
next
  case (snoc p ps)
  then have "hm_collect ps = ps" and "fst p \<notin> fst ` set ps" by auto
  then show ?case
    by (cases p) (simp add: hm_collect_append hm_insert_fresh hm_get_def map_of_eq_None_iff)
qed

lemma store_open_okD:
  assumes "store_open lib now file = Inr st" and "schema_ok file"
  shows "conn st = purge_expired now file"
    and "hm_values (sessions st) = map (session_of_row lib) (purge_expired now file)"
    and "stats st = []" and "store_inv lib st"
proof -
  let ?rows = "purge_expired now file"
  let ?ps = "map (\<lambda>s. (source_ip s, s)) (map (session_of_row lib) ?rows)"
  from assms(1) have st: "st = \<lparr>conn = ?rows, sessions = hm_collect ?ps, stats = []\<rparr>"
    by (auto simp: store_open_def Let_def split: option.splits)
  have sch: "schema_ok ?rows" by (rule schema_ok_purge) (rule assms(2))
  then have "distinct (map fst ?ps)" by (simp add: schema_ok_def comp_def)
  then have "hm_collect ?ps = ?ps" by (rule hm_collect_distinct)
  then have ses: "sessions st = ?ps" unfolding st by simp
  show "conn st = ?rows" "stats st = []" by (simp_all add: st)
  show vals: "hm_values (sessions st) = map (session_of_row lib) ?rows"
    unfolding ses by (simp add: hm_values_def comp_def)
  have "mem_ok (sessions st)"
    using sch unfolding ses by (auto simp: mem_ok_def hm_ok_def schema_ok_def hm_values_def comp_def)
  moreover have "synced lib st"
    unfolding synced_def vals by (simp add: st image_image) (simp add: forget_keys_def session_of_row_def)
  ultimately show "store_inv lib st" using sch by (simp add: store_inv_def st)
qed

lemma store_inv_in_memory: "in_memory lib = Inr st \<Longrightarrow> store_inv lib st"
  by (auto simp: in_memory_def store_inv_def mem_ok_def schema_ok_def synced_def hm_values_def
      split: option.splits)


section \<open>The registry interface\<close>

text \<open>
  What the rest of the proxy relies on: a map from session ids to sessions with a view by
  source IP, changed by three operations. Failed operations change nothing.
\<close>

locale session_registry =
  fixes inv :: "'st \<Rightarrow> bool"
    and get :: "'st \<Rightarrow> string \<Rightarrow> session option"
    and get_by_ip :: "'st \<Rightarrow> string \<Rightarrow> session option"
    and create :: "session \<Rightarrow> 'st \<Rightarrow> (session_error, unit) result \<times> 'st"
    and delete :: "string \<Rightarrow> 'st \<Rightarrow> (session_error, bool) result \<times> 'st"
    and set_keys :: "string \<Rightarrow> (string, string) hashmap \<Rightarrow> 'st \<Rightarrow> bool \<times> 'st"
  assumes get_id: "inv st \<Longrightarrow> get st sid = Some s \<Longrightarrow> session_id s = sid"
    and by_ip_iff: "inv st \<Longrightarrow>
      get_by_ip st ip = Some s \<longleftrightarrow> source_ip s = ip \<and> get st (session_id s) = Some s"
    and create_inv: "inv st \<Longrightarrow> inv (snd (create s st))"
    and create_ok: "inv st \<Longrightarrow> create s st = (Inr (), st') \<Longrightarrow>
      get st' = (get st)(session_id s \<mapsto> forget_keys s)
      \<and> get st (session_id s) = None \<and> get_by_ip st (source_ip s) = None"
    and create_err: "create s st = (Inl e, st') \<Longrightarrow> st' = st"
    and delete_inv: "inv st \<Longrightarrow> inv (snd (delete sid st))"
    and delete_ok: "inv st \<Longrightarrow> delete sid st = (Inr b, st') \<Longrightarrow>
      get st' = (get st)(sid := None) \<and> (b \<longleftrightarrow> get st sid \<noteq> None)"
    and delete_err: "delete sid st = (Inl e, st') \<Longrightarrow> st' = st"
    and set_keys_inv: "inv st \<Longrightarrow> inv (snd (set_keys sid keys st))"
    and set_keys_get: "inv st \<Longrightarrow> set_keys sid keys st = (b, st') \<Longrightarrow>
      get st' = (get st)(sid := map_option (\<lambda>s. s\<lparr>dummy_to_real := keys\<rparr>) (get st sid))
      \<and> (b \<longleftrightarrow> get st sid \<noteq> None)"
begin

lemma inv_create: "inv st \<Longrightarrow> create s st = (r, st') \<Longrightarrow> inv st'"
  using create_inv[of st s] by simp

lemma inv_delete: "inv st \<Longrightarrow> delete sid st = (r, st') \<Longrightarrow> inv st'"
  using delete_inv[of st sid] by simp

lemma inv_set_keys: "inv st \<Longrightarrow> set_keys sid keys st = (b, st') \<Longrightarrow> inv st'"
  using set_keys_inv[of st sid keys] by simp

lemma by_ip_unique:
  "inv st \<Longrightarrow> get st i = Some s \<Longrightarrow> get st j = Some t \<Longrightarrow> source_ip s = source_ip t \<Longrightarrow> s = t"
  using get_id[of st] by_ip_iff[of st "source_ip s"] by (metis option.inject)

lemma by_ip_eqI:
  assumes "inv st" and "inv st'"
    and "\<And>s. source_ip s = ip \<Longrightarrow> get st (session_id s) = Some s \<longleftrightarrow> get st' (session_id s) = Some s"
  shows "get_by_ip st ip = get_by_ip st' ip"
proof -
  have "get_by_ip st ip = Some s \<longleftrightarrow> get_by_ip st' ip = Some s" for s
    using assms by_ip_iff by blast
  then show ?thesis by (metis not_Some_eq)
qed

lemma by_ip_create:
  assumes "inv st" and "create s st = (Inr (), st')"
  shows "get_by_ip st' = (get_by_ip st)(source_ip s \<mapsto> forget_keys s)"
proof
  fix ip
  from assms have inv': "inv st'" by (rule inv_create)
  from create_ok[OF assms] have get: "get st' = (get st)(session_id s \<mapsto> forget_keys s)"
    and fresh: "get st (session_id s) = None" by auto
  show "get_by_ip st' ip = ((get_by_ip st)(source_ip s \<mapsto> forget_keys s)) ip"
  proof (cases "ip = source_ip s")
    case True
    have "get_by_ip st' (source_ip s) = Some (forget_keys s)"
      using by_ip_iff[OF inv'] by (simp add: get)
    with True show ?thesis by simp
  next
    case False
    then have "get_by_ip st' ip = get_by_ip st ip"
      using fresh by (intro by_ip_eqI[OF inv' assms(1)]) (auto simp: get)
    with False show ?thesis by simp
  qed
qed

lemma by_ip_delete:
  assumes "inv st" and "delete sid st = (Inr b, st')"
  shows "get_by_ip st' ip =
    (case get_by_ip st ip of None \<Rightarrow> None
     | Some s \<Rightarrow> if session_id s = sid then None else Some s)"
proof -
  from assms have inv': "inv st'" by (rule inv_delete)
  from delete_ok[OF assms] have get: "get st' = (get st)(sid := None)" by simp
  have new: "get_by_ip st' ip = Some s \<longleftrightarrow> get_by_ip st ip = Some s \<and> session_id s \<noteq> sid" for s
    unfolding by_ip_iff[OF inv'] by_ip_iff[OF assms(1)] get by simp
  show ?thesis
  proof (cases "get_by_ip st ip")
    case None
    with new have "get_by_ip st' ip \<noteq> Some s" for s by simp
    then have "get_by_ip st' ip = None" by (metis not_None_eq)
    with None show ?thesis by simp
  next
    case (Some s)
    show ?thesis
    proof (cases "session_id s = sid")
      case True
      with Some new have "get_by_ip st' ip \<noteq> Some t" for t by auto
      then have "get_by_ip st' ip = None" by (metis not_None_eq)
      with Some True show ?thesis by simp
    next
      case False
      with Some new[of s] show ?thesis by simp
    qed
  qed
qed

lemma by_ip_set_keys:
  assumes "inv st" and "set_keys sid keys st = (b, st')"
  shows "get_by_ip st' ip =
    map_option (\<lambda>s. if session_id s = sid then s\<lparr>dummy_to_real := keys\<rparr> else s) (get_by_ip st ip)"
proof -
  from assms have inv': "inv st'" by (rule inv_set_keys)
  let ?f = "\<lambda>s. if session_id s = sid then s\<lparr>dummy_to_real := keys\<rparr> else s"
  from set_keys_get[OF assms]
  have get: "get st' = (get st)(sid := map_option (\<lambda>s. s\<lparr>dummy_to_real := keys\<rparr>) (get st sid))"
    by simp
  show ?thesis
  proof (cases "get_by_ip st ip")
    case (Some s)
    then have s: "source_ip s = ip" "get st (session_id s) = Some s"
      using by_ip_iff[OF assms(1)] by auto
    then have "get_by_ip st' ip = Some (?f s)"
      using by_ip_iff[OF inv', of ip "?f s"] by (auto simp: get)
    with Some show ?thesis by simp
  next
    case None
    have "get_by_ip st' ip \<noteq> Some t" for t
    proof
      assume "get_by_ip st' ip = Some t"
      then have t: "source_ip t = ip" "get st' (session_id t) = Some t"
        using by_ip_iff[OF inv'] by auto
      then obtain u where u: "get st (session_id t) = Some u" "source_ip u = ip"
        unfolding get by (auto split: if_splits)
      with get_id[OF assms(1) u(1)] have "get_by_ip st ip = Some u"
        using by_ip_iff[OF assms(1)] by simp
      with None show False by simp
    qed
    with None show ?thesis by (cases "get_by_ip st' ip") auto
  qed
qed

end

definition registry_inv :: "session_lib \<Rightarrow> session_store \<Rightarrow> bool" where
  "registry_inv lib st \<longleftrightarrow> json_lawful lib \<and> store_inv lib st"

lemma registry_inv_mem: "registry_inv lib st \<Longrightarrow> mem_ok (sessions st)"
  by (simp add: registry_inv_def store_inv_def)

lemma store_create_registry:
  assumes "registry_inv lib st" and "store_create lib s st = (Inr (), st')"
  shows "store_get st' = (store_get st)(session_id s \<mapsto> forget_keys s)
    \<and> store_get st (session_id s) = None \<and> store_get_by_ip st (source_ip s) = None"
proof -
  from assms(1) have inv: "store_inv lib st" by (simp add: registry_inv_def)
  from store_create_okD[OF inv assms(2)] obtain j where
    "st' = inserted s j st" "store_get st (session_id s) = None"
    "store_get_by_ip st (source_ip s) = None" .
  with store_get_inserted[OF inv] show ?thesis by simp
qed

lemma store_delete_registry:
  assumes "registry_inv lib st" and "store_delete lib sid st = (Inr b, st')"
  shows "store_get st' = (store_get st)(sid := None) \<and> (b \<longleftrightarrow> store_get st sid \<noteq> None)"
proof -
  from assms(1) have mem: "mem_ok (sessions st)" by (rule registry_inv_mem)
  from assms(2) store_get_deleted[OF mem] show ?thesis
    by (auto simp: store_delete_cases[OF mem] fun_upd_idem split: option.splits)
qed

interpretation reg: session_registry "registry_inv lib" store_get store_get_by_ip
    "store_create lib" "store_delete lib" set_key_map for lib
proof (unfold_locales, goal_cases)
  case (1 st sid s)
  then show ?case by (auto dest!: registry_inv_mem simp: store_get_iff)
next
  case (2 st ip s)
  then show ?case
    by (auto dest!: registry_inv_mem simp: store_get_iff store_get_by_ip_iff)
next
  case (3 st s)
  then show ?case by (simp add: registry_inv_def store_inv_create)
next
  case (4 st s st')
  then show ?case by (rule store_create_registry)
next
  case (5 s st e st')
  then show ?case using store_create_err[of lib s st e] by simp
next
  case (6 st sid)
  then show ?case by (simp add: registry_inv_def store_inv_delete)
next
  case (7 st sid b st')
  then show ?case by (rule store_delete_registry)
next
  case (8 sid st e st')
  then show ?case using store_delete_err[of lib sid st e] by simp
next
  case (9 st sid keys)
  then show ?case by (simp add: registry_inv_def store_inv_set_key_map)
next
  case (10 st sid keys b st')
  then have mem: "mem_ok (sessions st)" by (simp add: registry_inv_mem)
  from 10(2) store_get_set_key_map[OF mem, of sid keys] set_key_map_found[OF mem, of sid keys]
  show ?case by simp
qed

section \<open>Runs of operations\<close>

text \<open>The store's methods, as one step of a run; a run starts at \<open>open\<close> or
  \<open>in_memory\<close>. The mutex around each method makes every run a sequence.\<close>

datatype store_op =
    OpCreate session
  | OpDelete string
  | OpSetKeys string "(string, string) hashmap"
  | OpStats string string u64 u64

fun store_step :: "session_lib \<Rightarrow> store_op \<Rightarrow> session_store \<Rightarrow> session_store" where
  "store_step lib (OpCreate s) st = snd (store_create lib s st)"
| "store_step lib (OpDelete sid) st = snd (store_delete lib sid st)"
| "store_step lib (OpSetKeys sid keys) st = snd (set_key_map sid keys st)"
| "store_step lib (OpStats sid kind up down) st = record_stats sid kind up down st"

definition store_run :: "session_lib \<Rightarrow> store_op list \<Rightarrow> session_store \<Rightarrow> session_store" where
  "store_run lib ops st = fold (store_step lib) ops st"

lemma store_inv_step: "json_lawful lib \<Longrightarrow> store_inv lib st \<Longrightarrow> store_inv lib (store_step lib op st)"
  by (cases op) (simp_all add: store_inv_create store_inv_delete store_inv_set_key_map
      store_inv_record_stats)

lemma store_inv_run: "json_lawful lib \<Longrightarrow> store_inv lib st \<Longrightarrow> store_inv lib (store_run lib ops st)"
  by (induction ops arbitrary: st) (simp_all add: store_run_def store_inv_step)

section \<open>Restart\<close>

lemma store_get_open:
  assumes "store_open lib now file = Inr st" and "schema_ok file"
  shows "store_get st sid = Some t \<longleftrightarrow>
    (\<exists>r\<in>set file. \<not> row_expired now r \<and> row_session_id r = sid \<and> t = session_of_row lib r)"
proof -
  note o = store_open_okD[OF assms]
  from o(4) have "mem_ok (sessions st)" by (simp add: store_inv_def)
  then show ?thesis
    by (auto simp: store_get_iff o(2) purge_expired_def)
qed

text \<open>A session is expired when its deadline, read as a signed number, is past.\<close>

definition session_expired :: "u64 \<Rightarrow> session \<Rightarrow> bool" where
  "session_expired now s = (case expires_at s of None \<Rightarrow> False | Some e \<Rightarrow> sint e < sint now)"

lemma session_expired_forget [simp]: "session_expired now (forget_keys s) = session_expired now s"
  by (simp add: session_expired_def)

lemma row_expired_session:
  "row_typed r \<Longrightarrow> row_expired now r \<longleftrightarrow> session_expired now (session_of_row lib r)"
  by (simp add: row_typed_def row_expired_def session_expired_def session_of_row_def sint_of_i64
      split: option.splits)

lemma restart_get:
  assumes inv: "store_inv lib st" and op: "store_open lib now (conn st) = Inr st'"
  shows "store_get st' sid = (case store_get st sid of None \<Rightarrow> None
    | Some s \<Rightarrow> if session_expired now s then None else Some (forget_keys s))"
proof -
  from inv have sch: "schema_ok (conn st)" and mem: "mem_ok (sessions st)"
    and sync: "session_of_row lib ` set (conn st) = forget_keys ` set (hm_values (sessions st))"
    by (simp_all add: store_inv_def synced_def)
  have iff: "store_get st' sid = Some t \<longleftrightarrow>
      (\<exists>s. store_get st sid = Some s \<and> \<not> session_expired now s \<and> t = forget_keys s)" for t
  proof -
    have "store_get st' sid = Some t \<longleftrightarrow>
        t \<in> session_of_row lib ` set (conn st) \<and> session_id t = sid \<and> \<not> session_expired now t"
      using sch by (auto simp: store_get_open[OF op sch] schema_ok_def list_all_iff
          row_expired_session[where lib = lib])
    also have "\<dots> \<longleftrightarrow> (\<exists>s. store_get st sid = Some s \<and> \<not> session_expired now s \<and> t = forget_keys s)"
      unfolding sync store_get_iff[OF mem] by auto
    finally show ?thesis .
  qed
  show ?thesis
  proof (cases "store_get st' sid")
    case None
    with iff have "\<not> (\<exists>s. store_get st sid = Some s \<and> \<not> session_expired now s)" by fastforce
    with None show ?thesis by (auto split: option.splits)
  next
    case (Some t)
    from Some iff[of t] obtain s where "store_get st sid = Some s"
      "\<not> session_expired now s" "t = forget_keys s" by auto
    with Some show ?thesis by simp
  qed
qed

section \<open>A store to evaluate on\<close>

definition demo_allow :: "allowlist_entry list" where
  "demo_allow = [\<lparr>domain = ''api.openai.com'', mode = ''mitm'', credential_ref = Some ''openai''\<rparr>]"

definition demo_lib :: session_lib where
  "demo_lib = \<lparr>sql_fault = (\<lambda>_. None), unique_msg = ''UNIQUE constraint failed'',
     to_json = (\<lambda>a. if a = demo_allow then Inr ''[entry]'' else Inl ''unsupported''),
     from_json = (\<lambda>j. if j = ''[entry]'' then Some demo_allow else None)\<rparr>"

definition demo_session :: session where
  "demo_session = \<lparr>session_id = ''s1'', source_ip = ''172.16.1.2'', allowlist = demo_allow,
     created_at = 1000, expires_at = Some 2000, dummy_to_real = []\<rparr>"

definition demo_empty :: session_store where
  "demo_empty = \<lparr>conn = [], sessions = [], stats = []\<rparr>"

definition demo_store :: session_store where
  "demo_store = inserted demo_session ''[entry]'' demo_empty"

lemma demo_lawful: "json_lawful demo_lib"
  by (simp add: json_lawful_def demo_lib_def)

lemma demo_empty_inv: "store_inv demo_lib demo_empty"
  by (simp add: store_inv_def demo_empty_def mem_ok_def schema_ok_def synced_def hm_values_def)

lemma demo_empty_open: "store_open demo_lib 1000 [] = Inr demo_empty"
  by (simp add: store_open_def demo_lib_def demo_empty_def purge_expired_def hm_collect_def)

lemma demo_create: "store_create demo_lib demo_session demo_empty = (Inr (), demo_store)"
  by (simp add: store_create_def demo_lib_def demo_session_def demo_empty_def demo_store_def
      inserted_def row_of_def forget_keys_def select_by_id_def select_by_ip_def insert_row_def)

lemma demo_store_inv: "store_inv demo_lib demo_store"
  using store_inv_create[OF demo_lawful demo_empty_inv, of demo_session]
  by (simp add: demo_create)

lemma demo_registry: "registry_inv demo_lib demo_store" "registry_inv demo_lib demo_empty"
  by (simp_all add: registry_inv_def demo_lawful demo_store_inv demo_empty_inv)

section \<open>Properties\<close>



text \<open>
  Creating a session succeeds exactly when its id and its source IP are free, its
  allowlist can be serialised and the insert does not fault; it then adds that session,
  without keys, to the lookups by id and by IP and changes no other lookup. Every error
  leaves the store as it was.
\<close>

theorem create_session_in_store:
  assumes "registry_inv lib st" and "store_create lib s st = (r, st')"
  shows "(r = Inr () \<longleftrightarrow> store_get st (session_id s) = None \<and> store_get_by_ip st (source_ip s) = None
            \<and> (\<exists>j. to_json lib (allowlist s) = Inr j) \<and> sql_fault lib InsertRow = None)
    \<and> (if r = Inr ()
       then store_get st' = (store_get st)(session_id s \<mapsto> forget_keys s)
          \<and> store_get_by_ip st' = (store_get_by_ip st)(source_ip s \<mapsto> forget_keys s)
       else st' = st)"
proof -
  from assms(1) have inv: "store_inv lib st" by (simp add: registry_inv_def)
  have "r = Inr () \<longleftrightarrow> store_get st (session_id s) = None \<and> store_get_by_ip st (source_ip s) = None
            \<and> (\<exists>j. to_json lib (allowlist s) = Inr j) \<and> sql_fault lib InsertRow = None"
    using assms(2) unfolding store_create_cases[OF inv]
    by (auto split: if_splits sum.splits option.splits)
  moreover have "store_get st' = (store_get st)(session_id s \<mapsto> forget_keys s)
      \<and> store_get_by_ip st' = (store_get_by_ip st)(source_ip s \<mapsto> forget_keys s)" if "r = Inr ()"
    using that assms reg.create_ok[OF assms(1)] reg.by_ip_create[OF assms(1)] by auto
  moreover have "st' = st" if "r \<noteq> Inr ()"
    using that assms(2) reg.create_err by (cases r) auto
  ultimately show ?thesis by simp
qed

theorem create_session_in_store_witness:
  "store_get demo_store ''s1'' = Some demo_session"
proof -
  have "store_get demo_store = (store_get demo_empty)(session_id demo_session \<mapsto> forget_keys demo_session)"
    using create_session_in_store[OF demo_registry(2) demo_create] by simp
  then show ?thesis by (simp add: demo_session_def forget_keys_def)
qed

text \<open>
  Deleting a session removes it from both lookups and touches no other session; the
  answer says whether it was there. A database error changes nothing.
\<close>

theorem delete_session_in_store:
  assumes "registry_inv lib st" and "store_delete lib sid st = (r, st')"
  shows "(case r of
      Inl e \<Rightarrow> st' = st \<and> store_get st sid \<noteq> None \<and> e = Sqlite (the (sql_fault lib DeleteById))
    | Inr b \<Rightarrow> (b \<longleftrightarrow> store_get st sid \<noteq> None)
        \<and> store_get st' = (store_get st)(sid := None)
        \<and> (\<forall>ip. store_get_by_ip st' ip = (case store_get_by_ip st ip of None \<Rightarrow> None
             | Some s \<Rightarrow> if session_id s = sid then None else Some s)))"
proof (cases r)
  case (Inl e)
  with assms(2) reg.delete_err have "st' = st" by simp
  with Inl assms(2) show ?thesis
    unfolding store_delete_cases[OF registry_inv_mem[OF assms(1)]]
    by (auto split: option.splits)
next
  case (Inr b)
  with assms reg.delete_ok[OF assms(1)] reg.by_ip_delete[OF assms(1)] show ?thesis by simp
qed

theorem delete_session_in_store_witness:
  "store_get (snd (store_delete demo_lib ''s1'' demo_store)) ''s1'' = None"
  using delete_session_in_store[OF demo_registry(1) prod.collapse[symmetric], of "''s1''"]
  by (simp add: store_delete_def demo_lib_def split: option.splits)

text \<open>
  C16. Restart: opening the database a store has written gives, for every id, the session
  the store had, without its keys, unless its deadline is past.
\<close>

theorem restart_recovers_sessions:
  assumes "store_inv lib st" and "store_open lib now (conn st) = Inr st'"
  shows "store_get st' sid = (case store_get st sid of None \<Rightarrow> None
    | Some s \<Rightarrow> if session_expired now s then None else Some (forget_keys s))"
  using assms by (rule restart_get)

theorem restart_recovers_sessions_witness:
  "store_get (projr (store_open demo_lib 3000 (conn demo_store))) ''s1'' = None
   \<and> store_get (projr (store_open demo_lib 1500 (conn demo_store))) ''s1'' = Some demo_session"
proof -
  have op: "store_open demo_lib now (conn demo_store)
      = Inr (projr (store_open demo_lib now (conn demo_store)))" for now
    by (simp add: store_open_def demo_lib_def Let_def)
  show ?thesis
    unfolding restart_recovers_sessions[OF demo_store_inv op]
    by (simp add: demo_store_def store_get_def inserted_def demo_empty_def hm_insert_def
        hm_values_def demo_session_def session_expired_def forget_keys_def)
qed

text \<open>
  Timestamps survive printing and parsing: when the time library reads back what it
  prints, a time that \<open>format_iso8601\<close> renders as text is parsed to the same 64-bit value,
  although it passes through a signed integer in both directions.
\<close>

theorem timestamp_roundtrip:
  assumes "\<And>dt t. format_rfc3339 tm dt = Some t \<Longrightarrow> parse_rfc3339 tm t = Some dt"
    and "\<And>i dt. from_unix_timestamp tm i = Some dt \<Longrightarrow> unix_timestamp tm dt = i"
    and "format_iso8601 tm ts = Some s" and "s \<noteq> []"
  shows "parse_iso8601 tm s = Some ts"
proof -
  from assms(3,4) obtain dt where dt: "from_unix_timestamp tm (sint ts) = Some dt"
    and "format_rfc3339 tm dt = Some s"
    by (auto simp: format_iso8601_def split: if_splits option.splits)
  then have "parse_rfc3339 tm s = Some dt" by (intro assms(1))
  with assms(4) assms(2)[OF dt] show ?thesis by (simp add: parse_iso8601_def)
qed

definition demo_time :: "int time_lib" where
  "demo_time = \<lparr>from_unix_timestamp = (\<lambda>i. if - (2 ^ 40) < i \<and> i < 2 ^ 40 then Some i else None),
     unix_timestamp = (\<lambda>i. i), format_rfc3339 = (\<lambda>i. if 0 \<le> i \<and> i < 2 ^ 40 then Some (show_nat (nat i)) else None),
     parse_rfc3339 = (\<lambda>t. map_option int (parse_uint (2 ^ 40) t))\<rparr>"

theorem timestamp_roundtrip_witness:
  "parse_iso8601 demo_time (show_nat 1700000000) = Some 1700000000"
proof (rule timestamp_roundtrip)
  show "parse_rfc3339 demo_time t = Some dt" if "format_rfc3339 demo_time dt = Some t" for dt t
    using that parse_show_nat[of "nat dt" "2 ^ 40"]
    by (auto simp: demo_time_def split: if_splits)
  show "unix_timestamp demo_time dt = i" if "from_unix_timestamp demo_time i = Some dt" for i dt
    using that by (simp add: demo_time_def split: if_splits)
  show "format_iso8601 demo_time 1700000000 = Some (show_nat 1700000000)"
    by (simp add: format_iso8601_def demo_time_def)
qed simp

text \<open>
  The counters of a session: after any sequence of recorded events, the statistics of an
  id exist exactly when an event named it, and every counter is the number (or the sum) over
  that id's events, modulo 2 to the 64.
\<close>

type_synonym stat_event = "string \<times> string \<times> u64 \<times> u64"

definition record_events :: "stat_event list \<Rightarrow> session_store \<Rightarrow> session_store" where
  "record_events evs st = fold (\<lambda>(sid, kind, up, down). record_stats sid kind up down) evs st"

definition events_of :: "string \<Rightarrow> stat_event list \<Rightarrow> stat_event list" where
  "events_of sid evs = filter (\<lambda>e. fst e = sid) evs"

definition kind_count :: "string \<Rightarrow> stat_event list \<Rightarrow> u64" where
  "kind_count kind evs = of_nat (length (filter (\<lambda>(sid, k, up, down). k = kind) evs))"

lemma get_stats_record:
  "get_stats (record_stats sid kind up down st) sid' =
     (if sid' = sid
      then Some (bump_stats kind up down (case get_stats st sid of Some e \<Rightarrow> e | None \<Rightarrow> default_stats))
      else get_stats st sid')"
  by (simp add: get_stats_def record_stats_def Let_def hm_simps)

theorem stats_count_events:
  assumes "get_stats st sid = None"
  shows "get_stats (record_events evs st) sid =
    (let es = events_of sid evs in
     if es = [] then None
     else Some \<lparr>requests_total = of_nat (length es), requests_mitm = kind_count ''mitm'' es,
       requests_tunnel = kind_count ''tunnel'' es, requests_dropped = kind_count ''dropped'' es,
       bytes_upstream = (\<Sum>(sid, k, up, down)\<leftarrow>es. up),
       bytes_downstream = (\<Sum>(sid, k, up, down)\<leftarrow>es. down)\<rparr>)"
  using assms
proof (induction evs rule: rev_induct)
  case Nil
  then show ?case by (simp add: record_events_def events_of_def)
next
  case (snoc e evs)
  obtain i kind up down where e: "e = (i, kind, up, down)" by (cases e)
  have r: "record_events (evs @ [e]) st = record_stats i kind up down (record_events evs st)"
    by (simp add: record_events_def e)
  show ?case
  proof (cases "i = sid")
    case False
    with snoc.IH[OF snoc.prems] show ?thesis
      unfolding r by (simp add: e get_stats_record events_of_def)
  next
    case True
    have es: "events_of sid (evs @ [e]) = events_of sid evs @ [(sid, kind, up, down)]"
      by (simp add: events_of_def e True)
    show ?thesis
    proof (cases "events_of sid evs = []")
      case True
      with snoc.IH[OF snoc.prems] \<open>i = sid\<close> show ?thesis
        unfolding es by (simp add: r get_stats_record bump_stats_def default_stats_def kind_count_def)
    next
      case False
      with snoc.IH[OF snoc.prems] \<open>i = sid\<close> show ?thesis
        unfolding es by (simp add: r get_stats_record bump_stats_def kind_count_def Let_def add.commute)
    qed
  qed
qed

theorem stats_count_events_witness:
  "map_option requests_total (get_stats (record_events
     [(''s1'', ''mitm'', 10, 20), (''s2'', ''dropped'', 1, 0), (''s1'', ''tunnel'', 5, 5)] demo_empty) ''s1'') = Some 2"
  by (subst stats_count_events)
    (simp_all add: demo_empty_def get_stats_def events_of_def Let_def)

end
