(* ===== verification/Http_Bytes.thy ===== *)
theory Http_Bytes
  imports Rust_Text
begin

text \<open>
  Reading one HTTP/1.1 request from the decrypted client stream
  (\<open>read_http_request\<close>, \<open>read_chunked_body\<close> and their scanners in
  \<open>crates/proxy/src/proxy.rs\<close>).

  A stream is the list of what the peer delivers: blocks of bytes or a read error. One
  \<open>read\<close> into a buffer of \<open>n\<close> bytes takes at most \<open>n\<close> bytes of the first block;
  the end of the list (or an empty block) reads as 0 bytes. The crate \<open>httparse\<close> is the
  argument \<open>parse\<close>.
\<close>

section \<open>Streams\<close>

datatype chunk = Bytes string | ReadError string

type_synonym stream = "chunk list"

fun stream_read :: "nat \<Rightarrow> stream \<Rightarrow> (string, string) result \<times> stream" where
  "stream_read n [] = (Inr [], [])"
| "stream_read n (ReadError e # st) = (Inl e, st)"
| "stream_read n (Bytes b # st) =
     (if length b \<le> n then (Inr b, st) else (Inr (take n b), Bytes (drop n b) # st))"

fun stream_bytes :: "stream \<Rightarrow> string" where
  "stream_bytes [] = []"
| "stream_bytes (ReadError e # st) = stream_bytes st"
| "stream_bytes (Bytes b # st) = b @ stream_bytes st"

fun stream_size :: "stream \<Rightarrow> nat" where
  "stream_size [] = 0"
| "stream_size (ReadError e # st) = Suc (stream_size st)"
| "stream_size (Bytes b # st) = Suc (length b + stream_size st)"

lemma stream_read_bytes:
  "stream_read n st = (Inr b, st') \<Longrightarrow> stream_bytes st = b @ stream_bytes st'"
  by (induction n st rule: stream_read.induct) (auto split: if_splits)

lemma stream_read_size:
  "stream_read n st = (Inr b, st') \<Longrightarrow> b \<noteq> [] \<Longrightarrow> stream_size st' < stream_size st"
  by (induction n st rule: stream_read.induct) (auto split: if_splits)

lemma stream_read_length: "stream_read n st = (Inr b, st') \<Longrightarrow> length b \<le> n"
  by (induction n st rule: stream_read.induct) (auto split: if_splits)

text \<open>A stream without errors whose blocks are not empty: it ends only at its end.\<close>

fun clean :: "stream \<Rightarrow> bool" where
  "clean [] = True"
| "clean (ReadError e # st) = False"
| "clean (Bytes b # st) = (b \<noteq> [] \<and> clean st)"

lemma clean_read:
  assumes "clean st" and "0 < n"
  obtains b st' where "stream_read n st = (Inr b, st')" and "clean st'"
    and "b = [] \<longleftrightarrow> stream_bytes st = []"
proof (cases st)
  case Nil
  then show ?thesis using that[of "[]" "[]"] by simp
next
  case (Cons c st')
  with assms(1) obtain b where c: "c = Bytes b" "b \<noteq> []" "clean st'"
    by (cases c) auto
  show ?thesis
    by (cases "length b \<le> n")
      (use that[of b st'] that[of "take n b" "Bytes (drop n b) # st'"] c assms(2) Cons in auto)
qed

section \<open>Scanners\<close>

datatype proxy_error = Io string | Http string

definition header_terminator :: string where
  "header_terminator = [CR, LF, CR, LF]"

definition body_terminator :: string where
  "body_terminator = CHR ''0'' # header_terminator"

definition find_header_end :: "string \<Rightarrow> nat option" where
  "find_header_end buf =
     (if length buf < 4 then None
      else map_option (\<lambda>i. i + 4)
             (List.find (\<lambda>i. take 4 (drop i buf) = header_terminator) [0..<length buf - 4 + 1]))"

definition find_terminator :: "string \<Rightarrow> nat \<Rightarrow> nat option" where
  "find_terminator buf start =
     (if length buf < start + 5 then None
      else map_option (\<lambda>i. i + 5)
             (List.find (\<lambda>i. take 5 (drop i buf) = body_terminator) [start..<length buf - 5 + 1]))"

lemma find_upt:
  "List.find P [a..<b] = Some i \<longleftrightarrow> a \<le> i \<and> i < b \<and> P i \<and> (\<forall>j. a \<le> j \<and> j < i \<longrightarrow> \<not> P j)"
proof (induction "b - a" arbitrary: a)
  case 0
  then show ?case by simp
next
  case (Suc n)
  then have "a < b" by simp
  then have upt: "[a..<b] = a # [Suc a..<b]" by (rule upt_conv_Cons)
  have "List.find P [Suc a..<b] = Some i \<longleftrightarrow>
      Suc a \<le> i \<and> i < b \<and> P i \<and> (\<forall>j. Suc a \<le> j \<and> j < i \<longrightarrow> \<not> P j)"
    using Suc(1)[of "Suc a"] Suc(2) by simp
  then show ?case
    unfolding upt using \<open>a < b\<close> by (auto simp: Suc_le_eq) (metis le_neq_implies_less)+
qed

lemma find_upt_None: "List.find P [a..<b] = None \<longleftrightarrow> (\<forall>j. a \<le> j \<and> j < b \<longrightarrow> \<not> P j)"
  by (auto simp: find_None_iff)

text \<open>The window scan is the substring search of the library.\<close>

lemma take_eq_starts_with:
  "length p = n \<Longrightarrow> take n s = p \<longleftrightarrow> starts_with p s"
  by (auto simp: starts_with_take)

lemma starts_with_drop_bound:
  "starts_with p (drop i s) \<Longrightarrow> p \<noteq> [] \<Longrightarrow> i + length p \<le> length s"
  using starts_with_length[of p "drop i s"] by (cases "i \<le> length s") auto

lemma length_header_terminator [simp]: "length header_terminator = 4"
  by (simp add: header_terminator_def)

lemma length_body_terminator [simp]: "length body_terminator = 5"
  by (simp add: body_terminator_def)

lemma window_find:
  assumes "length p = n" and "p \<noteq> []" and "n \<le> length s"
  shows "List.find (\<lambda>i. take n (drop i s) = p) [0..<length s - n + 1] = find_sub p s"
proof (cases "find_sub p s")
  case None
  then show ?thesis
    by (auto simp: find_None_iff take_eq_starts_with[OF assms(1)] dest: find_sub_None)
next
  case (Some i)
  from find_sub_Some[OF Some] assms show ?thesis
    unfolding Some find_upt by (simp add: take_eq_starts_with) linarith
qed

lemma find_header_end_find_sub:
  "find_header_end buf = map_option (\<lambda>i. i + 4) (find_sub header_terminator buf)"
proof (cases "length buf < 4")
  case True
  have "find_sub header_terminator buf = None"
  proof (rule ccontr)
    assume "find_sub header_terminator buf \<noteq> None"
    then obtain i where "find_sub header_terminator buf = Some i" by auto
    from find_sub_Some[OF this] True show False by simp
  qed
  with True show ?thesis by (simp add: find_header_end_def)
next
  case False
  then have "List.find (\<lambda>i. take 4 (drop i buf) = header_terminator) [0..<length buf - 4 + 1]
      = find_sub header_terminator buf"
    by (intro window_find) (auto simp: header_terminator_def)
  with False show ?thesis unfolding find_header_end_def by simp
qed

lemma find_header_end_Some:
  assumes "find_header_end buf = Some pos"
  shows "pos \<le> length buf" and "\<exists>h. take pos buf = h @ header_terminator"
proof -
  from assms obtain i where i: "find_sub header_terminator buf = Some i" and pos: "pos = i + 4"
    by (auto simp: find_header_end_find_sub)
  from find_sub_Some[OF i] have le: "i + 4 \<le> length buf"
    and sw: "take 4 (drop i buf) = header_terminator"
    by (auto simp: starts_with_take)
  from le pos show "pos \<le> length buf" by simp
  have "take pos buf = take i buf @ take 4 (drop i buf)" by (simp add: pos take_add)
  with sw have "take pos buf = take i buf @ header_terminator" by simp
  then show "\<exists>h. take pos buf = h @ header_terminator" by (rule exI)
qed

lemma find_header_end_append:
  "find_header_end buf = Some pos \<Longrightarrow> find_header_end (buf @ t) = Some pos"
proof -
  assume "find_header_end buf = Some pos"
  then obtain i where i: "find_sub header_terminator buf = Some i" and pos: "pos = i + 4"
    by (auto simp: find_header_end_find_sub)
  note * = find_sub_Some[OF i]
  have "find_sub header_terminator (buf @ t) = Some i"
  proof (rule find_sub_eq)
    show "starts_with header_terminator (drop i (buf @ t))"
      using * by (auto simp: starts_with_iff)
    show "\<not> starts_with header_terminator (drop j (buf @ t))" if "j < i" for j
    proof -
      have "take 4 (drop j (buf @ t)) = take 4 (drop j buf)" using * that by simp
      with * that show ?thesis by (auto simp: starts_with_take)
    qed
  qed
  with pos show ?thesis by (simp add: find_header_end_find_sub)
qed


lemma find_terminator_Some:
  "find_terminator buf start = Some pos \<longleftrightarrow>
     start + 5 \<le> pos \<and> pos \<le> length buf \<and> starts_with body_terminator (drop (pos - 5) buf)
     \<and> (\<forall>j. start \<le> j \<and> j + 5 < pos \<longrightarrow> \<not> starts_with body_terminator (drop j buf))"
  (is "?L \<longleftrightarrow> ?R")
proof (cases "length buf < start + 5")
  case True
  then show ?thesis by (auto simp: find_terminator_def)
next
  case False
  have sw: "(\<lambda>i. take 5 (drop i buf) = body_terminator) = (\<lambda>i. starts_with body_terminator (drop i buf))"
    by (rule ext) (rule take_eq_starts_with, simp)
  let ?f = "List.find (\<lambda>i. starts_with body_terminator (drop i buf)) [start..<length buf - 5 + 1]"
  have "?L \<longleftrightarrow> 5 \<le> pos \<and> ?f = Some (pos - 5)"
    using False unfolding find_terminator_def sw by auto
  also have "\<dots> \<longleftrightarrow> ?R"
    unfolding find_upt using False by auto
  finally show ?thesis .
qed

lemma find_terminator_None:
  "find_terminator buf start = None \<longleftrightarrow>
     (\<forall>j\<ge>start. \<not> starts_with body_terminator (drop j buf))"
proof (cases "length buf < start + 5")
  case True
  have "\<not> starts_with body_terminator (drop j buf)" if "start \<le> j" for j
  proof
    assume "starts_with body_terminator (drop j buf)"
    from starts_with_drop_bound[OF this] True that show False
      by (simp add: body_terminator_def header_terminator_def)
  qed
  with True show ?thesis by (simp add: find_terminator_def)
next
  case False
  have sw: "(\<lambda>i. take 5 (drop i buf) = body_terminator) = (\<lambda>i. starts_with body_terminator (drop i buf))"
    by (rule ext) (rule take_eq_starts_with, simp)
  have bound: "j + 5 \<le> length buf" if "starts_with body_terminator (drop j buf)" for j
    using starts_with_drop_bound[OF that] by (simp add: body_terminator_def)
  from False have "find_terminator buf start = None \<longleftrightarrow>
      (\<forall>j. start \<le> j \<and> j < length buf - 5 + 1 \<longrightarrow> \<not> starts_with body_terminator (drop j buf))"
    unfolding find_terminator_def sw by (simp add: find_upt_None del: upt_Suc)
  also have "\<dots> \<longleftrightarrow> (\<forall>j\<ge>start. \<not> starts_with body_terminator (drop j buf))"
  proof -
    have "j < length buf - 5 + 1" if "starts_with body_terminator (drop j buf)" for j
      using bound[OF that] False by linarith
    then show ?thesis by blast
  qed
  finally show ?thesis .
qed

section \<open>The body\<close>

function read_chunked_body ::
  "stream \<Rightarrow> string \<Rightarrow> nat \<Rightarrow> (proxy_error, string) result \<times> stream" where
  "read_chunked_body st buf body_start =
     (let scan_start = min body_start (length buf - 1) in
      case find_terminator buf scan_start of
        Some pos \<Rightarrow> (Inr (take pos buf), st)
      | None \<Rightarrow>
          (case stream_read 4096 st of
             (Inl e, st') \<Rightarrow> (Inl (Io e), st')
           | (Inr tmp, st') \<Rightarrow>
               if tmp = [] then (Inr buf, st')
               else read_chunked_body st' (buf @ tmp) body_start))"
  by pat_completeness auto
termination
  by (relation "measure (\<lambda>(st, buf, s). stream_size st)") (auto dest: sym stream_read_size)

text \<open>The loop that fills the rest of a body of known length.\<close>

function read_remaining ::
  "stream \<Rightarrow> nat \<Rightarrow> string \<Rightarrow> (proxy_error, string) result \<times> stream" where
  "read_remaining st remaining body =
     (if length body < remaining then
        (case stream_read (remaining - length body) st of
           (Inl e, st') \<Rightarrow> (Inl (Io e), st')
         | (Inr b, st') \<Rightarrow>
             if b = [] then (Inr body, st')
             else read_remaining st' remaining (body @ b))
      else (Inr body, st))"
  by pat_completeness auto
termination
  by (relation "measure (\<lambda>(st, r, b). stream_size st)") (auto dest: sym stream_read_size)

section \<open>The request\<close>

record header =
  h_name :: string
  h_value :: string

datatype httparse_result = ParseError string | Partial | Complete "header list"

function read_head :: "stream \<Rightarrow> string \<Rightarrow> (proxy_error, string \<times> nat) result \<times> stream" where
  "read_head st buf =
     (case stream_read 4096 st of
        (Inl e, st') \<Rightarrow> (Inl (Io e), st')
      | (Inr tmp, st') \<Rightarrow>
          if tmp = [] then
            (if buf = [] then (Inl (Io ''empty request from client''), st')
             else (Inl (Io ''connection closed before headers complete''), st'))
          else
            (case find_header_end (buf @ tmp) of
               Some pos \<Rightarrow> (Inr (buf @ tmp, pos), st')
             | None \<Rightarrow> read_head st' (buf @ tmp)))"
  by pat_completeness auto
termination
  by (relation "measure (\<lambda>(st, buf). stream_size st)") (auto dest: sym stream_read_size)

declare read_chunked_body.simps [simp del] read_remaining.simps [simp del] read_head.simps [simp del]

definition usize_bound :: nat where "usize_bound = 2 ^ 64"

definition isize_max :: nat where "isize_max = 2 ^ 63 - 1"

definition header_text :: "header \<Rightarrow> string" where
  "header_text h = (case from_utf8 (h_value h) of Some s \<Rightarrow> s | None \<Rightarrow> [])"

text \<open>The loop over the parsed headers: the last \<open>Content-Length\<close> decides (an unreadable
  one resets it), any \<open>Transfer-Encoding\<close> that mentions \<open>chunked\<close> sets the flag.\<close>

definition scan_header :: "header \<Rightarrow> nat option \<times> bool \<Rightarrow> nat option \<times> bool" where
  "scan_header h acc =
     (let cl = (if eq_ignore_ascii_case (h_name h) ''content-length''
                then parse_uint usize_bound (trim (header_text h)) else fst acc);
          ch = (if eq_ignore_ascii_case (h_name h) ''transfer-encoding''
                   \<and> str_contains ''chunked'' (to_lowercase (header_text h))
                then True else snd acc)
      in (cl, ch))"

definition scan_headers :: "header list \<Rightarrow> nat option \<times> bool" where
  "scan_headers hs = fold scan_header hs (None, False)"

text \<open>
  \<open>read_http_request\<close>. Besides its error, the function can panic: \<open>vec![0u8; remaining]\<close>
  refuses more than \<open>isize::MAX\<close> bytes.
\<close>

datatype read_outcome = ReadOk string | ReadErr proxy_error | CapacityPanic

fun read_outcome_of :: "(proxy_error, string) result \<Rightarrow> read_outcome" where
  "read_outcome_of (Inl e) = ReadErr e"
| "read_outcome_of (Inr b) = ReadOk b"

definition read_body :: "header list \<Rightarrow> string \<Rightarrow> nat \<Rightarrow> stream \<Rightarrow> read_outcome \<times> stream" where
  "read_body hs buf header_end st =
     (let (content_length, is_chunked) = scan_headers hs in
      if is_chunked then
        (case read_chunked_body st buf header_end of (r, st') \<Rightarrow> (read_outcome_of r, st'))
      else
        (case content_length of
           Some len \<Rightarrow>
             (let body_bytes_in_buf = length buf - header_end in
              if body_bytes_in_buf < len then
                (let remaining = len - body_bytes_in_buf in
                 if isize_max < remaining then (CapacityPanic, st)
                 else (case read_remaining st remaining [] of
                         (Inl e, st') \<Rightarrow> (ReadErr e, st')
                       | (Inr body, st') \<Rightarrow> (ReadOk (buf @ body), st')))
              else (ReadOk buf, st))
         | None \<Rightarrow> (ReadOk buf, st)))"

definition read_http_request :: "(string \<Rightarrow> httparse_result) \<Rightarrow> stream \<Rightarrow> read_outcome \<times> stream" where
  "read_http_request parse st =
     (case read_head st [] of
        (Inl e, st') \<Rightarrow> (ReadErr e, st')
      | (Inr (buf, header_end), st') \<Rightarrow>
          (case parse buf of
             ParseError e \<Rightarrow> (ReadErr (Io (''httparse error: '' @ e)), st')
           | Partial \<Rightarrow> (ReadErr (Io ''incomplete headers after read''), st')
           | Complete hs \<Rightarrow> read_body hs buf header_end st'))"


section \<open>Nothing is lost, nothing is invented\<close>

lemma read_head_ok:
  "read_head st buf = (Inr (b, pos), st') \<Longrightarrow>
     buf @ stream_bytes st = b @ stream_bytes st' \<and> find_header_end b = Some pos"
proof (induction st buf rule: read_head.induct)
  case (1 st buf)
  from "1.prems" obtain tmp st1 where rd: "stream_read 4096 st = (Inr tmp, st1)" and ne: "tmp \<noteq> []"
    by (auto simp: read_head.simps[of st buf] split: prod.splits sum.splits if_splits)
  note bytes = stream_read_bytes[OF rd]
  show ?case
  proof (cases "find_header_end (buf @ tmp)")
    case None
    with "1.prems" rd ne have "read_head st1 (buf @ tmp) = (Inr (b, pos), st')"
      by (simp add: read_head.simps[of st buf])
    from "1.IH"[OF rd[symmetric] _ _ None this] rd ne bytes show ?thesis by auto
  next
    case (Some p)
    with "1.prems" rd ne bytes show ?thesis by (simp add: read_head.simps[of st buf])
  qed
qed

lemma read_remaining_ok:
  "read_remaining st n body = (Inr b, st') \<Longrightarrow>
     body @ stream_bytes st = b @ stream_bytes st' \<and> (length body \<le> n \<longrightarrow> length b \<le> n)"
proof (induction st n body rule: read_remaining.induct)
  case (1 st n body)
  show ?case
  proof (cases "length body < n")
    case False
    with "1.prems" show ?thesis by (simp add: read_remaining.simps[of st n body])
  next
    case True
    with "1.prems" obtain tmp st1 where rd: "stream_read (n - length body) st = (Inr tmp, st1)"
      by (auto simp: read_remaining.simps[of st n body] split: prod.splits sum.splits if_splits)
    note bytes = stream_read_bytes[OF rd] and len = stream_read_length[OF rd]
    show ?thesis
    proof (cases "tmp = []")
      case True
      with "1.prems" rd bytes \<open>length body < n\<close> show ?thesis
        by (auto simp: read_remaining.simps[of st n body])
    next
      case False
      with "1.prems" rd True have "read_remaining st1 n (body @ tmp) = (Inr b, st')"
        by (simp add: read_remaining.simps[of st n body])
      from "1.IH"[OF True rd[symmetric] _ False this] True bytes len show ?thesis by auto
    qed
  qed
qed

lemma read_chunked_body_ok:
  "read_chunked_body st buf s = (Inr out, st') \<Longrightarrow>
     \<exists>d. buf @ stream_bytes st = out @ d @ stream_bytes st'"
proof (induction st buf s rule: read_chunked_body.induct)
  case (1 st buf s)
  show ?case
  proof (cases "find_terminator buf (min s (length buf - 1))")
    case (Some pos)
    with "1.prems" have "out = take pos buf" "st' = st"
      by (auto simp: read_chunked_body.simps[of st buf s])
    then have "buf @ stream_bytes st = out @ drop pos buf @ stream_bytes st'" by simp
    then show ?thesis by blast
  next
    case None
    with "1.prems" obtain tmp st1 where rd: "stream_read 4096 st = (Inr tmp, st1)"
      by (auto simp: read_chunked_body.simps[of st buf s] split: prod.splits sum.splits if_splits)
    note bytes = stream_read_bytes[OF rd]
    show ?thesis
    proof (cases "tmp = []")
      case True
      with "1.prems" None rd bytes show ?thesis by (auto simp: read_chunked_body.simps[of st buf s])
    next
      case False
      with "1.prems" None rd have "read_chunked_body st1 (buf @ tmp) s = (Inr out, st')"
        by (simp add: read_chunked_body.simps[of st buf s])
      from "1.IH"[OF _ None rd[symmetric] _ False this] bytes show ?thesis by auto
    qed
  qed
qed

section \<open>The result does not depend on how the bytes arrive\<close>

lemma clean_readE:
  assumes "clean st"
  obtains b st' where "stream_read 4096 st = (Inr b, st')" and "clean st'"
    and "b = [] \<longleftrightarrow> stream_bytes st = []" and "stream_bytes st = b @ stream_bytes st'"
  using clean_read[OF assms, of 4096] stream_read_bytes[of 4096 st]
  by (metis zero_less_numeral)

lemma read_head_clean:
  assumes "clean st" and "find_header_end buf = None"
    and "find_header_end (buf @ stream_bytes st) = Some pos"
  shows "\<exists>b st'. read_head st buf = (Inr (b, pos), st') \<and> clean st'
    \<and> b @ stream_bytes st' = buf @ stream_bytes st"
  using assms
proof (induction st buf rule: read_head.induct)
  case (1 st buf)
  from "1.prems"(1) obtain tmp st1 where rd: "stream_read 4096 st = (Inr tmp, st1)" "clean st1"
    "tmp = [] \<longleftrightarrow> stream_bytes st = []" and bytes: "stream_bytes st = tmp @ stream_bytes st1"
    by (rule clean_readE)
  from "1.prems"(2,3) have ne: "tmp \<noteq> []" using rd(3) by auto
  show ?case
  proof (cases "find_header_end (buf @ tmp)")
    case None
    with rd ne have "read_head st buf = read_head st1 (buf @ tmp)"
      by (simp add: read_head.simps[of st buf])
    moreover have "find_header_end ((buf @ tmp) @ stream_bytes st1) = Some pos"
      using "1.prems"(3) bytes by simp
    ultimately show ?thesis
      using "1.IH"[OF rd(1)[symmetric] _ ne None rd(2) None] bytes by simp
  next
    case (Some p)
    from find_header_end_append[OF Some, of "stream_bytes st1"] "1.prems"(3) bytes
    have "p = pos" by simp
    with Some rd ne bytes show ?thesis by (simp add: read_head.simps[of st buf])
  qed
qed

lemma read_remaining_clean:
  assumes "clean st" and "length body \<le> n" and "n \<le> length (body @ stream_bytes st)"
  shows "\<exists>st'. read_remaining st n body = (Inr (take n (body @ stream_bytes st)), st')"
  using assms
proof (induction st n body rule: read_remaining.induct)
  case (1 st n body)
  show ?case
  proof (cases "length body < n")
    case False
    with "1.prems" show ?thesis by (simp add: read_remaining.simps[of st n body])
  next
    case True
    then obtain tmp st1 where rd: "stream_read (n - length body) st = (Inr tmp, st1)"
      and cl: "clean st1" and e: "tmp = [] \<longleftrightarrow> stream_bytes st = []"
      using clean_read[OF "1.prems"(1), of "n - length body"] by (metis zero_less_diff)
    note bytes = stream_read_bytes[OF rd] and len = stream_read_length[OF rd]
    from True "1.prems"(3) have "stream_bytes st \<noteq> []" by auto
    with e have ne: "tmp \<noteq> []" by simp
    with rd True have "read_remaining st n body = read_remaining st1 n (body @ tmp)"
      by (simp add: read_remaining.simps[of st n body])
    with "1.IH"[OF True rd[symmetric] _ ne cl] "1.prems"(3) True bytes len show ?thesis by simp
  qed
qed

lemma find_terminator_scan_start:
  assumes "s \<le> length buf"
  shows "find_terminator buf (min s (length buf - 1)) = find_terminator buf s"
proof (cases "s \<le> length buf - 1")
  case True
  then show ?thesis by (simp add: min_def)
next
  case False
  with assms have "s = length buf" by simp
  moreover from this have "length buf < min s (length buf - 1) + 5" by (simp add: min_def)
  ultimately show ?thesis by (simp only: find_terminator_def) simp
qed

lemma find_terminator_append:
  assumes "find_terminator buf s = Some pos"
  shows "find_terminator (buf @ t) s = Some pos"
proof -
  from assms have pos: "s + 5 \<le> pos" "pos \<le> length buf"
      "starts_with body_terminator (drop (pos - 5) buf)"
    and first: "\<forall>j. s \<le> j \<and> j + 5 < pos \<longrightarrow> \<not> starts_with body_terminator (drop j buf)"
    by (simp_all add: find_terminator_Some)
  have same: "starts_with body_terminator (drop j (buf @ t))
      = starts_with body_terminator (drop j buf)" if "j + 5 \<le> pos" for j
  proof -
    have "take 5 (drop j (buf @ t)) = take 5 (drop j buf)"
      using that pos(2) by simp
    then show ?thesis by (simp only: starts_with_take length_body_terminator)
  qed
  from pos first same[of "pos - 5"] same show ?thesis
    by (simp add: find_terminator_Some)
qed

lemma read_chunked_body_clean:
  assumes "clean st" and "s \<le> length buf"
  shows "\<exists>st'. read_chunked_body st buf s =
    (Inr (case find_terminator (buf @ stream_bytes st) s of
            Some pos \<Rightarrow> take pos (buf @ stream_bytes st)
          | None \<Rightarrow> buf @ stream_bytes st), st')"
  using assms
proof (induction st buf s rule: read_chunked_body.induct)
  case (1 st buf s)
  note start = find_terminator_scan_start[OF "1.prems"(2)]
  show ?case
  proof (cases "find_terminator buf s")
    case (Some pos)
    then have "pos \<le> length buf" by (simp add: find_terminator_Some)
    with Some find_terminator_append[OF Some, of "stream_bytes st"] start show ?thesis
      by (simp add: read_chunked_body.simps[of st buf s])
  next
    case None
    from "1.prems"(1) obtain tmp st1 where rd: "stream_read 4096 st = (Inr tmp, st1)" "clean st1"
      "tmp = [] \<longleftrightarrow> stream_bytes st = []" and bytes: "stream_bytes st = tmp @ stream_bytes st1"
      by (rule clean_readE)
    show ?thesis
    proof (cases "tmp = []")
      case True
      with rd None start show ?thesis by (simp add: read_chunked_body.simps[of st buf s])
    next
      case False
      with rd None start have "read_chunked_body st buf s = read_chunked_body st1 (buf @ tmp) s"
        by (simp add: read_chunked_body.simps[of st buf s])
      note step = this
      have full: "buf @ stream_bytes st = (buf @ tmp) @ stream_bytes st1"
        using bytes by simp
      have "s \<le> length (buf @ tmp)" using "1.prems"(2) by simp
      with "1.IH"[OF refl _ rd(1)[symmetric] refl False rd(2)] None start show ?thesis
        unfolding step full by simp
    qed
  qed
qed

text \<open>The request \<open>req\<close>, whose head ends at \<open>pos\<close> and has the headers \<open>hs\<close>, ends where its
  framing says.\<close>

definition message_framed :: "nat \<Rightarrow> header list \<Rightarrow> string \<Rightarrow> bool" where
  "message_framed pos hs req =
     (let (len, chunked) = scan_headers hs in
      if chunked then find_terminator req pos = Some (length req)
      else (case len of Some n \<Rightarrow> length req = pos + n | None \<Rightarrow> length req = pos))"

lemma read_head_error:
  assumes "clean st" and "find_header_end (buf @ stream_bytes st) = None"
  shows "\<exists>st'. read_head st buf = (Inl (Io (if buf @ stream_bytes st = []
     then ''empty request from client'' else ''connection closed before headers complete'')), st')"
  using assms
proof (induction st buf rule: read_head.induct)
  case (1 st buf)
  from "1.prems"(1) obtain tmp st1 where rd: "stream_read 4096 st = (Inr tmp, st1)" "clean st1"
    "tmp = [] \<longleftrightarrow> stream_bytes st = []" and bytes: "stream_bytes st = tmp @ stream_bytes st1"
    by (rule clean_readE)
  show ?case
  proof (cases "tmp = []")
    case True
    with rd show ?thesis by (auto simp: read_head.simps[of st buf])
  next
    case False
    have none: "find_header_end (buf @ tmp) = None"
    proof (rule ccontr)
      assume "find_header_end (buf @ tmp) \<noteq> None"
      then obtain p where "find_header_end (buf @ tmp) = Some p" by auto
      from find_header_end_append[OF this, of "stream_bytes st1"] "1.prems"(2) bytes
      show False by simp
    qed
    with rd False have step: "read_head st buf = read_head st1 (buf @ tmp)"
      by (simp add: read_head.simps[of st buf])
    have full: "buf @ stream_bytes st = (buf @ tmp) @ stream_bytes st1"
      unfolding bytes by simp
    show ?thesis
      unfolding step full
      by (rule "1.IH"[OF rd(1)[symmetric] refl False none rd(2)])
        (rule "1.prems"(2)[unfolded full])
  qed
qed

lemma read_chunked_body_head:
  "read_chunked_body st buf s = (Inr out, st') \<Longrightarrow> s \<le> length buf \<Longrightarrow>
     s \<le> length out \<and> take s out = take s buf"
proof (induction st buf s rule: read_chunked_body.induct)
  case (1 st buf s)
  note start = find_terminator_scan_start[OF "1.prems"(2)]
  show ?case
  proof (cases "find_terminator buf (min s (length buf - 1))")
    case (Some pos)
    with start have "find_terminator buf s = Some pos" by simp
    then have "s + 5 \<le> pos" "pos \<le> length buf" by (simp_all only: find_terminator_Some)
    with Some "1.prems" show ?thesis
      by (auto simp: read_chunked_body.simps[of st buf s] min_def)
  next
    case None
    with "1.prems" obtain tmp st1 where rd: "stream_read 4096 st = (Inr tmp, st1)"
      by (auto simp: read_chunked_body.simps[of st buf s] split: prod.splits sum.splits if_splits)
    show ?thesis
    proof (cases "tmp = []")
      case True
      with "1.prems" None rd show ?thesis by (auto simp: read_chunked_body.simps[of st buf s])
    next
      case False
      with "1.prems" None rd have "read_chunked_body st1 (buf @ tmp) s = (Inr out, st')"
        by (simp add: read_chunked_body.simps[of st buf s])
      from "1.IH"[OF _ None rd[symmetric] _ False this] "1.prems"(2) show ?thesis by simp
    qed
  qed
qed

lemma header_end_terminated:
  "find_header_end buf = Some pos \<Longrightarrow> str_contains header_terminator (take pos buf @ t)"
  using find_header_end_Some(2)[of buf pos] by (auto simp: str_contains_iff) blast

lemma read_body_cases:
  assumes "read_body hs buf pos st1 = (ReadOk out, st')"
  obtains (chunked) "snd (scan_headers hs)" "read_chunked_body st1 buf pos = (Inr out, st')"
    | (all) "out = buf" "st' = st1"
    | (len) n b where "read_remaining st1 n [] = (Inr b, st')" "out = buf @ b"
proof -
  obtain cl ch where sc: "scan_headers hs = (cl, ch)" by fastforce
  show thesis
  proof (cases ch)
    case True
    with assms sc obtain r where r: "read_chunked_body st1 buf pos = (r, st')"
      "read_outcome_of r = ReadOk out"
      by (auto simp: read_body_def split: prod.splits)
    then show thesis using chunked True sc by (cases r) auto
  next
    case False
    with assms sc show thesis
      by (auto simp: read_body_def Let_def intro: all len
          split: option.splits if_splits prod.splits sum.splits)
  qed
qed

lemma read_http_request_ok:
  assumes "read_http_request parse st = (ReadOk out, st')"
  shows "\<exists>d. stream_bytes st = out @ d @ stream_bytes st'
    \<and> str_contains header_terminator out
    \<and> (d = [] \<or> (\<exists>buf rest hs. stream_bytes st = buf @ rest \<and> parse buf = Complete hs
          \<and> snd (scan_headers hs)))"
proof -
  from assms obtain buf pos st1 where hd: "read_head st [] = (Inr (buf, pos), st1)"
    by (auto simp: read_http_request_def split: prod.splits sum.splits)
  from assms hd obtain hs where ps: "parse buf = Complete hs"
    by (auto simp: read_http_request_def split: httparse_result.splits)
  note head = read_head_ok[OF hd]
  have pos: "pos \<le> length buf" using head find_header_end_Some(1) by blast
  have whole: "str_contains header_terminator (buf @ t)" for t
    using header_end_terminated[of buf pos "drop pos buf @ t"] head
    by (metis append_assoc append_take_drop_id)
  from assms hd ps have body: "read_body hs buf pos st1 = (ReadOk out, st')"
    by (simp add: read_http_request_def)
  then show ?thesis
  proof (cases rule: read_body_cases)
    case chunked
    from read_chunked_body_ok[OF chunked(2)] obtain d where
      d: "buf @ stream_bytes st1 = out @ d @ stream_bytes st'" by blast
    from read_chunked_body_head[OF chunked(2) pos] have "take pos out = take pos buf" by simp
    then have trm: "str_contains header_terminator out"
      using header_end_terminated[of buf pos "drop pos out"] head
      by (metis append_take_drop_id)
    have "stream_bytes st = buf @ stream_bytes st1 \<and> parse buf = Complete hs
        \<and> snd (scan_headers hs)"
      using head ps chunked(1) by simp
    then have "\<exists>buf rest hs. stream_bytes st = buf @ rest \<and> parse buf = Complete hs
        \<and> snd (scan_headers hs)" by blast
    moreover have "stream_bytes st = out @ d @ stream_bytes st'" using d head by simp
    ultimately show ?thesis using trm by blast
  next
    case all
    with head whole[of "[]"] show ?thesis by auto
  next
    case (len n b)
    from read_remaining_ok[OF len(1)] head whole[of b] len(2) show ?thesis by auto
  qed
qed

lemma read_body_framed:
  assumes "clean st" and "buf @ stream_bytes st = req @ rest" and "pos \<le> length buf"
    and "message_framed pos hs req" and "length req \<le> isize_max"
  shows "\<exists>x. fst (read_body hs buf pos st) = ReadOk (req @ x) \<and> (\<exists>t. rest = x @ t)
    \<and> (snd (scan_headers hs) \<longrightarrow> x = [])"
proof -
  note all = assms(2)
  obtain len ch where sc: "scan_headers hs = (len, ch)" by fastforce
  show ?thesis
  proof (cases ch)
    case True
    with assms(4) sc have "find_terminator req pos = Some (length req)"
      by (simp add: message_framed_def)
    from find_terminator_append[OF this, of rest]
    have "find_terminator (buf @ stream_bytes st) pos = Some (length req)" using all by simp
    with read_chunked_body_clean[OF assms(1,3)] all obtain st' where
      "read_chunked_body st buf pos = (Inr req, st')" by auto
    with True sc show ?thesis by (simp add: read_body_def)
  next
    case False
    show ?thesis
    proof (cases "length req \<le> length buf")
      case True
      with all obtain x where x: "buf = req @ x" "rest = x @ stream_bytes st"
        by (auto simp: append_eq_append_conv2)
      have "read_body hs buf pos st = (ReadOk buf, st)"
        using False sc assms(4) True
        by (auto simp: read_body_def Let_def message_framed_def split: option.splits)
      with x sc False show ?thesis by auto
    next
      case short: False
      then obtain n where n: "len = Some n" "length req = pos + n"
        using False sc assms(3,4) by (auto simp: message_framed_def split: option.splits)
      let ?m = "n - (length buf - pos)"
      from all short obtain y where y: "req = buf @ y" "stream_bytes st = y @ rest"
        by (auto simp: append_eq_append_conv2)
      with n assms(3) have m: "?m = length y" by auto
      with y read_remaining_clean[OF assms(1), of "[]" ?m] obtain st' where
        "read_remaining st ?m [] = (Inr y, st')" by auto
      moreover have "\<not> isize_max < ?m" using assms(5) y m by simp
      moreover have "length buf - pos < n" using short n assms(3) by simp
      ultimately have "fst (read_body hs buf pos st) = ReadOk req"
        using False sc n y by (simp add: read_body_def)
      with sc False show ?thesis by auto
    qed
  qed
qed

section \<open>Properties\<close>

text \<open>
  A request that is read is what the client sent: the stream's bytes are the request
  followed by what is left in the stream, in order. Bytes are dropped in between only for a
  chunked request, behind its terminator. The request contains a complete head.
\<close>

theorem read_request_conserves_bytes:
  assumes "read_http_request parse st = (ReadOk out, st')"
  shows "\<exists>d. stream_bytes st = out @ d @ stream_bytes st'
    \<and> str_contains header_terminator out
    \<and> (d = [] \<or> (\<exists>buf rest hs. stream_bytes st = buf @ rest \<and> parse buf = Complete hs
          \<and> snd (scan_headers hs)))"
  using assms by (rule read_http_request_ok)

definition demo_http :: string where
  "demo_http = ''GET / HTTP/1.1'' @ header_terminator @ ''hi''"

definition demo_parse :: "string \<Rightarrow> httparse_result" where
  "demo_parse buf = Complete [\<lparr>h_name = ''Content-Length'', h_value = ''2''\<rparr>]"

lemma demo_headers: "scan_headers [\<lparr>h_name = ''Content-Length'', h_value = ''2''\<rparr>] = (Some 2, False)"
proof -
  have "trim ''2'' = ''2''"
    by (simp add: trim_def trim_end_def trim_start_def trim_by.simps ws_len_rev_def ws_len_def)
  moreover have "from_utf8 ''2'' = Some ''2''"
    by (simp add: from_utf8_def utf8_valid_ascii)
  ultimately show ?thesis
    by (simp add: scan_headers_def scan_header_def header_text_def eq_ignore_ascii_case_def
        ascii_lower_def char_of_eq_iff parse_uint_def is_digit_def usize_bound_def)
qed

lemma demo_head_end: "find_header_end demo_http = Some 18"
  by (simp add: find_header_end_find_sub demo_http_def header_terminator_def)

text \<open>
  C12. A request is read the same however its bytes are cut into blocks: if the stream's
  bytes begin with a message that ends where its own framing says (chunked, by length, or at
  the head), reading returns that message. Only when it is not chunked may bytes of a
  following request that arrived in the same block come with it.
\<close>

theorem read_request_by_framing:
  assumes "clean st" and "stream_bytes st = req @ rest"
    and "find_header_end req = Some pos"
    and "\<And>buf t. stream_bytes st = buf @ t \<Longrightarrow> find_header_end buf = Some pos \<Longrightarrow> parse buf = Complete hs"
    and "message_framed pos hs req" and "length req \<le> isize_max"
  shows "\<exists>x. fst (read_http_request parse st) = ReadOk (req @ x) \<and> (\<exists>t. rest = x @ t)
    \<and> (snd (scan_headers hs) \<longrightarrow> x = [])"
proof -
  have "find_header_end ([] @ stream_bytes st) = Some pos"
    using find_header_end_append[OF assms(3)] assms(2) by simp
  from read_head_clean[OF assms(1) _ this] obtain buf st1 where
    hd: "read_head st [] = (Inr (buf, pos), st1)" and cl: "clean st1"
    and all: "buf @ stream_bytes st1 = req @ rest"
    using assms(2) by (auto simp: find_header_end_def)
  from read_head_ok[OF hd] have he: "find_header_end buf = Some pos" by simp
  from find_header_end_Some(1)[OF he] have pos: "pos \<le> length buf" .
  have "stream_bytes st = buf @ stream_bytes st1" using all assms(2) by simp
  then have ps: "parse buf = Complete hs" using he by (rule assms(4))
  from read_body_framed[OF cl all pos assms(5,6)] show ?thesis
    by (simp add: read_http_request_def hd ps)
qed

theorem read_request_by_framing_witness:
  "fst (read_http_request demo_parse [Bytes ''GET '', Bytes (drop 4 demo_http)]) = ReadOk demo_http"
proof -
  have "stream_bytes [Bytes ''GET '', Bytes (drop 4 demo_http)] = demo_http @ []"
    by (simp add: demo_http_def crlf_def header_terminator_def)
  from read_request_by_framing[OF _ this demo_head_end,
      where hs = "[\<lparr>h_name = ''Content-Length'', h_value = ''2''\<rparr>]" and parse = demo_parse]
  show ?thesis
    by (simp add: demo_parse_def message_framed_def demo_headers isize_max_def)
      (simp add: demo_http_def crlf_def header_terminator_def)
qed

theorem read_request_conserves_bytes_witness:
  "str_contains header_terminator demo_http"
proof -
  have "read_head [Bytes demo_http] [] = (Inr (demo_http, 18), [])"
    by (simp add: read_head.simps demo_head_end) (simp add: demo_http_def header_terminator_def)
  then have "fst (read_http_request demo_parse [Bytes demo_http]) = ReadOk demo_http"
    by (simp add: read_http_request_def demo_parse_def read_body_def demo_headers)
      (simp add: demo_http_def header_terminator_def)
  then obtain st' where "read_http_request demo_parse [Bytes demo_http] = (ReadOk demo_http, st')"
    by (metis prod.collapse)
  from read_request_conserves_bytes[OF this] show ?thesis by blast
qed

text \<open>
  A connection that closes before the head is complete is an error, never a request,
  however its bytes arrive.
\<close>

theorem incomplete_head_is_error:
  assumes "clean st" and "\<not> str_contains header_terminator (stream_bytes st)"
  shows "fst (read_http_request parse st) =
    ReadErr (Io (if stream_bytes st = [] then ''empty request from client''
                 else ''connection closed before headers complete''))"
proof -
  have "find_header_end ([] @ stream_bytes st) = None"
    using assms(2) by (simp add: find_header_end_find_sub str_contains_def)
  from read_head_error[OF assms(1) this] show ?thesis by (auto simp: read_http_request_def)
qed

theorem incomplete_head_is_error_witness:
  "fst (read_http_request demo_parse [Bytes ''GET / HT''])
     = ReadErr (Io ''connection closed before headers complete'')"
  using incomplete_head_is_error[of "[Bytes ''GET / HT'']" demo_parse]
  by (simp add: str_contains_def header_terminator_def)

text \<open>
  A client can crash the task that serves it with one header: when the announced
  length exceeds what has arrived by more than a vector may hold, allocating the body
  panics, whatever the rest of the request is.
\<close>

theorem huge_length_panics:
  assumes "clean st" and "find_header_end (stream_bytes st) = Some pos"
    and "\<And>buf t. stream_bytes st = buf @ t \<Longrightarrow> find_header_end buf = Some pos \<Longrightarrow> parse buf = Complete hs"
    and "scan_headers hs = (Some n, False)" and "isize_max + length (stream_bytes st) < n"
  shows "fst (read_http_request parse st) = CapacityPanic"
proof -
  from assms(2) have "find_header_end ([] @ stream_bytes st) = Some pos" by simp
  from read_head_clean[OF assms(1) _ this] obtain buf st1 where
    hd: "read_head st [] = (Inr (buf, pos), st1)"
    and all: "buf @ stream_bytes st1 = stream_bytes st"
    by (auto simp: find_header_end_def)
  from read_head_ok[OF hd] have he: "find_header_end buf = Some pos" by simp
  have ps: "parse buf = Complete hs" using all[symmetric] he by (rule assms(3))
  from all have "length (buf @ stream_bytes st1) = length (stream_bytes st)" by (rule arg_cong)
  then have "length buf \<le> length (stream_bytes st)" by simp
  with assms(5) have "isize_max < n - (length buf - pos)" "length buf - pos < n" by linarith+
  then show ?thesis by (simp add: read_http_request_def hd ps read_body_def assms(4))
qed

theorem huge_length_panics_witness:
  "fst (read_http_request (\<lambda>_. Complete [\<lparr>h_name = ''Content-Length'', h_value = show_nat (2 ^ 63 + 99)\<rparr>])
     [Bytes demo_http]) = CapacityPanic"
proof (rule huge_length_panics)
  let ?v = "show_nat (2 ^ 63 + 99)"
  have "parse_uint usize_bound ?v = Some (2 ^ 63 + 99)"
    by (rule parse_show_nat) (simp add: usize_bound_def)
  then show "scan_headers [\<lparr>h_name = ''Content-Length'', h_value = ?v\<rparr>] = (Some (2 ^ 63 + 99), False)"
    by (simp add: scan_headers_def scan_header_def header_text_def eq_ignore_ascii_case_def
        ascii_lower_def char_of_eq_iff)
  show "find_header_end (stream_bytes [Bytes demo_http]) = Some 18" by (simp add: demo_head_end)
qed (simp_all add: demo_http_def header_terminator_def isize_max_def)

text \<open>The chunked coding of a body (RFC 9112, without extensions or trailers).\<close>

fun hex_digit :: "nat \<Rightarrow> char" where
  "hex_digit n = (if n < 10 then char_of (48 + n) else char_of (87 + n))"

fun show_hex :: "nat \<Rightarrow> string" where
  "show_hex n = (if n < 16 then [hex_digit n] else show_hex (n div 16) @ [hex_digit (n mod 16)])"

declare show_hex.simps [simp del]

definition encode_chunked :: "string list \<Rightarrow> string" where
  "encode_chunked cs =
     concat (map (\<lambda>c. show_hex (length c) @ crlf @ c @ crlf) cs) @ body_terminator"

text \<open>
  A valid chunked body is cut short when a chunk whose size ends in the digit 0 carries
  data that begin with a line break: the reader takes the end of the size line for the
  terminator, and what follows never reaches the upstream.
\<close>

theorem chunked_body_cut_short:
  "fst (read_chunked_body [Bytes (encode_chunked [crlf @ ''abcdefghijklmn''])] [] 0)
     = Inr (show_hex 16 @ header_terminator)"
proof -
  let ?b = "encode_chunked [crlf @ ''abcdefghijklmn'']"
  have b: "?b = ''10'' @ header_terminator @ ''abcdefghijklmn'' @ crlf @ body_terminator"
    and h: "show_hex 16 = ''10''"
    by (simp_all add: encode_chunked_def show_hex.simps crlf_def header_terminator_def
        char_of_eq_iff)
  have "find_terminator ?b 0 = Some 6"
    unfolding b find_terminator_Some
    by (simp add: body_terminator_def header_terminator_def less_Suc_eq numeral_nat char_of_eq_iff)
  moreover have "clean [Bytes ?b]" by (simp add: b)
  ultimately show ?thesis
    using read_chunked_body_clean[of "[Bytes ?b]" 0 "[]"]
    by (auto simp: b h header_terminator_def)
qed
end
