(* ===== verification/Http_Rewrite.thy ===== *)
theory Http_Rewrite
  imports Rust_Text
begin

text \<open>
  The functions of \<open>crates/proxy/src/proxy.rs\<close> that inspect and rewrite the request a VM
  sends through the MITM proxy: \<open>is_websocket_upgrade\<close> and \<open>rewrite_request\<close>, with
  its error type. Both work on the lossy UTF-8 decoding of the whole request, headers and
  body alike.
\<close>

section \<open>WebSocket detection\<close>

definition is_websocket_upgrade :: "string \<Rightarrow> bool" where
  "is_websocket_upgrade raw =
     (let text = from_utf8_lossy raw;
          has_upgrade = list_ex (\<lambda>line. eq_ignore_ascii_case line ''connection: upgrade'')
                          (str_lines text);
          has_websocket = list_ex (\<lambda>line. str_contains ''upgrade: websocket'' (to_lowercase line))
                            (str_lines text)
      in has_upgrade \<and> has_websocket)"

section \<open>Rewriting\<close>

datatype rewrite_error = NoAuthHeader | UnknownDummyKey string

text \<open>\<open>line.split_once(':')\<close>, then the trimmed name compared without regard to case.\<close>

definition header_name_is :: "string \<Rightarrow> string \<Rightarrow> bool" where
  "header_name_is n line =
     (case split_once (CHR '':'') line of
        None \<Rightarrow> False
      | Some (name, _) \<Rightarrow> eq_ignore_ascii_case (trim name) n)"

definition bearer_token :: "string \<Rightarrow> string option" where
  "bearer_token line =
     (case split_once (CHR '':'') line of
        None \<Rightarrow> None
      | Some (name, value) \<Rightarrow>
          if eq_ignore_ascii_case (trim name) ''authorization''
          then map_option trim (strip_prefix ''Bearer '' (trim value))
          else None)"

fun find_map :: "('a \<Rightarrow> 'b option) \<Rightarrow> 'a list \<Rightarrow> 'b option" where
  "find_map f [] = None"
| "find_map f (x # xs) = (case f x of Some y \<Rightarrow> Some y | None \<Rightarrow> find_map f xs)"

definition auth_header :: "string \<Rightarrow> string" where
  "auth_header real_key = ''Authorization: Bearer '' @ real_key"

definition rewrite_host :: "string \<Rightarrow> string \<Rightarrow> string" where
  "rewrite_host host line = (if header_name_is ''host'' line then ''Host: '' @ host else line)"

definition insert_at_1 :: "'a \<Rightarrow> 'a list \<Rightarrow> 'a list" where
  "insert_at_1 x xs = (if 1 < length xs then take 1 xs @ x # drop 1 xs else xs)"

definition rewrite_request ::
  "string \<Rightarrow> (string, string) hashmap \<Rightarrow> string \<Rightarrow> (rewrite_error, string) result" where
  "rewrite_request raw keys host =
     (let text = from_utf8_lossy raw;
          lines = split_on crlf text
      in case find_map bearer_token lines of
           None \<Rightarrow> Inl NoAuthHeader
         | Some dummy_key \<Rightarrow>
             (case hm_get keys dummy_key of
                None \<Rightarrow> Inl (UnknownDummyKey dummy_key)
              | Some real_key \<Rightarrow>
                  (let kept = filter (\<lambda>line. \<not> header_name_is ''authorization'' line) lines;
                       hosted = map (rewrite_host host) kept;
                       final = insert_at_1 (auth_header real_key) hosted
                   in Inr (join crlf final))))"

section \<open>Facts about the lines of a request\<close>

abbreviation request_lines :: "string \<Rightarrow> string list" where
  "request_lines raw \<equiv> split_on crlf (from_utf8_lossy raw)"

definition presented_key :: "string \<Rightarrow> string option" where
  "presented_key raw = find_map bearer_token (request_lines raw)"

definition rewritten_lines :: "string \<Rightarrow> string \<Rightarrow> string \<Rightarrow> string list" where
  "rewritten_lines raw real_key host =
     insert_at_1 (auth_header real_key)
       (map (rewrite_host host)
         (filter (\<lambda>line. \<not> header_name_is ''authorization'' line) (request_lines raw)))"

lemma rewrite_request_eq:
  "rewrite_request raw keys host =
     (case presented_key raw of
        None \<Rightarrow> Inl NoAuthHeader
      | Some k \<Rightarrow> (case hm_get keys k of
          None \<Rightarrow> Inl (UnknownDummyKey k)
        | Some r \<Rightarrow> Inr (join crlf (rewritten_lines raw r host))))"
  by (simp add: rewrite_request_def presented_key_def rewritten_lines_def Let_def
      split: option.splits)

lemma find_map_None: "find_map f xs = None \<longleftrightarrow> (\<forall>x\<in>set xs. f x = None)"
  by (induction xs) (auto split: option.splits)

lemma find_map_Some: "find_map f xs = Some y \<Longrightarrow> \<exists>x\<in>set xs. f x = Some y"
  by (induction xs) (auto split: option.splits)

lemma bearer_is_auth: "bearer_token l = Some k \<Longrightarrow> header_name_is ''authorization'' l"
  by (auto simp: bearer_token_def header_name_is_def split: option.splits if_splits)

lemma set_insert_at_1: "1 < length xs \<Longrightarrow> set (insert_at_1 x xs) = insert x (set xs)"
proof -
  assume "1 < length xs"
  have "set xs = set (take 1 xs) \<union> set (drop 1 xs)"
    by (metis append_take_drop_id set_append)
  with \<open>1 < length xs\<close> show ?thesis by (simp add: insert_at_1_def)
qed

lemma insert_at_1_nonempty: "xs \<noteq> [] \<Longrightarrow> insert_at_1 x xs \<noteq> []"
  by (simp add: insert_at_1_def)

lemma set_insert_at_1_subset: "set (insert_at_1 x xs) \<subseteq> insert x (set xs)"
  using set_take_subset[of 1 xs] set_drop_subset[of 1 xs] by (auto simp: insert_at_1_def)

lemma split_once_literal:
  "CHR '':'' \<notin> set n \<Longrightarrow> split_once (CHR '':'') (n @ CHR '':'' # v) = Some (n, v)"
  by (rule split_once_app)

lemma header_name_is_app:
  "CHR '':'' \<notin> set n \<Longrightarrow>
     header_name_is m (n @ CHR '':'' # v) = eq_ignore_ascii_case (trim n) m"
  by (simp add: header_name_is_def split_once_app)

lemma trim_Authorization: "trim ''Authorization'' = ''Authorization''"
  by (rule trim_visible) (simp_all add: visible_def)

lemma trim_Host: "trim ''Host'' = ''Host''"
  by (rule trim_visible) (simp_all add: visible_def)

lemma auth_header_is_auth [simp]: "header_name_is ''authorization'' (auth_header r)"
  using header_name_is_app[of "''Authorization''" "''authorization''" "'' Bearer '' @ r"]
  by (simp add: auth_header_def trim_Authorization eq_ignore_ascii_case_def ascii_lower_def
      char_of_eq_iff)

lemma host_line_not_auth [simp]: "\<not> header_name_is ''authorization'' (''Host: '' @ h)"
  using header_name_is_app[of "''Host''" "''authorization''" "'' '' @ h"]
  by (simp add: trim_Host eq_ignore_ascii_case_def ascii_lower_def)

lemma host_line_is_host [simp]: "header_name_is ''host'' (''Host: '' @ h)"
  using header_name_is_app[of "''Host''" "''host''" "'' '' @ h"]
  by (simp add: trim_Host eq_ignore_ascii_case_def ascii_lower_def char_of_eq_iff)

lemma rewrite_host_not_auth:
  "\<not> header_name_is ''authorization'' l \<Longrightarrow> \<not> header_name_is ''authorization'' (rewrite_host h l)"
  by (simp add: rewrite_host_def del: append_Cons)


text \<open>What the upstream sees: the lines of the forwarded request are exactly the
  rewritten lines, if neither the real key nor the host brings a line break of its own.\<close>

lemma request_lines_no_crlf: "l \<in> set (request_lines raw) \<Longrightarrow> \<not> str_contains crlf l"
  by (rule split_on_pieces) simp_all

lemma contains_in_suffix:
  assumes "str_contains crlf (p @ s)" and "CR \<notin> set p"
  shows "str_contains crlf s"
proof -
  from assms(1) obtain a b where ab: "p @ s = a @ crlf @ b" by (auto simp: str_contains_iff)
  have "length p \<le> length a"
  proof (rule ccontr)
    assume "\<not> length p \<le> length a"
    then have "p ! length a = (p @ s) ! length a" by (simp add: nth_append)
    also have "\<dots> = CR" unfolding ab by (simp add: crlf_def nth_append)
    finally show False using assms(2) \<open>\<not> length p \<le> length a\<close>
      by (metis not_le nth_mem)
  qed
  with ab have "s = drop (length p) a @ crlf @ b"
    by (metis append_eq_append_conv_if append_eq_conv_conj drop_append diff_is_0_eq' drop0)
  then show ?thesis by (auto simp: str_contains_iff)
qed

lemma rewritten_no_crlf:
  assumes "\<not> str_contains crlf r" and "\<not> str_contains crlf host"
    and "l \<in> set (rewritten_lines raw r host)"
  shows "\<not> str_contains crlf l"
proof -
  have lit: "\<not> str_contains crlf (p @ s)"
    if "\<not> str_contains crlf s" "CR \<notin> set p" for p s
    using that contains_in_suffix by blast
  from assms(3) have "l = auth_header r \<or> (\<exists>k\<in>set (request_lines raw). l = rewrite_host host k)"
    using set_insert_at_1_subset unfolding rewritten_lines_def by fastforce
  moreover have "\<not> str_contains crlf (auth_header r)"
    unfolding auth_header_def by (rule lit[OF assms(1)]) simp
  moreover have "\<not> str_contains crlf (rewrite_host host k)" if "k \<in> set (request_lines raw)" for k
  proof -
    have "\<not> str_contains crlf (''Host: '' @ host)" by (rule lit[OF assms(2)]) simp
    with request_lines_no_crlf[OF that] show ?thesis
      by (simp add: rewrite_host_def del: append_Cons)
  qed
  ultimately show ?thesis by auto
qed

definition two_plain_lines :: "string \<Rightarrow> bool" where
  "two_plain_lines raw \<longleftrightarrow>
     1 < length (filter (\<lambda>l. \<not> header_name_is ''authorization'' l) (request_lines raw))"

lemma rewritten_nonempty: "two_plain_lines raw \<Longrightarrow> rewritten_lines raw r host \<noteq> []"
  unfolding rewritten_lines_def two_plain_lines_def by (intro insert_at_1_nonempty) auto

lemma split_rewritten:
  assumes "\<not> str_contains crlf r" and "\<not> str_contains crlf host" and "two_plain_lines raw"
  shows "split_on crlf (join crlf (rewritten_lines raw r host)) = rewritten_lines raw r host"
  using rewritten_no_crlf[OF assms(1,2)] rewritten_nonempty[OF assms(3)]
  by (intro split_join_crlf)

lemma filter_insert_at_1:
  "1 < length xs \<Longrightarrow> filter P (insert_at_1 x xs) =
     filter P (take 1 xs) @ (if P x then [x] else []) @ filter P (drop 1 xs)"
  by (simp add: insert_at_1_def)

lemma filter_take_none: "\<forall>l\<in>set xs. \<not> P l \<Longrightarrow> filter P (take n xs) = []"
  by (auto simp: filter_empty_conv dest: in_set_takeD)

lemma filter_drop_none: "\<forall>l\<in>set xs. \<not> P l \<Longrightarrow> filter P (drop n xs) = []"
  by (auto simp: filter_empty_conv dest: in_set_dropD)

lemma rewritten_auth_lines:
  assumes "two_plain_lines raw"
  shows "filter (header_name_is ''authorization'') (rewritten_lines raw r host) = [auth_header r]"
proof -
  let ?xs = "map (rewrite_host host)
    (filter (\<lambda>l. \<not> header_name_is ''authorization'' l) (request_lines raw))"
  have none: "\<forall>l\<in>set ?xs. \<not> header_name_is ''authorization'' l"
    by (auto simp: rewrite_host_not_auth)
  from assms have len: "1 < length ?xs" by (simp add: two_plain_lines_def)
  show ?thesis
    unfolding rewritten_lines_def filter_insert_at_1[OF len] filter_take_none[OF none]
      filter_drop_none[OF none] by simp
qed

lemma rewritten_host_lines:
  assumes "l \<in> set (rewritten_lines raw r host)" and "header_name_is ''host'' l"
  shows "l = ''Host: '' @ host"
proof -
  have "\<not> header_name_is ''host'' (auth_header r)"
    using header_name_is_app[of "''Authorization''" "''host''" "'' Bearer '' @ r"]
    by (simp add: auth_header_def trim_Authorization eq_ignore_ascii_case_def)
  moreover from assms(1) have "l = auth_header r \<or> (\<exists>k. l = rewrite_host host k)"
    using set_insert_at_1_subset unfolding rewritten_lines_def by fastforce
  ultimately show ?thesis using assms(2) by (auto simp: rewrite_host_def split: if_splits)
qed

text \<open>Lines that are neither authorization nor host headers pass as they are.\<close>

abbreviation plain_line :: "string \<Rightarrow> bool" where
  "plain_line l \<equiv> \<not> header_name_is ''authorization'' l \<and> \<not> header_name_is ''host'' l"

lemma auth_not_host: "\<not> header_name_is ''host'' (auth_header r)"
  using header_name_is_app[of "''Authorization''" "''host''" "'' Bearer '' @ r"]
  by (simp add: auth_header_def trim_Authorization eq_ignore_ascii_case_def)

lemma filter_insert_at_1_not: "\<not> P x \<Longrightarrow> filter P (insert_at_1 x xs) = filter P xs"
  by (simp add: insert_at_1_def) (metis append_take_drop_id filter_append)

lemma rewritten_plain_lines:
  "filter plain_line (rewritten_lines raw r host) = filter plain_line (request_lines raw)"
proof -
  have "filter plain_line (map (rewrite_host host)
      (filter (\<lambda>l. \<not> header_name_is ''authorization'' l) ls)) = filter plain_line ls" for ls
    by (induction ls) (auto simp: rewrite_host_def simp del: append_Cons)
  then show ?thesis
    by (simp add: rewritten_lines_def filter_insert_at_1_not)
qed

section \<open>Properties\<close>



text \<open>
  C7. What a forwarded request is: exactly one Authorization line, which carries the real
  key of the presented dummy key; every Host line names the host of the tunnel; all other
  lines are those of the request, unchanged and in order.
\<close>

theorem rewritten_request_lines:
  assumes "rewrite_request raw keys host = Inr out" and "two_plain_lines raw"
    and "\<forall>r\<in>set (hm_values keys). \<not> str_contains crlf r" and "\<not> str_contains crlf host"
  shows "\<exists>d r. presented_key raw = Some d \<and> hm_get keys d = Some r
    \<and> filter (header_name_is ''authorization'') (split_on crlf out) = [''Authorization: Bearer '' @ r]
    \<and> (\<forall>l\<in>set (split_on crlf out). header_name_is ''host'' l \<longrightarrow> l = ''Host: '' @ host)
    \<and> filter plain_line (split_on crlf out) = filter plain_line (request_lines raw)"
proof -
  from assms(1) obtain d r where d: "presented_key raw = Some d" "hm_get keys d = Some r"
    and out: "out = join crlf (rewritten_lines raw r host)"
    by (auto simp: rewrite_request_eq split: option.splits)
  from d(2) have "r \<in> set (hm_values keys)"
    by (force simp: hm_values_def dest: hm_get_Some_in)
  with assms(3) have "\<not> str_contains crlf r" by blast
  then have lines: "split_on crlf out = rewritten_lines raw r host"
    unfolding out using assms(4,2) by (rule split_rewritten)
  have "filter (header_name_is ''authorization'') (split_on crlf out)
      = [''Authorization: Bearer '' @ r]"
    unfolding lines rewritten_auth_lines[OF assms(2)] auth_header_def ..
  moreover have "\<forall>l\<in>set (split_on crlf out). header_name_is ''host'' l \<longrightarrow> l = ''Host: '' @ host"
    unfolding lines using rewritten_host_lines by blast
  moreover have "filter plain_line (split_on crlf out) = filter plain_line (request_lines raw)"
    unfolding lines by (rule rewritten_plain_lines)
  ultimately show ?thesis using d by blast
qed

text \<open>
  Key confinement: the forwarded request depends on the key map only through the key it
  presents. Two maps that agree on that one key give the same bytes, so no other real key of
  the session, and none of another session, can be in them.
\<close>

theorem rewrite_uses_one_key:
  assumes "\<And>d. presented_key raw = Some d \<Longrightarrow> hm_get keys d = hm_get keys' d"
  shows "rewrite_request raw keys host = rewrite_request raw keys' host"
  using assms by (simp add: rewrite_request_eq split: option.splits)

section \<open>A request to evaluate on\<close>

definition demo_lines :: "string list" where
  "demo_lines = [''POST / HTTP/1.1'', ''Host: a'', ''Authorization: Bearer d'', ''Content-Length: 7'',
     [], ''Host: a'']"

definition demo_raw :: string where
  "demo_raw = join crlf demo_lines"

lemma trims [simp]:
  "trim ''Host'' = ''Host''" "trim ''Content-Length'' = ''Content-Length''"
  "trim ''Authorization'' = ''Authorization''" "trim ''d'' = ''d''"
  "trim '' Bearer d'' = ''Bearer d''"
proof -
  show "trim ''Host'' = ''Host''" "trim ''Content-Length'' = ''Content-Length''"
    "trim ''Authorization'' = ''Authorization''" "trim ''d'' = ''d''"
    by (rule trim_visible; simp add: visible_def)+
  have "trim_start '' Bearer d'' = ''Bearer d''"
    by (simp add: trim_start_def trim_by.simps ws_len_def)
  moreover have "trim ''Bearer d'' = ''Bearer d''"
    by (rule trim_visible) (simp_all add: visible_def)
  moreover have "trim_start ''Bearer d'' = ''Bearer d''"
    by (simp add: trim_start_def trim_by.simps ws_len_def)
  ultimately show "trim '' Bearer d'' = ''Bearer d''" by (simp add: trim_def)
qed

lemma demo_request_lines: "request_lines demo_raw = demo_lines"
proof -
  have "from_utf8_lossy demo_raw = demo_raw"
    by (intro lossy_valid_id utf8_valid_ascii) (simp add: demo_raw_def demo_lines_def crlf_def)
  moreover have "split_on crlf demo_raw = demo_lines"
    unfolding demo_raw_def
    by (rule split_join_crlf) (auto simp: demo_lines_def str_contains_def crlf_def)
  ultimately show ?thesis by simp
qed

lemma demo_classes:
  "map (header_name_is ''authorization'') demo_lines = [False, False, True, False, False, False]"
  "map (header_name_is ''host'') demo_lines = [False, True, False, False, False, True]"
  by (simp_all add: demo_lines_def header_name_is_def split_once_def eq_ignore_ascii_case_def
      ascii_lower_def char_of_eq_iff)

lemma demo_presented: "presented_key demo_raw = Some ''d''"
  by (simp add: presented_key_def demo_request_lines demo_lines_def bearer_token_def split_once_def
      eq_ignore_ascii_case_def ascii_lower_def char_of_eq_iff strip_prefix_def)

lemma demo_two_plain: "two_plain_lines demo_raw"
  using demo_classes(1) by (simp add: two_plain_lines_def demo_request_lines demo_lines_def)

lemma demo_rewritten: "rewritten_lines demo_raw ''r'' ''host.name'' =
   [''POST / HTTP/1.1'', ''Authorization: Bearer r'', ''Host: host.name'', ''Content-Length: 7'',
     [], ''Host: host.name'']"
  using demo_classes
  by (simp add: rewritten_lines_def demo_request_lines demo_lines_def rewrite_host_def
      insert_at_1_def auth_header_def)

theorem rewritten_request_lines_witness:
  "\<exists>out. rewrite_request demo_raw [(''d'', ''r'')] ''host.name'' = Inr out
     \<and> filter (header_name_is ''authorization'') (split_on crlf out) = [''Authorization: Bearer r'']"
proof -
  obtain out where out: "rewrite_request demo_raw [(''d'', ''r'')] ''host.name'' = Inr out"
    by (simp add: rewrite_request_eq demo_presented hm_get_def)
  have "\<not> str_contains crlf ''r''" "\<not> str_contains crlf ''host.name''"
    by (simp_all add: str_contains_def crlf_def)
  with rewritten_request_lines[OF out demo_two_plain] out show ?thesis
    by (auto simp: hm_values_def hm_get_def demo_presented)
qed

theorem rewrite_uses_one_key_witness:
  "rewrite_request demo_raw [(''d'', ''r''), (''e'', ''s'')] ''host.name''
     = rewrite_request demo_raw [(''d'', ''r'')] ''host.name''"
  by (rule rewrite_uses_one_key) (simp add: demo_presented hm_get_def)

text \<open>
  The rewriting does not stop at the end of the head: it works on the lines of the whole
  request, so a body line that looks like a Host header is replaced, and the body no longer
  has the length the request announces.
\<close>

theorem rewrite_alters_body:
  "demo_raw = join crlf [''POST / HTTP/1.1'', ''Host: a'', ''Authorization: Bearer d'',
       ''Content-Length: 7''] @ crlf @ crlf @ ''Host: a''
   \<and> rewrite_request demo_raw [(''d'', ''r'')] ''host.name''
     = Inr (join crlf [''POST / HTTP/1.1'', ''Authorization: Bearer r'', ''Host: host.name'',
       ''Content-Length: 7''] @ crlf @ crlf @ ''Host: host.name'')"
proof
  show "demo_raw = join crlf [''POST / HTTP/1.1'', ''Host: a'', ''Authorization: Bearer d'',
       ''Content-Length: 7''] @ crlf @ crlf @ ''Host: a''"
    by (simp add: demo_raw_def demo_lines_def)
  have "rewrite_request demo_raw [(''d'', ''r'')] ''host.name''
      = Inr (join crlf (rewritten_lines demo_raw ''r'' ''host.name''))"
    by (simp add: rewrite_request_eq demo_presented hm_get_def)
  then show "rewrite_request demo_raw [(''d'', ''r'')] ''host.name''
     = Inr (join crlf [''POST / HTTP/1.1'', ''Authorization: Bearer r'', ''Host: host.name'',
       ''Content-Length: 7''] @ crlf @ crlf @ ''Host: host.name'')"
    unfolding demo_rewritten by simp
qed

end
