(* ===== verification/Copy_Stream.thy ===== *)
theory Copy_Stream
  imports Http_Bytes
begin

text \<open>
  \<open>crates/proxy/src/stream.rs\<close>: \<open>copy_bidirectional\<close>. One iteration of its
  \<open>select!\<close> loop is \<open>copy_branch\<close>, given which of the two reads completed and how
  the write that follows ends; which read completes first is not determined, so the loop
  is the step relation \<open>copy_step\<close>. After the client has ended its side only the
  inner loop runs (phase \<open>Drain\<close>), which reads the upstream alone.
\<close>

datatype side = UpstreamReady | ClientReady

datatype write_result = Written | WriteFailed nat string

datatype copy_phase = Relay | Drain | Finished | Aborted string

record copy_state =
  phase :: copy_phase
  upstream_in :: stream
  client_in :: stream
  client_out :: string
  upstream_out :: string

definition copy_buf_size :: nat where "copy_buf_size = 8 * 1024"

text \<open>The branch \<open>upstream.read\<close>, also the body of the inner loop.\<close>

definition copy_upstream_branch :: "write_result \<Rightarrow> copy_state \<Rightarrow> copy_state" where
  "copy_upstream_branch w s =
     (case stream_read copy_buf_size (upstream_in s) of
        (Inl e, r) \<Rightarrow> s\<lparr>phase := Aborted e, upstream_in := r\<rparr>
      | (Inr b, r) \<Rightarrow>
          if b = [] then s\<lparr>phase := Finished, upstream_in := r\<rparr>
          else (case w of
                  Written \<Rightarrow> s\<lparr>upstream_in := r, client_out := client_out s @ b\<rparr>
                | WriteFailed n e \<Rightarrow>
                    s\<lparr>phase := Aborted e, upstream_in := r,
                      client_out := client_out s @ take n b\<rparr>))"

definition copy_client_branch :: "write_result \<Rightarrow> copy_state \<Rightarrow> copy_state" where
  "copy_client_branch w s =
     (case stream_read copy_buf_size (client_in s) of
        (Inl e, r) \<Rightarrow> s\<lparr>phase := Aborted e, client_in := r\<rparr>
      | (Inr b, r) \<Rightarrow>
          if b = [] then s\<lparr>phase := Drain, client_in := r\<rparr>
          else (case w of
                  Written \<Rightarrow> s\<lparr>client_in := r, upstream_out := upstream_out s @ b\<rparr>
                | WriteFailed n e \<Rightarrow>
                    s\<lparr>phase := Aborted e, client_in := r,
                      upstream_out := upstream_out s @ take n b\<rparr>))"

fun branch_enabled :: "copy_phase \<Rightarrow> side \<Rightarrow> bool" where
  "branch_enabled Relay _ = True"
| "branch_enabled Drain UpstreamReady = True"
| "branch_enabled _ _ = False"

fun copy_branch :: "side \<Rightarrow> write_result \<Rightarrow> copy_state \<Rightarrow> copy_state" where
  "copy_branch UpstreamReady w s = copy_upstream_branch w s"
| "copy_branch ClientReady w s = copy_client_branch w s"

inductive copy_step :: "copy_state \<Rightarrow> copy_state \<Rightarrow> bool" where
  branch: "branch_enabled (phase s) sd \<Longrightarrow> copy_step s (copy_branch sd w s)"

inductive_cases copy_stepE: "copy_step s t"

definition copy_start :: "stream \<Rightarrow> stream \<Rightarrow> copy_state" where
  "copy_start up cl = \<lparr>phase = Relay, upstream_in = up, client_in = cl,
     client_out = [], upstream_out = []\<rparr>"

inductive copy_reach :: "copy_state \<Rightarrow> copy_state \<Rightarrow> bool" where
  refl: "copy_reach s s"
| step: "copy_reach s t \<Longrightarrow> copy_step t u \<Longrightarrow> copy_reach s u"

section \<open>Bytes arrive in order\<close>

definition relayed :: "stream \<Rightarrow> stream \<Rightarrow> copy_state \<Rightarrow> bool" where
  "relayed up cl s \<longleftrightarrow>
     (\<exists>d. stream_bytes up = client_out s @ d @ stream_bytes (upstream_in s)
        \<and> ((\<forall>e. phase s \<noteq> Aborted e) \<longrightarrow> d = []))
   \<and> (\<exists>d. stream_bytes cl = upstream_out s @ d @ stream_bytes (client_in s)
        \<and> ((\<forall>e. phase s \<noteq> Aborted e) \<longrightarrow> d = []))"

lemma stream_read_err_bytes:
  "stream_read n st = (Inl e, st') \<Longrightarrow> stream_bytes st' = stream_bytes st"
  by (induction n st rule: stream_read.induct) (auto split: if_splits)

lemma relayed_start: "relayed up cl (copy_start up cl)"
  by (simp add: relayed_def copy_start_def)

lemma relayed_upstream:
  assumes "relayed up cl s" and "\<forall>e. phase s \<noteq> Aborted e"
  shows "relayed up cl (copy_upstream_branch w s)"
proof -
  from assms have up: "stream_bytes up = client_out s @ stream_bytes (upstream_in s)"
    and cl: "stream_bytes cl = upstream_out s @ stream_bytes (client_in s)"
    by (auto simp: relayed_def)
  obtain x r where rd: "stream_read copy_buf_size (upstream_in s) = (x, r)" by fastforce
  show ?thesis
  proof (cases x)
    case (Inl e)
    with rd have "stream_bytes r = stream_bytes (upstream_in s)"
      by (simp add: stream_read_err_bytes)
    with rd Inl up cl show ?thesis by (simp add: copy_upstream_branch_def relayed_def)
  next
    case (Inr b)
    with rd have "stream_bytes (upstream_in s) = b @ stream_bytes r"
      by (simp add: stream_read_bytes)
    moreover have "\<exists>d. b = take n b @ d" for n by (metis append_take_drop_id)
    ultimately show ?thesis
      using rd Inr up cl by (auto simp: copy_upstream_branch_def relayed_def split: write_result.splits)
  qed
qed

lemma relayed_client:
  assumes "relayed up cl s" and "\<forall>e. phase s \<noteq> Aborted e"
  shows "relayed up cl (copy_client_branch w s)"
proof -
  from assms have up: "stream_bytes up = client_out s @ stream_bytes (upstream_in s)"
    and cl: "stream_bytes cl = upstream_out s @ stream_bytes (client_in s)"
    by (auto simp: relayed_def)
  obtain x r where rd: "stream_read copy_buf_size (client_in s) = (x, r)" by fastforce
  show ?thesis
  proof (cases x)
    case (Inl e)
    with rd have "stream_bytes r = stream_bytes (client_in s)"
      by (simp add: stream_read_err_bytes)
    with rd Inl up cl show ?thesis by (simp add: copy_client_branch_def relayed_def)
  next
    case (Inr b)
    with rd have "stream_bytes (client_in s) = b @ stream_bytes r"
      by (simp add: stream_read_bytes)
    moreover have "\<exists>d. b = take n b @ d" for n by (metis append_take_drop_id)
    ultimately show ?thesis
      using rd Inr up cl by (auto simp: copy_client_branch_def relayed_def split: write_result.splits)
  qed
qed

lemma enabled_not_aborted: "branch_enabled p sd \<Longrightarrow> p \<noteq> Aborted e"
  by (cases p; cases sd) auto

lemma relayed_step: "copy_step s t \<Longrightarrow> relayed up cl s \<Longrightarrow> relayed up cl t"
  by (erule copy_stepE, rename_tac sd w, case_tac sd)
    (auto dest: enabled_not_aborted intro: relayed_upstream relayed_client)

lemma relayed_reach: "copy_reach s t \<Longrightarrow> relayed up cl s \<Longrightarrow> relayed up cl t"
  by (induction rule: copy_reach.induct) (auto intro: relayed_step)

section \<open>The upstream side decides the end\<close>

lemma finished_step:
  assumes "copy_step s t" and "phase t = Finished"
  shows "\<exists>r. stream_read copy_buf_size (upstream_in s) = (Inr [], r) \<and> upstream_in t = r"
  using assms
  by (elim copy_stepE, rename_tac sd w, case_tac sd)
    (auto simp: copy_upstream_branch_def copy_client_branch_def
      split: prod.splits sum.splits if_splits write_result.splits)

text \<open>Streams stay clean as they are read.\<close>

lemma clean_stream_read: "clean st \<Longrightarrow> 0 < n \<Longrightarrow> stream_read n st = (r, st') \<Longrightarrow> clean st'"
  using clean_read[of st n] by (metis Pair_inject)

lemma clean_step:
  assumes "copy_step s t" and "clean (upstream_in s)"
  shows "clean (upstream_in t)"
proof -
  have "clean r" if "stream_read copy_buf_size (upstream_in s) = (x, r)" for x r
    using clean_stream_read[OF assms(2) _ that] by (simp add: copy_buf_size_def)
  with assms show ?thesis
    by (elim copy_stepE, rename_tac sd w, case_tac sd)
      (auto simp: copy_upstream_branch_def copy_client_branch_def
        split: prod.splits sum.splits if_splits write_result.splits)
qed

lemma clean_reach: "copy_reach s t \<Longrightarrow> clean (upstream_in s) \<Longrightarrow> clean (upstream_in t)"
  by (induction rule: copy_reach.induct) (auto intro: clean_step)

lemma clean_eof: "clean st \<Longrightarrow> 0 < n \<Longrightarrow> stream_read n st = (Inr [], r) \<Longrightarrow> stream_bytes st = []"
  using clean_read[of st n] by (metis Inr_inject Pair_inject)

section \<open>The loop ends\<close>

fun phase_rank :: "copy_phase \<Rightarrow> nat" where
  "phase_rank Relay = 2"
| "phase_rank Drain = 1"
| "phase_rank _ = 0"

definition copy_measure :: "copy_state \<Rightarrow> nat" where
  "copy_measure s = stream_size (upstream_in s) + stream_size (client_in s) + phase_rank (phase s)"

lemma stream_read_size_le: "stream_read n st = (r, st') \<Longrightarrow> stream_size st' \<le> stream_size st"
  by (induction n st rule: stream_read.induct) (auto split: if_splits)

lemma copy_step_measure:
  assumes "copy_step s t"
  shows "copy_measure t < copy_measure s"
proof -
  from assms obtain sd w where en: "branch_enabled (phase s) sd" and t: "t = copy_branch sd w s"
    by (elim copy_stepE) auto
  have rank: "0 < phase_rank (phase s)" using en by (cases "phase s"; cases sd) auto
  show ?thesis
  proof (cases sd)
    case UpstreamReady
    obtain x r where rd: "stream_read copy_buf_size (upstream_in s) = (x, r)" by fastforce
    have le: "stream_size r \<le> stream_size (upstream_in s)" by (rule stream_read_size_le[OF rd])
    show ?thesis
    proof (cases "\<exists>b. x = Inr b \<and> b \<noteq> [] \<and> w = Written")
      case True
      with rd have "stream_size r < stream_size (upstream_in s)" by (auto intro: stream_read_size)
      with True rd t UpstreamReady show ?thesis
        by (auto simp: copy_upstream_branch_def copy_measure_def)
    next
      case False
      with rd le rank t UpstreamReady show ?thesis
        by (auto simp: copy_upstream_branch_def copy_measure_def
            split: sum.splits write_result.splits)
    qed
  next
    case ClientReady
    obtain x r where rd: "stream_read copy_buf_size (client_in s) = (x, r)" by fastforce
    have le: "stream_size r \<le> stream_size (client_in s)" by (rule stream_read_size_le[OF rd])
    from en ClientReady have relay: "phase s = Relay" by (cases "phase s") auto
    show ?thesis
    proof (cases "\<exists>b. x = Inr b \<and> b \<noteq> [] \<and> w = Written")
      case True
      with rd have "stream_size r < stream_size (client_in s)" by (auto intro: stream_read_size)
      with True rd t ClientReady show ?thesis
        by (auto simp: copy_client_branch_def copy_measure_def)
    next
      case False
      with rd le relay t ClientReady show ?thesis
        by (auto simp: copy_client_branch_def copy_measure_def
            split: sum.splits write_result.splits)
    qed
  qed
qed

definition copy_done :: "copy_state \<Rightarrow> bool" where
  "copy_done s = (phase s \<noteq> Relay \<and> phase s \<noteq> Drain)"

lemma copy_progress: "\<not> copy_done s \<Longrightarrow> \<exists>t. copy_step s t"
proof -
  assume "\<not> copy_done s"
  then have "branch_enabled (phase s) UpstreamReady" by (cases "phase s") (auto simp: copy_done_def)
  then show ?thesis by (blast intro: copy_step.branch)
qed

lemma copy_done_no_step: "copy_done s \<Longrightarrow> \<not> copy_step s t"
  by (auto elim!: copy_stepE simp: copy_done_def) (metis branch_enabled.elims(2))

lemma copy_reach_measure: "copy_reach s t \<Longrightarrow> copy_measure t \<le> copy_measure s"
  by (induction rule: copy_reach.induct) (auto dest: copy_step_measure)

lemma copy_reach_trans: "copy_reach t u \<Longrightarrow> copy_reach s t \<Longrightarrow> copy_reach s u"
  by (induction rule: copy_reach.induct) (auto intro: copy_reach.step)

lemma copy_reach_done: "\<exists>t. copy_reach s t \<and> copy_done t"
proof (induction "copy_measure s" arbitrary: s rule: less_induct)
  case less
  show ?case
  proof (cases "copy_done s")
    case True
    then show ?thesis using copy_reach.refl by blast
  next
    case False
    from copy_progress[OF this] obtain t where t: "copy_step s t" by blast
    from less[OF copy_step_measure[OF t]] obtain u where "copy_reach t u" "copy_done u" by blast
    then show ?thesis
      using copy_reach_trans copy_reach.step[OF copy_reach.refl t] by blast
  qed
qed

text \<open>The phase \<open>Drain\<close> is entered only at the client's end, and the client is not read again.\<close>

definition drained :: "copy_state \<Rightarrow> bool" where
  "drained s \<longleftrightarrow> clean (client_in s) \<and> (phase s = Drain \<longrightarrow> stream_bytes (client_in s) = [])"

lemma drained_step:
  assumes "copy_step s t" and "drained s"
  shows "drained t"
proof -
  from assms(2) have cl: "clean (client_in s)" by (simp add: drained_def)
  have rd: "clean r" "b = [] \<Longrightarrow> stream_bytes r = []"
    if "stream_read copy_buf_size (client_in s) = (Inr b, r)" for b r
  proof -
    show "clean r" using clean_stream_read[OF cl _ that] by (simp add: copy_buf_size_def)
    assume "b = []"
    with that have "stream_bytes (client_in s) = []"
      using clean_eof[OF cl, of copy_buf_size] by (simp add: copy_buf_size_def)
    with stream_read_bytes[OF that] show "stream_bytes r = []" by simp
  qed
  have er: "clean r" if "stream_read copy_buf_size (client_in s) = (Inl e, r)" for e r
    using clean_stream_read[OF cl _ that] by (simp add: copy_buf_size_def)
  from assms show ?thesis
    by (elim copy_stepE, rename_tac sd w, case_tac sd)
      (auto simp: copy_upstream_branch_def copy_client_branch_def drained_def
        dest: rd er split: prod.splits sum.splits if_splits write_result.splits)
qed

section \<open>Properties\<close>

text \<open>
  C20. However reads and failing writes interleave, each side receives a prefix of what the
  other side sent: nothing is reordered, duplicated or invented.
\<close>

theorem copy_delivers_prefixes:
  assumes "copy_reach (copy_start up cl) s"
  shows "(\<exists>t. stream_bytes up = client_out s @ t) \<and> (\<exists>t. stream_bytes cl = upstream_out s @ t)"
  using relayed_reach[OF assms relayed_start] by (auto simp: relayed_def)

theorem copy_delivers_prefixes_witness:
  "\<exists>s. copy_reach (copy_start [Bytes ''ab''] [Bytes ''cd'']) s \<and> upstream_out s = ''c''
     \<and> (\<exists>t. ''cd'' = upstream_out s @ t)"
proof -
  let ?s = "copy_start [Bytes ''ab''] [Bytes ''cd'']"
  let ?t = "copy_branch ClientReady (WriteFailed 1 ''broken pipe'') ?s"
  have "copy_step ?s ?t" by (rule copy_step.branch) (simp add: copy_start_def)
  then have r: "copy_reach ?s ?t" by (blast intro: copy_reach.intros)
  have "upstream_out ?t = ''c''"
    by (simp add: copy_client_branch_def copy_start_def copy_buf_size_def)
  with r copy_delivers_prefixes[OF r] show ?thesis by (intro exI[of _ ?t]) simp
qed

text \<open>
  C19. Complete delivery: when the loop ends normally, the client has received everything the
  upstream sent; once the client's end has been seen, the upstream has received everything
  the client sent.
\<close>

theorem copy_delivers_all:
  assumes "copy_reach (copy_start up cl) s"
  shows "(clean up \<and> phase s = Finished \<longrightarrow> client_out s = stream_bytes up)
    \<and> (clean cl \<and> phase s = Drain \<longrightarrow> upstream_out s = stream_bytes cl)"
proof
  note rel = relayed_reach[OF assms relayed_start]
  show "clean up \<and> phase s = Finished \<longrightarrow> client_out s = stream_bytes up"
  proof
    assume "clean up \<and> phase s = Finished"
    then have up: "clean up" and fin: "phase s = Finished" by simp_all
    from assms fin obtain t where t: "copy_reach (copy_start up cl) t" "copy_step t s"
      by (cases rule: copy_reach.cases) (auto simp: copy_start_def)
    from clean_reach[OF t(1)] up have cl: "clean (upstream_in t)" by (simp add: copy_start_def)
    from finished_step[OF t(2) fin] obtain r where
      r: "stream_read copy_buf_size (upstream_in t) = (Inr [], r)" "upstream_in s = r" by blast
    from clean_eof[OF cl _ r(1)] stream_read_bytes[OF r(1)] r(2)
    have "stream_bytes (upstream_in s) = []" by (simp add: copy_buf_size_def)
    with rel fin show "client_out s = stream_bytes up" by (simp add: relayed_def)
  qed
  show "clean cl \<and> phase s = Drain \<longrightarrow> upstream_out s = stream_bytes cl"
  proof
    assume "clean cl \<and> phase s = Drain"
    then have cl: "clean cl" and dr: "phase s = Drain" by simp_all
    from cl have start: "drained (copy_start up cl)" by (simp add: drained_def copy_start_def)
    have "copy_reach x y \<Longrightarrow> drained x \<Longrightarrow> drained y" for x y
      by (induction rule: copy_reach.induct) (auto intro: drained_step)
    from this[OF assms start] dr have "stream_bytes (client_in s) = []" by (simp add: drained_def)
    with rel dr show "upstream_out s = stream_bytes cl" by (simp add: relayed_def)
  qed
qed

theorem copy_delivers_all_witness:
  "\<exists>s. copy_reach (copy_start [Bytes ''ab''] []) s \<and> client_out s = ''ab''"
proof -
  let ?s = "copy_start [Bytes ''ab''] []"
  let ?t = "copy_branch UpstreamReady Written ?s"
  let ?u = "copy_branch UpstreamReady Written ?t"
  have "copy_step ?s ?t" by (rule copy_step.branch) (simp add: copy_start_def)
  moreover have "copy_step ?t ?u"
    by (rule copy_step.branch) (simp add: copy_start_def copy_upstream_branch_def copy_buf_size_def)
  ultimately have r: "copy_reach ?s ?u" by (blast intro: copy_reach.intros)
  have "phase ?u = Finished"
    by (simp add: copy_start_def copy_upstream_branch_def copy_buf_size_def)
  with copy_delivers_all[OF r] r show ?thesis by auto
qed

text \<open>
  C21. The loop ends: on finite streams no run is infinite, and a run can stop only in a
  state in which the function returns; such a state is reached from every other.
\<close>

theorem copy_terminates:
  "wfP (\<lambda>t s. copy_step s t) \<and> (\<exists>t. copy_step s t) = (\<not> copy_done s)
    \<and> (\<exists>t. copy_reach s t \<and> copy_done t)"
proof -
  have "{(t, s). copy_step s t} \<subseteq> measure copy_measure" by (auto dest: copy_step_measure)
  then have "wf {(t, s). copy_step s t}" by (rule wf_subset[OF wf_measure])
  then have "wfP (\<lambda>t s. copy_step s t)" by (simp add: wfp_def)
  moreover have "(\<exists>t. copy_step s t) = (\<not> copy_done s)"
    using copy_progress copy_done_no_step by blast
  ultimately show ?thesis using copy_reach_done by blast
qed

end
