(* ===== verification/Proxy_Api.thy ===== *)
theory Proxy_Api
  imports Vault Session
begin

text \<open>
  The session REST API on the unix socket (\<open>SessionApiService\<close> and its handlers in
  \<open>crates/proxy/src/proxy.rs\<close>). Each handler takes and returns the session store.

  A response body that \<open>serde_json\<close> produces is kept as the value that is serialised;
  bodies the source formats itself are strings. Reading the request body and parsing it
  are \<open>hyper\<close>'s and \<open>serde_json\<close>'s work: the result of the first is a field of the
  request, the second is a field of \<open>api_env\<close>, with the clock and the libraries the
  session store needs. \<open>unwrap\<close> on a missing session is the outcome \<open>Panic\<close>.

  \<open>resolved_pairs\<close> is a hash map that the source iterates; when two of its pairs share
  a dummy key, which real key wins depends on that order. The model takes insertion
  order; the theorems that speak about the key map hold for both or exclude the case.
\<close>

section \<open>Responses\<close>

datatype resp_body =
    EmptyBody
  | TextBody string
  | SessionBody session_response
  | SessionListBody "session_summary list"

record http_response =
  status :: nat
  content_type :: "string option"
  body :: resp_body

datatype outcome = Reply http_response | Panic

definition json_response :: "nat \<Rightarrow> resp_body \<Rightarrow> http_response" where
  "json_response st b = \<lparr>status = st, content_type = Some ''application/json'', body = b\<rparr>"

definition empty_response :: "nat \<Rightarrow> http_response" where
  "empty_response st = \<lparr>status = st, content_type = None, body = EmptyBody\<rparr>"

definition escape_quotes :: "string \<Rightarrow> string" where
  "escape_quotes s = replace_char DQUOTE [BACKSLASH, DQUOTE] s"

definition error_body :: \<open>string \<Rightarrow> string \<Rightarrow> string\<close> where
  \<open>error_body code message =
     ''{"error":{"code":"'' @ code @ ''","message":"'' @ escape_quotes message @ ''"}}''\<close>

definition error_response :: "nat \<Rightarrow> string \<Rightarrow> string \<Rightarrow> http_response" where
  "error_response st code message = json_response st (TextBody (error_body code message))"

definition error_body_with_detail :: \<open>string \<Rightarrow> string \<Rightarrow> string \<Rightarrow> string\<close> where
  \<open>error_body_with_detail code message detail =
     ''{"error":{"code":"'' @ code @ ''","message":"'' @ escape_quotes message
       @ ''","detail":"'' @ escape_quotes detail @ ''"}}''\<close>

definition error_response_with_detail ::
  "nat \<Rightarrow> string \<Rightarrow> string \<Rightarrow> string \<Rightarrow> http_response" where
  "error_response_with_detail st code message detail =
     json_response st (TextBody (error_body_with_detail code message detail))"

section \<open>The environment of the handlers\<close>

record 'dt api_env =
  lib :: session_lib
  clock :: "'dt time_lib"
  now_secs :: u64
  parse_create :: "string \<Rightarrow> (string, create_session_request) result"

text \<open>The fields of \<open>ProxyState\<close> other than the TLS configurations and the session
  store, which is passed along as the state.\<close>

record proxy_config =
  upstream_port :: u16
  upstream_host :: string
  expected_vm_ip :: string
  secret_store :: "fetcher option"
  ca_cert_sha256 :: string
  start_time :: u64

record http_request =
  req_method :: string
  req_path :: string
  req_body :: "(string, string) result"

section \<open>Creating a session\<close>

text \<open>The loop that resolves the credential references of the mitm entries.\<close>

fun resolve_pairs ::
  "fetcher \<Rightarrow> allowlist_entry list \<Rightarrow> (string, key_pair) hashmap
     \<Rightarrow> (secret_store_error, (string, key_pair) hashmap) result" where
  "resolve_pairs f [] acc = Inr acc"
| "resolve_pairs f (e # es) acc =
     (case (mode e = ''mitm'', credential_ref e) of
        (True, Some cref) \<Rightarrow>
          (case f cref of
             Inl err \<Rightarrow> Inl err
           | Inr pair \<Rightarrow> resolve_pairs f es (hm_insert cref pair acc))
      | _ \<Rightarrow> resolve_pairs f es acc)"

definition resolve_all ::
  "fetcher option \<Rightarrow> allowlist_entry list
     \<Rightarrow> (secret_store_error, (string, key_pair) hashmap) result" where
  "resolve_all store es = (case store of None \<Rightarrow> Inr [] | Some f \<Rightarrow> resolve_pairs f es [])"

definition dummy_keys_of :: "(string, key_pair) hashmap \<Rightarrow> (string, string) hashmap" where
  "dummy_keys_of pairs = hm_collect (map (\<lambda>(cref, pair). (cref, dummy pair)) pairs)"

definition key_map_of :: "(string, key_pair) hashmap \<Rightarrow> (string, string) hashmap" where
  "key_map_of pairs = hm_collect (map (\<lambda>pair. (dummy pair, real pair)) (hm_values pairs))"

definition new_session :: "'dt api_env \<Rightarrow> create_session_request \<Rightarrow> session" where
  "new_session env r =
     \<lparr>session_id = req_session_id r, source_ip = req_source_ip r,
      allowlist = req_allowlist r, created_at = now_secs env,
      expires_at = Option.bind (req_expires_at r) (parse_iso8601 (clock env)),
      dummy_to_real = []\<rparr>"

text \<open>After \<open>store.create\<close> the source takes the store's lock twice more: to publish the
  keys, and to read the session back for the reply.\<close>

definition publish_keys :: "(string, key_pair) hashmap \<Rightarrow> string \<Rightarrow> session_store \<Rightarrow> session_store" where
  "publish_keys pairs sid st =
     (let keys = key_map_of pairs
      in if keys \<noteq> [] then snd (set_key_map sid keys st) else st)"

definition create_reply ::
  "'dt api_env \<Rightarrow> (string, key_pair) hashmap \<Rightarrow> string \<Rightarrow> session_store \<Rightarrow> outcome" where
  "create_reply env pairs sid st =
     (let dummy_keys = dummy_keys_of pairs
      in case store_get st sid of
           None \<Rightarrow> Panic
         | Some s' \<Rightarrow>
             (let resp = session_response_from (clock env) s';
                  resp' = (if dummy_keys \<noteq> [] then resp\<lparr>resp_dummy_keys := Some dummy_keys\<rparr>
                           else resp)
              in Reply (json_response 201 (SessionBody resp'))))"

definition finish_create ::
  "'dt api_env \<Rightarrow> (string, key_pair) hashmap \<Rightarrow> session \<Rightarrow> session_store
     \<Rightarrow> outcome \<times> session_store" where
  "finish_create env pairs s st =
     (case store_create (lib env) s st of
        (Inr _, st1) \<Rightarrow>
          (let st2 = publish_keys pairs (session_id s) st1
           in (create_reply env pairs (session_id s) st2, st2))
      | (Inl (AlreadyExists i), st1) \<Rightarrow>
          (Reply (error_response 409 ''SESSION_EXISTS'' (''session already exists: '' @ i)), st1)
      | (Inl e, st1) \<Rightarrow>
          (Reply (error_response 500 ''INTERNAL_ERROR'' (session_error_to_string e)), st1))"

definition handle_create_session ::
  "'dt api_env \<Rightarrow> fetcher option \<Rightarrow> (string, string) result \<Rightarrow> session_store
     \<Rightarrow> outcome \<times> session_store" where
  "handle_create_session env secrets read_body st =
     (case read_body of
        Inl e \<Rightarrow> (Reply (error_response 400 ''INVALID_REQUEST'' ''failed to read request body''), st)
      | Inr bytes \<Rightarrow>
     (case parse_create env bytes of
        Inl e \<Rightarrow> (Reply (error_response 400 ''INVALID_REQUEST'' (''malformed JSON: '' @ e)), st)
      | Inr r \<Rightarrow>
          if req_session_id r = [] then
            (Reply (error_response 400 ''INVALID_REQUEST'' ''session_id is required''), st)
          else if req_source_ip r = [] then
            (Reply (error_response 400 ''INVALID_REQUEST'' ''source_ip is required''), st)
          else if req_allowlist r = [] then
            (Reply (error_response 400 ''INVALID_REQUEST'' ''allowlist is required''), st)
          else
            (case resolve_all secrets (req_allowlist r) of
               Inl e \<Rightarrow>
                 (Reply (error_response_with_detail 422 ''CREDENTIAL_REF_INVALID''
                    ''failed to resolve credential reference'' (secret_store_error_to_string e)), st)
             | Inr pairs \<Rightarrow> finish_create env pairs (new_session env r) st)))"

section \<open>The other handlers and the router\<close>

definition handle_get_session :: "'dt api_env \<Rightarrow> session_store \<Rightarrow> string \<Rightarrow> http_response" where
  "handle_get_session env st sid =
     (case store_get st sid of
        Some s \<Rightarrow>
          (let resp = session_response_from (clock env) s;
               resp' = (case get_stats st sid of
                          Some stt \<Rightarrow> resp\<lparr>resp_stats := Some stt\<rparr> | None \<Rightarrow> resp)
           in json_response 200 (SessionBody resp'))
      | None \<Rightarrow> error_response 404 ''SESSION_NOT_FOUND'' (''session not found: '' @ sid))"

definition handle_delete_session ::
  "'dt api_env \<Rightarrow> string \<Rightarrow> session_store \<Rightarrow> http_response \<times> session_store" where
  "handle_delete_session env sid st =
     (case store_delete (lib env) sid st of
        (Inr True, st') \<Rightarrow> (empty_response 204, st')
      | (Inr False, st') \<Rightarrow>
          (error_response 404 ''SESSION_NOT_FOUND'' (''session not found: '' @ sid), st')
      | (Inl e, st') \<Rightarrow>
          (error_response 500 ''INTERNAL_ERROR'' (session_error_to_string e), st'))"

definition handle_list_sessions :: "'dt api_env \<Rightarrow> session_store \<Rightarrow> http_response" where
  "handle_list_sessions env st =
     json_response 200 (SessionListBody (map (session_summary_from (clock env)) (store_list st)))"

definition saturating_sub :: "u64 \<Rightarrow> u64 \<Rightarrow> u64" where
  "saturating_sub a b = (if a < b then 0 else a - b)"

definition handle_health ::
  \<open>'dt api_env \<Rightarrow> proxy_config \<Rightarrow> session_store \<Rightarrow> http_response\<close> where
  \<open>handle_health env cfg st =
     (let uptime = saturating_sub (now_secs env) (start_time cfg)
      in json_response 200 (TextBody
           (''{"status":"ok","ca_cert_sha256":"'' @ ca_cert_sha256 cfg
            @ ''","active_sessions":'' @ show_nat (store_count st)
            @ '',"uptime_secs":'' @ show_nat (unat uptime) @ ''}'')))\<close>

definition unknown_route :: \<open>http_response\<close> where
  \<open>unknown_route =
     json_response 404 (TextBody
       ''{"error":{"code":"INVALID_REQUEST","message":"unknown route"}}'')\<close>

definition handle_session_api ::
  "'dt api_env \<Rightarrow> proxy_config \<Rightarrow> http_request \<Rightarrow> session_store \<Rightarrow> outcome \<times> session_store" where
  "handle_session_api env cfg req st =
     (let path = req_path req; meth = req_method req in
      if path = ''/sessions'' \<and> meth = ''POST'' then
        handle_create_session env (secret_store cfg) (req_body req) st
      else if path = ''/sessions'' \<and> meth = ''GET'' then
        (Reply (handle_list_sessions env st), st)
      else
        (let rest =
           (if path = ''/health'' \<and> meth = ''GET'' then (Reply (handle_health env cfg st), st)
            else (Reply unknown_route, st))
         in case strip_prefix ''/sessions/'' path of
              Some sid \<Rightarrow>
                if sid \<noteq> [] \<and> meth = ''GET'' then (Reply (handle_get_session env st sid), st)
                else if sid \<noteq> [] \<and> meth = ''DELETE'' then
                  (case handle_delete_session env sid st of (r, st') \<Rightarrow> (Reply r, st'))
                else rest
            | None \<Rightarrow> rest))"


section \<open>Resolving credential references\<close>

definition mitm_refs :: "allowlist_entry list \<Rightarrow> string list" where
  "mitm_refs es = map (\<lambda>e. the (credential_ref e))
     (filter (\<lambda>e. mode e = ''mitm'' \<and> credential_ref e \<noteq> None) es)"

lemma mitm_refs_Nil [simp]: "mitm_refs [] = []"
  by (simp add: mitm_refs_def)

lemma mitm_refs_Cons [simp]:
  "mitm_refs (e # es) =
     (case (mode e = ''mitm'', credential_ref e) of
        (True, Some cref) \<Rightarrow> cref # mitm_refs es | _ \<Rightarrow> mitm_refs es)"
  by (auto simp: mitm_refs_def split: option.splits bool.splits)

text \<open>The loop only looks at the references of the mitm entries.\<close>

primrec resolve_refs ::
  "fetcher \<Rightarrow> string list \<Rightarrow> (string, key_pair) hashmap
     \<Rightarrow> (secret_store_error, (string, key_pair) hashmap) result" where
  "resolve_refs f [] acc = Inr acc"
| "resolve_refs f (r # rs) acc =
     (case f r of Inl err \<Rightarrow> Inl err | Inr pair \<Rightarrow> resolve_refs f rs (hm_insert r pair acc))"

lemma resolve_pairs_refs: "resolve_pairs f es acc = resolve_refs f (mitm_refs es) acc"
  by (induction es arbitrary: acc) (auto split: option.splits bool.splits sum.splits)

lemma resolve_refs_low:
  assumes "\<And>r. rel_sum (=) (\<lambda>p q. dummy p = dummy q) (f r) (f' r)"
    and "list_all2 (\<lambda>p q. fst p = fst q \<and> dummy (snd p) = dummy (snd q)) acc acc'"
  shows "rel_sum (=) (list_all2 (\<lambda>p q. fst p = fst q \<and> dummy (snd p) = dummy (snd q)))
     (resolve_refs f rs acc) (resolve_refs f' rs acc')"
proof (insert assms(2), induction rs arbitrary: acc acc')
  case (Cons r rs)
  have ins: "list_all2 (\<lambda>p q. fst p = fst q \<and> dummy (snd p) = dummy (snd q))
      (hm_insert r p m) (hm_insert r q m')"
    if "dummy p = dummy q"
      "list_all2 (\<lambda>p q. fst p = fst q \<and> dummy (snd p) = dummy (snd q)) m m'" for p q m m'
    using that(2,1) unfolding hm_insert_def
    by (induction m m' rule: list_all2_induct) auto
  from assms(1)[of r] Cons show ?case
    by (auto simp: rel_sum_simps intro!: Cons.IH ins elim!: rel_sum.cases split: sum.splits)
qed simp

context secret_store
begin

lemma resolve_refs_ok:
  "resolve_refs (fetch s) rs acc = Inr m \<Longrightarrow>
     (\<forall>r\<in>set rs. entries s r \<noteq> None)
     \<and> hm_get m = (\<lambda>r. if r \<in> set rs then entries s r else hm_get acc r)
     \<and> (hm_ok acc \<longrightarrow> hm_ok m)"
proof (induction rs arbitrary: acc)
  case (Cons r rs)
  from Cons.prems obtain p where p: "fetch s r = Inr p"
    "resolve_refs (fetch s) rs (hm_insert r p acc) = Inr m"
    by (auto split: sum.splits)
  from p(1) have e: "entries s r = Some p" by (simp add: fetch_ok)
  from Cons.IH[OF p(2)] e show ?case by (auto simp: hm_simps hm_inv fun_eq_iff)
qed auto

lemma resolve_refs_err:
  "resolve_refs (fetch s) rs acc = Inl e \<longleftrightarrow>
     map_option SecretNotFound (List.find (\<lambda>r. entries s r = None) rs) = Some e"
proof (induction rs arbitrary: acc)
  case (Cons r rs)
  show ?case
  proof (cases "entries s r")
    case None
    then show ?thesis by (auto simp: fetch_missing)
  next
    case (Some p)
    then have "fetch s r = Inr p" by (simp add: fetch_ok)
    with Cons[of "hm_insert r p acc"] Some show ?thesis by simp
  qed
qed simp

lemma resolve_refs_total:
  "(\<exists>m. resolve_refs (fetch s) rs acc = Inr m) \<longleftrightarrow> (\<forall>r\<in>set rs. entries s r \<noteq> None)"
proof (induction rs arbitrary: acc)
  case (Cons r rs)
  show ?case
  proof (cases "entries s r")
    case (Some p)
    then have "fetch s r = Inr p" by (simp add: fetch_ok)
    with Cons Some show ?thesis by simp
  qed (simp add: fetch_missing)
qed simp

end

section \<open>The two key tables of a new session\<close>

lemma hm_collect_eq_Nil_iff: "hm_collect ps = [] \<longleftrightarrow> ps = []"
proof (cases ps)
  case (Cons p qs)
  then have "hm_get (hm_collect ps) (fst p) \<noteq> None"
    by (simp add: hm_get_collect_None)
  then show ?thesis by (auto simp: Cons)
qed (simp add: hm_collect_def)

lemma key_map_of_Nil [simp]: "key_map_of pairs = [] \<longleftrightarrow> pairs = []"
  by (simp add: key_map_of_def hm_collect_eq_Nil_iff hm_values_def)

lemma dummy_keys_of_Nil [simp]: "dummy_keys_of pairs = [] \<longleftrightarrow> pairs = []"
  by (simp add: dummy_keys_of_def hm_collect_eq_Nil_iff)

lemma key_map_of_sound:
  "hm_get (key_map_of pairs) d = Some k \<Longrightarrow>
     \<exists>cref p. (cref, p) \<in> set pairs \<and> dummy p = d \<and> real p = k"
  by (fastforce simp: key_map_of_def hm_values_def dest: hm_get_collect_in)

lemma key_map_of_dom: "hm_get (key_map_of pairs) d = None \<longleftrightarrow> d \<notin> dummy ` snd ` set pairs"
  by (auto simp: key_map_of_def hm_values_def hm_get_collect_None image_image)

lemma key_map_of_exact:
  assumes "(cref, p) \<in> set pairs"
    and "\<And>cref' q. (cref', q) \<in> set pairs \<Longrightarrow> dummy q = dummy p \<Longrightarrow> real q = real p"
  shows "hm_get (key_map_of pairs) (dummy p) = Some (real p)"
proof -
  from assms(1) have "dummy p \<in> dummy ` snd ` set pairs" by (metis image_eqI snd_conv)
  then have "hm_get (key_map_of pairs) (dummy p) \<noteq> None" by (simp add: key_map_of_dom)
  then obtain k where k: "hm_get (key_map_of pairs) (dummy p) = Some k" by auto
  from key_map_of_sound[OF this] assms(2) k show ?thesis by auto
qed

lemma dummy_keys_of_get:
  assumes "hm_ok pairs"
  shows "hm_get (dummy_keys_of pairs) cref = map_option dummy (hm_get pairs cref)"
proof -
  from assms have d: "distinct (map fst (map (\<lambda>(c, p). (c, dummy p)) pairs))"
    by (simp add: hm_ok_def comp_def case_prod_unfold)
  show ?thesis
    unfolding dummy_keys_of_def hm_collect_distinct[OF d]
    by (induction pairs) (auto simp: hm_get_def)
qed

lemma low_pairs_tables:
  assumes "list_all2 (\<lambda>p q. fst p = fst q \<and> dummy (snd p) = dummy (snd q)) ps qs"
  shows "dummy_keys_of ps = dummy_keys_of qs" and "(ps = []) = (qs = [])"
proof -
  from assms have "map (\<lambda>(c, p). (c, dummy p)) ps = map (\<lambda>(c, p). (c, dummy p)) qs"
    by (induction rule: list_all2_induct) auto
  then show "dummy_keys_of ps = dummy_keys_of qs" by (simp add: dummy_keys_of_def)
  from assms show "(ps = []) = (qs = [])" by auto
qed

section \<open>Creation\<close>

definition created_session :: "(string, key_pair) hashmap \<Rightarrow> session \<Rightarrow> session" where
  "created_session pairs s = s\<lparr>dummy_to_real := key_map_of pairs\<rparr>"

definition created_response ::
  "'dt api_env \<Rightarrow> (string, key_pair) hashmap \<Rightarrow> session \<Rightarrow> session_response" where
  "created_response env pairs s =
     (session_response_from (clock env) s)\<lparr>resp_dummy_keys :=
        (if pairs = [] then None else Some (dummy_keys_of pairs))\<rparr>"

lemma session_response_from_keys [simp]:
  "session_response_from tm (s\<lparr>dummy_to_real := m\<rparr>) = session_response_from tm s"
  "session_response_from tm (forget_keys s) = session_response_from tm s"
  by (simp_all add: session_response_from_def)

lemma session_summary_from_keys [simp]:
  "session_summary_from tm (forget_keys s) = session_summary_from tm s"
  by (simp add: session_summary_from_def)

lemma finish_create_ok:
  fixes pairs :: "(string, key_pair) hashmap"
  assumes inv: "registry_inv (lib env) st"
    and ok: "store_create (lib env) s st = (Inr (), st1)"
  defines "st2 \<equiv> (if pairs \<noteq> [] then snd (set_key_map (session_id s) (key_map_of pairs) st1) else st1)"
  shows "finish_create env pairs s st =
      (Reply (json_response 201 (SessionBody (created_response env pairs s))), st2)"
    and "store_get st2 = (store_get st)(session_id s \<mapsto> created_session pairs s)"
    and "registry_inv (lib env) st2"
    and "store_get_by_ip st2 = (store_get_by_ip st)(source_ip s \<mapsto> created_session pairs s)"
proof -
  from reg.inv_create[OF inv ok] have inv1: "registry_inv (lib env) st1" .
  obtain b st3 where set3: "set_key_map (session_id s) (key_map_of pairs) st1 = (b, st3)"
    by (cases "set_key_map (session_id s) (key_map_of pairs) st1") auto
  from reg.create_ok[OF inv ok] have get1: "store_get st1 = (store_get st)(session_id s \<mapsto> forget_keys s)"
    by simp
  from reg.by_ip_create[OF inv ok] have ip1:
    "store_get_by_ip st1 = (store_get_by_ip st)(source_ip s \<mapsto> forget_keys s)" .
  have fk: "forget_keys s = created_session [] s"
    by (simp add: forget_keys_def created_session_def key_map_of_def hm_values_def hm_collect_def)
  have upd: "(forget_keys s)\<lparr>dummy_to_real := key_map_of pairs\<rparr> = created_session pairs s"
    by (simp add: forget_keys_def created_session_def)
  show inv2: "registry_inv (lib env) st2"
    using inv1 reg.inv_set_keys[OF inv1 set3] set3 by (simp add: st2_def)
  show get2: "store_get st2 = (store_get st)(session_id s \<mapsto> created_session pairs s)"
    using reg.set_keys_get[OF inv1 set3] set3 get1 fk upd by (auto simp: st2_def)
  show "finish_create env pairs s st =
      (Reply (json_response 201 (SessionBody (created_response env pairs s))), st2)"
    using get2 ok
    by (simp add: finish_create_def publish_keys_def create_reply_def Let_def created_response_def st2_def[symmetric]
        created_session_def)
      (simp add: session_response_from_def)
  have src: "source_ip (created_session pairs s) = source_ip s"
    "session_id (created_session pairs s) = session_id s"
    by (simp_all add: created_session_def)
  show "store_get_by_ip st2 = (store_get_by_ip st)(source_ip s \<mapsto> created_session pairs s)"
  proof (cases "pairs = []")
    case True
    then show ?thesis using ip1 fk by (simp add: st2_def)
  next
    case False
    have other: "session_id t \<noteq> session_id s"
      if "store_get_by_ip st ip = Some t" for ip t
      using that reg.by_ip_iff[OF inv] reg.create_ok[OF inv ok] by auto
    show ?thesis
    proof
      fix ip
      show "store_get_by_ip st2 ip
          = ((store_get_by_ip st)(source_ip s \<mapsto> created_session pairs s)) ip"
        using reg.by_ip_set_keys[OF inv1 set3, of ip] False set3 upd other[of ip]
        by (cases "store_get_by_ip st ip") (auto simp: st2_def ip1)
    qed
  qed
qed

lemma finish_create_err:
  assumes "store_create (lib env) s st = (Inl e, st1)"
  shows "finish_create env pairs s st =
     (Reply (case e of
        AlreadyExists i \<Rightarrow> error_response 409 ''SESSION_EXISTS'' (''session already exists: '' @ i)
      | _ \<Rightarrow> error_response 500 ''INTERNAL_ERROR'' (session_error_to_string e)), st)"
  using assms reg.create_err[OF assms]
  by (cases e) (simp_all add: finish_create_def)

lemma error_status [simp]:
  "status (error_response c code m) = c" "status (error_response_with_detail c code m d) = c"
  "status (json_response c b) = c" "status (empty_response c) = c"
  by (simp_all add: error_response_def error_response_with_detail_def json_response_def
      empty_response_def)

section \<open>The store without its keys\<close>

text \<open>Everything but the real keys: what responses may depend on.\<close>

definition erase_keys :: "session_store \<Rightarrow> session_store" where
  "erase_keys st = st\<lparr>sessions := map (apsnd forget_keys) (sessions st)\<rparr>"

lemma erase_keys_simps [simp]:
  "conn (erase_keys st) = conn st" "stats (erase_keys st) = stats st"
  "sessions (erase_keys st) = map (apsnd forget_keys) (sessions st)"
  by (simp_all add: erase_keys_def)

lemma hm_insert_map: "hm_insert k (f v) (map (apsnd f) m) = map (apsnd f) (hm_insert k v m)"
  by (induction m) (auto simp: hm_insert_def)

lemma hm_remove_map: "hm_remove k (map (apsnd f) m) = map (apsnd f) (hm_remove k m)"
  by (induction m) (auto simp: hm_remove_def)

lemma hm_values_map: "hm_values (map (apsnd f) m) = map f (hm_values m)"
  by (simp add: hm_values_def comp_def)

lemma store_get_erase: "store_get (erase_keys st) sid = map_option forget_keys (store_get st sid)"
proof -
  have "List.find (\<lambda>s. session_id s = sid) (map forget_keys xs)
      = map_option forget_keys (List.find (\<lambda>s. session_id s = sid) xs)" for xs
    by (induction xs) auto
  then show ?thesis by (simp add: store_get_def hm_values_map)
qed

lemma store_create_erase:
  "store_create lb s (erase_keys st) = apsnd erase_keys (store_create lb s st)"
proof -
  have "hm_insert (source_ip s) (s\<lparr>dummy_to_real := []\<rparr>) (map (apsnd forget_keys) m)
      = map (apsnd forget_keys) (hm_insert (source_ip s) (s\<lparr>dummy_to_real := []\<rparr>) m)" for m
    using hm_insert_map[of "source_ip s" forget_keys "forget_keys s" m]
    by (simp add: forget_keys_def)
  then show ?thesis
    by (simp add: store_create_def Let_def erase_keys_def split: sum.splits)
qed

lemma store_delete_erase:
  "store_delete lb sid (erase_keys st) = apsnd erase_keys (store_delete lb sid st)"
proof -
  have "(erase_keys st)\<lparr>conn := c, sessions := map (apsnd forget_keys) m, stats := t\<rparr>
      = erase_keys (st\<lparr>conn := c, sessions := m, stats := t\<rparr>)" for c m t
    by (simp add: erase_keys_def)
  then show ?thesis
    by (simp add: store_delete_def store_get_erase hm_remove_map split: option.splits)
qed

lemma set_key_map_erase: "erase_keys (snd (set_key_map sid keys st)) = erase_keys st"
proof -
  have "map (apsnd forget_keys) (update_first P (\<lambda>(ip, s). (ip, s\<lparr>dummy_to_real := keys\<rparr>)) m)
      = map (apsnd forget_keys) m" for m :: "(string, session) hashmap" and P
    by (induction m) auto
  then show ?thesis by (simp add: set_key_map_def erase_keys_def)
qed

definition low_pairs :: "(string, key_pair) hashmap \<Rightarrow> (string, key_pair) hashmap \<Rightarrow> bool" where
  "low_pairs = list_all2 (\<lambda>p q. fst p = fst q \<and> dummy (snd p) = dummy (snd q))"

text \<open>Two secret stores that answer alike, up to the real keys.\<close>

definition low_secrets :: "fetcher option \<Rightarrow> fetcher option \<Rightarrow> bool" where
  "low_secrets = rel_option (\<lambda>f g. \<forall>r. rel_sum (=) (\<lambda>p q. dummy p = dummy q) (f r) (g r))"

lemma finish_create_low:
  assumes "low_pairs ps qs" and "erase_keys st = erase_keys st'"
  shows "apsnd erase_keys (finish_create env ps s st) = apsnd erase_keys (finish_create env qs s st')"
proof -
  let ?upd = "\<lambda>ps st. if ps \<noteq> [] then snd (set_key_map (session_id s) (key_map_of ps) st) else st"
  note tabs = low_pairs_tables[OF assms(1)[unfolded low_pairs_def]]
  have upd: "erase_keys (?upd r x) = erase_keys x" for r x
    by (simp add: set_key_map_erase)
  have c: "apsnd erase_keys (store_create (lib env) s st)
      = apsnd erase_keys (store_create (lib env) s st')"
    using assms(2) by (simp add: store_create_erase[symmetric])
  obtain r x x' where r: "store_create (lib env) s st = (r, x)"
      "store_create (lib env) s st' = (r, x')" "erase_keys x = erase_keys x'"
    using c by (cases "store_create (lib env) s st"; cases "store_create (lib env) s st'") auto
  show ?thesis
  proof (cases r)
    case (Inl e)
    with r show ?thesis by (cases e) (simp_all add: finish_create_def)
  next
    case (Inr u)
    have "map_option forget_keys (store_get (?upd ps x) (session_id s))
        = map_option forget_keys (store_get (?upd qs x') (session_id s))"
      using r(3) upd[of ps x] upd[of qs x'] by (simp add: store_get_erase[symmetric])
    then consider "store_get (?upd ps x) (session_id s) = None"
        "store_get (?upd qs x') (session_id s) = None"
      | a b where "store_get (?upd ps x) (session_id s) = Some a"
        "store_get (?upd qs x') (session_id s) = Some b" "forget_keys a = forget_keys b"
      by (cases "store_get (?upd ps x) (session_id s)";
          cases "store_get (?upd qs x') (session_id s)") auto
    then show ?thesis
    proof cases
      case 1
      with r Inr upd show ?thesis by (simp add: finish_create_def publish_keys_def create_reply_def Let_def)
    next
      case 2
      have "session_response_from (clock env) a = session_response_from (clock env) b"
        using 2(3) session_response_from_keys(2) by metis
      with 2 r Inr tabs upd show ?thesis
        by (simp add: finish_create_def publish_keys_def create_reply_def Let_def set_key_map_erase)
    qed
  qed
qed

lemma resolve_all_low:
  assumes "low_secrets sec sec'"
  shows "rel_sum (=) low_pairs (resolve_all sec es) (resolve_all sec' es)"
  using assms unfolding low_secrets_def
proof (cases rule: option.rel_cases)
  case None
  then show ?thesis by (simp add: resolve_all_def low_pairs_def)
next
  case (Some f g)
  then show ?thesis
    unfolding resolve_all_def option.case low_pairs_def resolve_pairs_refs
    by (auto intro: resolve_refs_low)
qed

lemma create_low:
  assumes "low_secrets sec sec'" and "erase_keys st = erase_keys st'"
  shows "apsnd erase_keys (handle_create_session env sec inp st)
    = apsnd erase_keys (handle_create_session env sec' inp st')"
proof -
  have "apsnd erase_keys (case resolve_all sec es of
          Inl e \<Rightarrow> (F e, st) | Inr pairs \<Rightarrow> finish_create env pairs s st)
      = apsnd erase_keys (case resolve_all sec' es of
          Inl e \<Rightarrow> (F e, st') | Inr pairs \<Rightarrow> finish_create env pairs s st')" for es s F
    using resolve_all_low[OF assms(1), of es] assms(2)
    by (cases rule: rel_sum.cases) (simp_all add: finish_create_low)
  then show ?thesis
    using assms(2) unfolding handle_create_session_def
    by (simp split: sum.splits)
qed

lemma low_get: "erase_keys st = erase_keys st' \<Longrightarrow>
    map_option forget_keys (store_get st sid) = map_option forget_keys (store_get st' sid)"
  by (simp add: store_get_erase[symmetric])

lemma low_stats: "erase_keys st = erase_keys st' \<Longrightarrow> stats st = stats st'"
  by (metis erase_keys_simps(2))

lemma get_low:
  assumes "erase_keys st = erase_keys st'"
  shows "handle_get_session env st sid = handle_get_session env st' sid"
proof -
  have "handle_get_session env st sid =
      (case map_option forget_keys (store_get st sid) of
        Some s \<Rightarrow> json_response 200 (SessionBody
          (case hm_get (stats st) sid of
             Some stt \<Rightarrow> (session_response_from (clock env) s)\<lparr>resp_stats := Some stt\<rparr>
           | None \<Rightarrow> session_response_from (clock env) s))
      | None \<Rightarrow> error_response 404 ''SESSION_NOT_FOUND'' (''session not found: '' @ sid))"
    for st
    by (simp add: handle_get_session_def get_stats_def Let_def split: option.splits)
  then show ?thesis by (simp only: low_get[OF assms] low_stats[OF assms])
qed

lemma delete_low:
  assumes "erase_keys st = erase_keys st'"
  shows "apsnd erase_keys (handle_delete_session env sid st)
    = apsnd erase_keys (handle_delete_session env sid st')"
proof -
  have "apsnd erase_keys (store_delete (lib env) sid st) = apsnd erase_keys (store_delete (lib env) sid st')"
    using assms by (simp add: store_delete_erase[symmetric])
  then show ?thesis
    by (cases "store_delete (lib env) sid st"; cases "store_delete (lib env) sid st'")
      (auto simp: handle_delete_session_def split: sum.splits bool.splits)
qed

lemma list_low:
  assumes "erase_keys st = erase_keys st'"
  shows "handle_list_sessions env st = handle_list_sessions env st'"
    and "store_count st = store_count st'"
proof -
  from assms have m: "map (apsnd forget_keys) (sessions st) = map (apsnd forget_keys) (sessions st')"
    by (metis erase_keys_simps(3))
  then have "map forget_keys (store_list st) = map forget_keys (store_list st')"
    unfolding store_list_def hm_values_map[symmetric] by simp
  then have "map (session_summary_from (clock env) \<circ> forget_keys) (store_list st)
      = map (session_summary_from (clock env) \<circ> forget_keys) (store_list st')"
    unfolding map_map[symmetric] by simp
  then show "handle_list_sessions env st = handle_list_sessions env st'"
    by (simp add: handle_list_sessions_def comp_def)
  from m show "store_count st = store_count st'"
    unfolding store_count_def by (metis length_map)
qed

section \<open>Requests\<close>

lemma handle_delete_cases:
  assumes "registry_inv (lib env) st"
  shows "handle_delete_session env sid st =
    (case store_get st sid of
       None \<Rightarrow> (error_response 404 ''SESSION_NOT_FOUND'' (''session not found: '' @ sid), st)
     | Some s \<Rightarrow> (case sql_fault (lib env) DeleteById of
         Some e \<Rightarrow> (error_response 500 ''INTERNAL_ERROR'' (''sqlite: '' @ e), st)
       | None \<Rightarrow> (empty_response 204, deleted s st)))"
  unfolding handle_delete_session_def store_delete_cases[OF registry_inv_mem[OF assms]]
  by (simp split: option.splits)

lemma handle_create_cases:
  obtains (reject) r where "handle_create_session env sec inp st = (Reply r, st)" "400 \<le> status r"
  | (stored) bytes r pairs where "inp = Inr bytes" "parse_create env bytes = Inr r"
      "req_session_id r \<noteq> []" "req_source_ip r \<noteq> []" "req_allowlist r \<noteq> []"
      "resolve_all sec (req_allowlist r) = Inr pairs"
      "handle_create_session env sec inp st = finish_create env pairs (new_session env r) st"
proof (cases "\<exists>r. handle_create_session env sec inp st = (Reply r, st) \<and> 400 \<le> status r")
  case True
  then show thesis using reject by blast
next
  case False
  then show thesis
    unfolding handle_create_session_def
    by (auto split: sum.splits if_splits intro!: stored simp: handle_create_session_def)
qed

lemma finish_create_outcome:
  assumes "registry_inv (lib env) st"
  obtains (ok) st1 st2 where "store_create (lib env) s st = (Inr (), st1)"
      "finish_create env pairs s st =
        (Reply (json_response 201 (SessionBody (created_response env pairs s))), st2)"
      "registry_inv (lib env) st2"
      "store_get st2 = (store_get st)(session_id s \<mapsto> created_session pairs s)"
      "store_get_by_ip st2 = (store_get_by_ip st)(source_ip s \<mapsto> created_session pairs s)"
  | (err) r e where "store_create (lib env) s st = (Inl e, st)"
      "finish_create env pairs s st = (Reply r, st)" "status r = 409 \<or> status r = 500"
proof (cases "store_create (lib env) s st")
  case (Pair r st1)
  show thesis
  proof (cases r)
    case (Inl e)
    with Pair have c: "store_create (lib env) s st = (Inl e, st1)" by simp
    from reg.create_err[OF this] c finish_create_err[OF c, of pairs]
    show thesis by (intro err) (auto split: session_error.splits)
  next
    case (Inr u)
    with Pair have c: "store_create (lib env) s st = (Inr (), st1)" by simp
    from finish_create_ok[OF assms c, of pairs] c show thesis by (intro ok) auto
  qed
qed

lemma create_api_inv:
  assumes "registry_inv (lib env) st"
  shows "registry_inv (lib env) (snd (handle_create_session env sec inp st))
    \<and> fst (handle_create_session env sec inp st) \<noteq> Panic"
proof (cases rule: handle_create_cases[of env sec inp st])
  case (reject r)
  with assms show ?thesis by simp
next
  case (stored bytes r pairs)
  show ?thesis
    by (cases rule: finish_create_outcome[OF assms, of "new_session env r" pairs])
      (simp_all add: stored(7) assms)
qed

lemma delete_api_inv:
  "registry_inv (lib env) st \<Longrightarrow> registry_inv (lib env) (snd (handle_delete_session env sid st))"
proof -
  assume inv: "registry_inv (lib env) st"
  have "snd (handle_delete_session env sid st) = snd (store_delete (lib env) sid st)"
    by (cases "store_delete (lib env) sid st")
      (auto simp: handle_delete_session_def split: sum.splits bool.splits)
  with reg.delete_inv[OF inv] show ?thesis by simp
qed

text \<open>The router either reads the store or hands it to one of two handlers.\<close>

lemma handle_session_api_cases:
  obtains (create) "handle_session_api env cfg req st
      = handle_create_session env (secret_store cfg) (req_body req) st"
      "req_method req = ''POST''"
  | (delete) sid where "handle_session_api env cfg req st
      = apfst Reply (handle_delete_session env sid st)"
      "req_method req = ''DELETE''" "req_path req = ''/sessions/'' @ sid"
  | (read) r where "handle_session_api env cfg req st = (Reply r, st)"
proof -
  consider (post) "req_path req = ''/sessions''" "req_method req = ''POST''"
    | (del) sid where "strip_prefix ''/sessions/'' (req_path req) = Some sid" "sid \<noteq> []"
        "req_method req = ''DELETE''"
    | (other) "\<not> (req_path req = ''/sessions'' \<and> req_method req = ''POST'')"
        "\<not> (\<exists>sid. strip_prefix ''/sessions/'' (req_path req) = Some sid \<and> sid \<noteq> []
            \<and> req_method req = ''DELETE'')"
    by blast
  then show thesis
  proof cases
    case post
    then show thesis by (intro create) (simp_all add: handle_session_api_def)
  next
    case (del sid)
    then have "req_path req = ''/sessions/'' @ sid" by (simp only: strip_prefix_Some_iff)
    with del show thesis
      by (intro delete[of sid])
        (auto simp: handle_session_api_def apfst_def map_prod_def split: prod.splits)
  next
    case other
    have "\<exists>r. handle_session_api env cfg req st = (Reply r, st)"
      using other unfolding handle_session_api_def Let_def
      by (cases "strip_prefix ''/sessions/'' (req_path req)") auto
    then show thesis using read by blast
  qed
qed

lemma health_low:
  "erase_keys st = erase_keys st' \<Longrightarrow> handle_health env cfg st = handle_health env cfg' st'"
  if "ca_cert_sha256 cfg = ca_cert_sha256 cfg'" "start_time cfg = start_time cfg'"
  using that by (simp add: handle_health_def list_low(2)[of st st'])

lemma handle_session_api_inv:
  assumes "registry_inv (lib env) st"
  shows "registry_inv (lib env) (snd (handle_session_api env cfg req st))
    \<and> fst (handle_session_api env cfg req st) \<noteq> Panic"
proof (cases rule: handle_session_api_cases[of env cfg req st])
  case create
  with create_api_inv[OF assms] show ?thesis by simp
next
  case (delete sid)
  with delete_api_inv[OF assms] show ?thesis by simp
next
  case (read r)
  with assms show ?thesis by simp
qed

lemma handle_session_api_low:
  assumes "low_secrets sec sec'" and "erase_keys st = erase_keys st'"
  shows "apsnd erase_keys (handle_session_api env (cfg\<lparr>secret_store := sec\<rparr>) req st)
    = apsnd erase_keys (handle_session_api env (cfg\<lparr>secret_store := sec'\<rparr>) req st')"
proof -
  have del: "apsnd erase_keys (case handle_delete_session env sid st of (r, s) \<Rightarrow> (Reply r, s))
      = apsnd erase_keys (case handle_delete_session env sid st' of (r, s) \<Rightarrow> (Reply r, s))" for sid
    using delete_low[OF assms(2), of env sid]
    by (cases "handle_delete_session env sid st"; cases "handle_delete_session env sid st'") simp
  have health: "handle_health env (cfg\<lparr>secret_store := sec\<rparr>) st
      = handle_health env (cfg\<lparr>secret_store := sec'\<rparr>) st'"
    by (rule health_low) (simp_all add: assms(2))
  have sel: "proxy_config.secret_store (cfg\<lparr>secret_store := x\<rparr>) = x" for x
    by simp
  show ?thesis
    unfolding handle_session_api_def Let_def
    by (simp only: sel if_distrib[of "apsnd erase_keys"] option.case_distrib[of "apsnd erase_keys"]
        apsnd_conv health del get_low[OF assms(2)] list_low[OF assms(2)] assms(2)
        create_low[OF assms, of env "req_body req"])
qed

fun api_run :: "proxy_config \<Rightarrow> ('dt api_env \<times> http_request) list \<Rightarrow> session_store
    \<Rightarrow> outcome list \<times> session_store" where
  "api_run cfg [] st = ([], st)"
| "api_run cfg ((env, req) # rs) st =
     (let (out, st1) = handle_session_api env cfg req st;
          (outs, st2) = api_run cfg rs st1
      in (out # outs, st2))"

lemma api_run_inv:
  "\<forall>p\<in>set rs. lib (fst p) = lb \<Longrightarrow> registry_inv lb st \<Longrightarrow>
     registry_inv lb (snd (api_run cfg rs st)) \<and> Panic \<notin> set (fst (api_run cfg rs st))"
proof (induction cfg rs st rule: api_run.induct)
  case (2 cfg env req rs st)
  then have "registry_inv (lib env) st" by simp
  from handle_session_api_inv[OF this, of cfg req] 2 show ?case
    by (cases "handle_session_api env cfg req st"; cases "api_run cfg rs (snd (handle_session_api env cfg req st))") auto
qed simp

lemma api_run_low:
  assumes "low_secrets sec sec'"
  shows "erase_keys st = erase_keys st' \<Longrightarrow>
    apsnd erase_keys (api_run (cfg\<lparr>secret_store := sec\<rparr>) rs st)
      = apsnd erase_keys (api_run (cfg\<lparr>secret_store := sec'\<rparr>) rs st')"
proof (induction rs arbitrary: st st')
  case (Cons p rs)
  obtain env req where p: "p = (env, req)" by (cases p)
  let ?a = "handle_session_api env (cfg\<lparr>secret_store := sec\<rparr>) req st"
  let ?b = "handle_session_api env (cfg\<lparr>secret_store := sec'\<rparr>) req st'"
  from handle_session_api_low[OF assms Cons.prems, of env cfg req]
  obtain out a b where a: "?a = (out, a)" and b: "?b = (out, b)" "erase_keys a = erase_keys b"
    by (cases ?a; cases ?b) auto
  from Cons.IH[OF b(2)] show ?case
    by (cases "api_run (cfg\<lparr>secret_store := sec\<rparr>) rs a";
        cases "api_run (cfg\<lparr>secret_store := sec'\<rparr>) rs b") (simp add: p a b)
qed simp

section \<open>What the lookups of the proxy see\<close>

lemma resolve_refs_from:
  "resolve_refs f rs acc = Inr m \<Longrightarrow> hm_ok acc \<Longrightarrow>
     hm_ok m \<and> (\<forall>(r, p)\<in>set m. (r, p) \<in> set acc \<or> f r = Inr p)"
proof (induction rs arbitrary: acc)
  case (Cons r rs)
  then obtain p where p: "f r = Inr p" "resolve_refs f rs (hm_insert r p acc) = Inr m"
    by (auto split: sum.splits)
  from Cons.IH[OF p(2) hm_ok_insert[OF Cons.prems(2)]] p(1) set_hm_insert[of r p acc]
  show ?case by fastforce
qed auto

lemma resolve_all_from:
  assumes "resolve_all (Some f) es = Inr pairs"
  shows "hm_ok pairs" and "(r, p) \<in> set pairs \<Longrightarrow> f r = Inr p"
  using assms resolve_refs_from[of f "mitm_refs es" "[]" pairs]
  by (auto simp: resolve_all_def resolve_pairs_refs)

text \<open>What a 201 answer promises to the tunnel.\<close>

lemma created_lookup:
  assumes "registry_inv (lib env) st"
    and "handle_create_session env sec inp st = (Reply r, st')" and "status r = 201"
    and "body r = SessionBody resp"
  obtains pairs s where "store_get_by_ip st' (resp_source_ip resp) = Some s"
    and "resolve_all sec (allowlist s) = Inr pairs" and "dummy_to_real s = key_map_of pairs"
    and "allowlist s = resp_allowlist resp"
    and "resp_dummy_keys resp = (if pairs = [] then None else Some (dummy_keys_of pairs))"
    and "session_id s = resp_session_id resp" and "registry_inv (lib env) st'"
proof (cases rule: handle_create_cases[of env sec inp st])
  case (reject q)
  with assms show thesis by simp
next
  case (stored bytes q pairs)
  from assms(1) show thesis
  proof (cases rule: finish_create_outcome[where s = "new_session env q" and pairs = pairs])
    case (err q' e)
    with stored(7) assms(2,3) show thesis by auto
  next
    case (ok st1 st2)
    with stored(7) assms(2) have eqs: "st' = st2"
      "r = json_response 201 (SessionBody (created_response env pairs (new_session env q)))" by simp_all
    with assms(4) have resp: "resp = created_response env pairs (new_session env q)"
      by (simp add: json_response_def)
    show thesis
      by (rule that[of "created_session pairs (new_session env q)" pairs])
        (use ok stored(6) eqs in \<open>simp_all add: resp created_response_def session_response_from_def
          created_session_def new_session_def\<close>)
  qed
qed

lemma deleted_lookup:
  assumes "registry_inv (lib env) st" and "store_get_by_ip st ip = Some s"
    and "sql_fault (lib env) DeleteById = None"
  shows "store_get_by_ip (snd (handle_delete_session env (session_id s) st)) ip = None"
proof -
  from assms(2) reg.by_ip_iff[OF assms(1)] have g: "store_get st (session_id s) = Some s" by simp
  then have "store_delete (lib env) (session_id s) st = (Inr True, deleted s st)"
    using assms(3) by (simp add: store_delete_cases[OF registry_inv_mem[OF assms(1)]])
  from reg.by_ip_delete[OF assms(1) this, of ip] assms(2,3) g show ?thesis
    by (simp add: handle_delete_cases[OF assms(1)])
qed

section \<open>An environment to evaluate on\<close>

definition demo_request :: create_session_request where
  "demo_request = \<lparr>req_session_id = ''s1'', req_source_ip = ''172.16.1.2'',
     req_allowlist = demo_allow, req_expires_at = None\<rparr>"

definition demo_env :: "int api_env" where
  "demo_env = \<lparr>lib = demo_lib, clock = demo_time, now_secs = 1000,
     parse_create = (\<lambda>j. if j = ''req'' then Inr demo_request else Inl ''expected value'')\<rparr>"

definition demo_secrets :: mock_secret_store where
  "demo_secrets = mock_insert mock_new ''openai'' ''d'' ''r''"

definition demo_pairs :: "(string, key_pair) hashmap" where
  "demo_pairs = [(''openai'', \<lparr>dummy = ''d'', real = ''r''\<rparr>)]"

lemma demo_resolve: "resolve_all (Some (mock_fetch demo_secrets)) demo_allow = Inr demo_pairs"
  by (simp add: resolve_all_def demo_allow_def mock_fetch_def demo_secrets_def mock_insert_def
      mock_new_def hm_insert_def hm_get_def demo_pairs_def)

definition demo_cfg :: proxy_config where
  "demo_cfg = \<lparr>upstream_port = 0, upstream_host = [], expected_vm_ip = ''172.16.1.2'',
     secret_store = Some (mock_fetch demo_secrets), ca_cert_sha256 = ''ab:cd'', start_time = 900\<rparr>"

definition demo_post :: http_request where
  "demo_post = \<lparr>req_method = ''POST'', req_path = ''/sessions'', req_body = Inr ''req''\<rparr>"

lemma demo_env_lib [simp]: "lib demo_env = demo_lib"
  by (simp add: demo_env_def)

lemma demo_new_session: "new_session demo_env demo_request
    = \<lparr>session_id = ''s1'', source_ip = ''172.16.1.2'', allowlist = demo_allow,
       created_at = 1000, expires_at = None, dummy_to_real = []\<rparr>"
  by (simp add: new_session_def demo_request_def demo_env_def)

lemma demo_created:
  "status (case fst (handle_create_session demo_env (Some (mock_fetch demo_secrets)) (Inr ''req'') demo_empty)
     of Reply r \<Rightarrow> r) = 201"
proof -
  have "to_json demo_lib demo_allow = Inr ''[entry]''" "sql_fault demo_lib q = None" for q
    by (simp_all add: demo_lib_def)
  then have c: "store_create demo_lib (new_session demo_env demo_request) demo_empty
      = (Inr (), inserted (new_session demo_env demo_request) ''[entry]'' demo_empty)"
    unfolding store_create_cases[OF demo_empty_inv]
    by (simp add: demo_new_session demo_empty_def store_get_def store_get_by_ip_def hm_values_def)
  have p: "parse_create demo_env ''req'' = Inr demo_request" by (simp add: demo_env_def)
  have r: "req_allowlist demo_request = demo_allow" "req_session_id demo_request = ''s1''"
    "req_source_ip demo_request = ''172.16.1.2''" "demo_allow \<noteq> []"
    by (simp_all add: demo_request_def demo_allow_def)
  have inv: "registry_inv (lib demo_env) demo_empty"
    and c': "store_create (lib demo_env) (new_session demo_env demo_request) demo_empty
      = (Inr (), inserted (new_session demo_env demo_request) ''[entry]'' demo_empty)"
    using c by (simp_all add: demo_registry)
  show ?thesis
    by (simp add: handle_create_session_def p r demo_resolve finish_create_ok(1)[OF inv c'])
qed

lemma demo_created_reply:
  "handle_create_session demo_env (Some (mock_fetch demo_secrets)) (Inr ''req'') demo_empty
    = (Reply (json_response 201 (SessionBody (created_response demo_env demo_pairs
        (new_session demo_env demo_request)))),
       snd (handle_create_session demo_env (Some (mock_fetch demo_secrets)) (Inr ''req'') demo_empty))"
proof -
  have inv: "registry_inv (lib demo_env) demo_empty" by (simp add: demo_registry)
  have c: "handle_create_session demo_env (Some (mock_fetch demo_secrets)) (Inr ''req'') demo_empty
      = finish_create demo_env demo_pairs (new_session demo_env demo_request) demo_empty"
    using demo_resolve
    by (simp add: handle_create_session_def demo_env_def demo_request_def demo_allow_def)
  from inv show ?thesis
  proof (cases rule: finish_create_outcome[where s = "new_session demo_env demo_request"
        and pairs = demo_pairs])
    case (ok st1 st2)
    then show ?thesis by (simp add: c)
  next
    case (err r e)
    with demo_created show ?thesis by (simp add: c)
  qed
qed

section \<open>Properties\<close>

text \<open>
  C13. Any sequence of requests to the session API, valid or not, keeps the store's invariant
  and is answered: the \<open>unwrap\<close> after a creation never fails when requests run one after
  the other.
\<close>

theorem api_requests_keep_registry:
  assumes "registry_inv lb st" and "\<forall>p\<in>set reqs. lib (fst p) = lb"
  shows "registry_inv lb (snd (api_run cfg reqs st)) \<and> Panic \<notin> set (fst (api_run cfg reqs st))"
  using assms(2,1) by (rule api_run_inv)

theorem api_requests_keep_registry_witness:
  "registry_inv demo_lib (snd (api_run demo_cfg [(demo_env, demo_post), (demo_env, demo_post)] demo_empty))"
  using api_requests_keep_registry[OF demo_registry(2), of "[(demo_env, demo_post), (demo_env, demo_post)]" demo_cfg]
  by simp

text \<open>
  C18. A request that is answered with an error changes nothing: no session, key, row or
  counter differs afterwards.
\<close>

theorem api_errors_change_nothing:
  assumes "registry_inv (lib env) st"
    and "handle_session_api env cfg req st = (Reply r, st')" and "400 \<le> status r"
  shows "st' = st"
proof (cases rule: handle_session_api_cases[of env cfg req st])
  case create
  show ?thesis
  proof (cases rule: handle_create_cases[of env "secret_store cfg" "req_body req" st])
    case (reject q)
    with create assms(2) show ?thesis by simp
  next
    case (stored bytes q pairs)
    show ?thesis
      by (cases rule: finish_create_outcome[OF assms(1), of "new_session env q" pairs])
        (use create stored(7) assms(2,3) in auto)
  qed
next
  case (delete sid)
  with assms handle_delete_cases[OF assms(1), of sid] show ?thesis
    by (auto split: option.splits)
next
  case (read q)
  with assms(2) show ?thesis by simp
qed

theorem api_errors_change_nothing_witness:
  "snd (handle_session_api demo_env demo_cfg
     (demo_post\<lparr>req_body := Inr ''garbage''\<rparr>) demo_store) = demo_store"
  by (rule api_errors_change_nothing[of demo_env _ demo_cfg "demo_post\<lparr>req_body := Inr ''garbage''\<rparr>"
        "error_response 400 ''INVALID_REQUEST'' ''malformed JSON: expected value''"])
    (simp_all add: demo_registry demo_post_def handle_session_api_def handle_create_session_def
      demo_env_def)

text \<open>
  C11. A 201 answer means: the body was a complete request, every credential reference of a
  mitm entry was resolved, id and IP were free, and now the lookups by id and by source IP
  return that session with the key map of the resolved pairs, all other lookups being
  unchanged. The body carries the session and its dummy keys.
\<close>

theorem create_session_effect:
  assumes "registry_inv (lib env) st"
    and "handle_create_session env sec inp st = (Reply r, st')" and "status r = 201"
  shows "\<exists>bytes rq pairs s. inp = Inr bytes \<and> parse_create env bytes = Inr rq
    \<and> resolve_all sec (req_allowlist rq) = Inr pairs
    \<and> req_session_id rq \<noteq> [] \<and> req_source_ip rq \<noteq> [] \<and> req_allowlist rq \<noteq> []
    \<and> s = (new_session env rq)\<lparr>dummy_to_real := key_map_of pairs\<rparr>
    \<and> store_get st (req_session_id rq) = None \<and> store_get_by_ip st (req_source_ip rq) = None
    \<and> store_get st' = (store_get st)(req_session_id rq \<mapsto> s)
    \<and> store_get_by_ip st' = (store_get_by_ip st)(req_source_ip rq \<mapsto> s)
    \<and> body r = SessionBody ((session_response_from (clock env) s)\<lparr>resp_dummy_keys :=
        (if pairs = [] then None else Some (dummy_keys_of pairs))\<rparr>)"
proof (cases rule: handle_create_cases[of env sec inp st])
  case (reject q)
  with assms show ?thesis by auto
next
  case (stored bytes q pairs)
  from assms(1) show ?thesis
  proof (cases rule: finish_create_outcome[where s = "new_session env q" and pairs = pairs])
    case (ok st1 st2)
    have ids: "session_id (new_session env q) = req_session_id q"
      "source_ip (new_session env q) = req_source_ip q" by (simp_all add: new_session_def)
    from reg.create_ok[OF assms(1) ok(1)] have
      "store_get st (req_session_id q) = None" "store_get_by_ip st (req_source_ip q) = None"
      by (simp_all add: ids)
    moreover from stored(7) ok(2) assms(2) have "st' = st2"
      "r = json_response 201 (SessionBody (created_response env pairs (new_session env q)))"
      by simp_all
    ultimately show ?thesis
      using stored ok(4,5)
      by (intro exI[of _ bytes] exI[of _ q] exI[of _ pairs])
        (simp add: created_session_def created_response_def ids json_response_def)
  next
    case (err e q)
    with stored(7) assms(2,3) show ?thesis by auto
  qed
qed

theorem create_session_effect_witness:
  "\<exists>s. store_get (snd (handle_create_session demo_env (Some (mock_fetch demo_secrets))
        (Inr ''req'') demo_empty)) ''s1'' = Some s
     \<and> hm_get (dummy_to_real s) ''d'' = Some ''r''"
proof -
  let ?h = "handle_create_session demo_env (Some (mock_fetch demo_secrets)) (Inr ''req'') demo_empty"
  have inv: "registry_inv (lib demo_env) demo_empty" by (simp add: demo_registry)
  from create_api_inv[OF inv] have "fst ?h \<noteq> Panic" by simp
  then obtain r st' where h: "?h = (Reply r, st')"
    by (metis outcome.exhaust prod.collapse)
  with demo_created have "status r = 201" by simp
  from create_session_effect[OF inv h this] obtain pairs s where
    s: "resolve_all (Some (mock_fetch demo_secrets)) demo_allow = Inr pairs"
      "s = (new_session demo_env demo_request)\<lparr>dummy_to_real := key_map_of pairs\<rparr>"
      "store_get st' = (store_get demo_empty)(''s1'' \<mapsto> s)"
    by (auto simp: demo_env_def demo_request_def)
  from s(1) have "pairs = demo_pairs" by (simp add: demo_resolve)
  with s h show ?thesis
    by (simp add: demo_pairs_def key_map_of_def hm_values_def hm_collect_def hm_insert_def
        hm_get_def)
qed

text \<open>
  C6. Real keys never reach a client of the session API nor the database: two proxies whose
  secret stores give the same dummy keys and whose sessions differ only in their key maps
  answer every sequence of requests alike, and end with the same table, the same counters and
  sessions that again differ only in their key maps.
\<close>

theorem api_reveals_no_real_key:
  assumes "low_secrets sec sec'" and "erase_keys st = erase_keys st'"
  shows "fst (api_run (cfg\<lparr>secret_store := sec\<rparr>) reqs st)
        = fst (api_run (cfg\<lparr>secret_store := sec'\<rparr>) reqs st')
    \<and> conn (snd (api_run (cfg\<lparr>secret_store := sec\<rparr>) reqs st))
        = conn (snd (api_run (cfg\<lparr>secret_store := sec'\<rparr>) reqs st'))
    \<and> erase_keys (snd (api_run (cfg\<lparr>secret_store := sec\<rparr>) reqs st))
        = erase_keys (snd (api_run (cfg\<lparr>secret_store := sec'\<rparr>) reqs st'))"
proof -
  let ?a = "api_run (cfg\<lparr>secret_store := sec\<rparr>) reqs st"
  let ?b = "api_run (cfg\<lparr>secret_store := sec'\<rparr>) reqs st'"
  have eq: "apsnd erase_keys ?a = apsnd erase_keys ?b"
    by (rule api_run_low) fact+
  then have out: "fst ?a = fst ?b" by (metis fst_apsnd)
  from eq have low: "erase_keys (snd ?a) = erase_keys (snd ?b)" by (metis snd_apsnd)
  then have "conn (snd ?a) = conn (snd ?b)" by (metis erase_keys_simps(1))
  with out low show ?thesis by simp
qed

theorem api_reveals_no_real_key_witness:
  "fst (api_run (demo_cfg\<lparr>secret_store := Some (mock_fetch (mock_insert mock_new ''openai'' ''d'' ''sk-a''))\<rparr>)
     [(demo_env, demo_post)] demo_empty)
   = fst (api_run (demo_cfg\<lparr>secret_store := Some (mock_fetch (mock_insert mock_new ''openai'' ''d'' ''sk-b''))\<rparr>)
     [(demo_env, demo_post)] demo_empty)"
  by (rule api_reveals_no_real_key[THEN conjunct1])
    (auto simp: low_secrets_def mock_fetch_def mock_insert_def mock_new_def hm_insert_def
      hm_get_def rel_sum_simps)

text \<open>
  The credential references are resolved exactly: with a file of keys, creation goes on
  exactly when every reference of a mitm entry is in the file; the first missing one is the
  error; and the resolved pairs are the file's entries for those references, no more.
\<close>

theorem credential_resolution:
  "(case resolve_pairs (file_fetch fs) es [] of
      Inl e \<Rightarrow> map_option SecretNotFound
          (List.find (\<lambda>r. hm_get (file_keys fs) r = None) (mitm_refs es)) = Some e
    | Inr pairs \<Rightarrow> hm_ok pairs \<and>
        (\<forall>r. hm_get pairs r = (if r \<in> set (mitm_refs es) then hm_get (file_keys fs) r else None)))
   \<and> ((\<exists>pairs. resolve_pairs (file_fetch fs) es [] = Inr pairs)
        \<longleftrightarrow> set (mitm_refs es) \<subseteq> {r. hm_get (file_keys fs) r \<noteq> None})"
proof -
  have total: "(\<exists>pairs. resolve_refs (file_fetch fs) rs [] = Inr pairs)
      \<longleftrightarrow> set rs \<subseteq> {r. hm_get (file_keys fs) r \<noteq> None}" for rs
    by (auto simp: file_store.resolve_refs_total)
  show ?thesis
  proof (cases "resolve_refs (file_fetch fs) (mitm_refs es) []")
    case (Inl e)
    then have "map_option SecretNotFound
        (List.find (\<lambda>r. hm_get (file_keys fs) r = None) (mitm_refs es)) = Some e"
      by (simp only: file_store.resolve_refs_err)
    with Inl total[of "mitm_refs es"] show ?thesis by (simp add: resolve_pairs_refs)
  next
    case (Inr pairs)
    with file_store.resolve_refs_ok[OF this] total[of "mitm_refs es"] show ?thesis
      by (auto simp: resolve_pairs_refs)
  qed
qed

text \<open>
  The key map that guards the proxy's substitutions contains only pairs of the secret
  store, and, when no dummy key is shared between two different real keys, all of them.
\<close>

theorem key_map_is_exact:
  "(hm_get (key_map_of pairs) d = Some k \<longrightarrow> (\<exists>p\<in>snd ` set pairs. dummy p = d \<and> real p = k))
   \<and> ((\<forall>p\<in>snd ` set pairs. \<forall>q\<in>snd ` set pairs. dummy p = dummy q \<longrightarrow> real p = real q)
      \<longrightarrow> (\<forall>p\<in>snd ` set pairs. hm_get (key_map_of pairs) (dummy p) = Some (real p)))"
proof (intro conjI impI ballI)
  assume "hm_get (key_map_of pairs) d = Some k"
  then obtain c p where "(c, p) \<in> set pairs" "dummy p = d" "real p = k"
    using key_map_of_sound by blast
  then show "\<exists>p\<in>snd ` set pairs. dummy p = d \<and> real p = k" by force
next
  fix p
  assume same: "\<forall>p\<in>snd ` set pairs. \<forall>q\<in>snd ` set pairs. dummy p = dummy q \<longrightarrow> real p = real q"
    and "p \<in> snd ` set pairs"
  then obtain c where c: "(c, p) \<in> set pairs" by auto
  show "hm_get (key_map_of pairs) (dummy p) = Some (real p)"
  proof (rule key_map_of_exact[OF c])
    fix c' q
    assume "(c', q) \<in> set pairs" and "dummy q = dummy p"
    then have "q \<in> snd ` set pairs" by force
    with same \<open>p \<in> snd ` set pairs\<close> \<open>dummy q = dummy p\<close> show "real q = real p" by auto
  qed
qed

theorem key_map_is_exact_witness:
  "hm_get (key_map_of demo_pairs) ''d'' = Some ''r''"
  using key_map_is_exact[of demo_pairs] by (simp add: demo_pairs_def)

lemma deleted_after_create:
  assumes "registry_inv (lib env) st" and "store_create (lib env) s st = (Inr (), st0)"
    and inv: "registry_inv (lib env) st1"
    and get: "store_get st1 = (store_get st)(session_id s \<mapsto> created_session pairs s)"
    and by_ip: "store_get_by_ip st1 = (store_get_by_ip st)(source_ip s \<mapsto> created_session pairs s)"
    and "sql_fault (lib env) DeleteById = None"
  shows "fst (handle_delete_session env (session_id s) st1) = empty_response 204"
    and "store_get (snd (handle_delete_session env (session_id s) st1)) = store_get st"
    and "store_get_by_ip (snd (handle_delete_session env (session_id s) st1)) = store_get_by_ip st"
proof -
  from reg.create_ok[OF assms(1,2)] have fresh: "store_get st (session_id s) = None"
    "store_get_by_ip st (source_ip s) = None" by simp_all
  have found: "store_get st1 (session_id s) = Some (created_session pairs s)" by (simp add: get)
  then have d: "handle_delete_session env (session_id s) st1
      = (empty_response 204, deleted (created_session pairs s) st1)"
    by (simp add: handle_delete_cases[OF inv] assms(6))
  then show "fst (handle_delete_session env (session_id s) st1) = empty_response 204" by simp
  have "store_delete (lib env) (session_id s) st1 = (Inr True, deleted (created_session pairs s) st1)"
    using found by (simp add: store_delete_cases[OF registry_inv_mem[OF inv]] assms(6))
  note del = reg.delete_ok[OF inv this] reg.by_ip_delete[OF inv this]
  show "store_get (snd (handle_delete_session env (session_id s) st1)) = store_get st"
    using del(1) get fresh by (simp add: d fun_upd_idem)
  have "session_id t \<noteq> session_id s" if "store_get_by_ip st ip = Some t" for ip t
    using that fresh reg.by_ip_iff[OF assms(1)] by auto
  moreover have "session_id (created_session pairs s) = session_id s" by (simp add: created_session_def)
  ultimately show "store_get_by_ip (snd (handle_delete_session env (session_id s) st1)) = store_get_by_ip st"
    using fresh by (auto simp: d del(2) by_ip fun_eq_iff split: option.splits)
qed

text \<open>
  C17. Deleting the session a creation has just made, by the id in the 201 answer, is
  answered 204 and gives back the lookups of before.
\<close>

theorem delete_undoes_create:
  assumes "registry_inv (lib env) st"
    and "handle_create_session env sec inp st = (Reply r, st1)"
    and "status r = 201" and "body r = SessionBody resp" and "sql_fault (lib env) DeleteById = None"
  shows "fst (handle_delete_session env (resp_session_id resp) st1) = empty_response 204
    \<and> store_get (snd (handle_delete_session env (resp_session_id resp) st1)) = store_get st
    \<and> store_get_by_ip (snd (handle_delete_session env (resp_session_id resp) st1)) = store_get_by_ip st"
proof (cases rule: handle_create_cases[of env sec inp st])
  case (reject q)
  with assms(2,3) show ?thesis by simp
next
  case (stored bytes q pairs)
  let ?s = "new_session env q"
  from assms(1) show ?thesis
  proof (cases rule: finish_create_outcome[where s = ?s and pairs = pairs])
    case (err q' e)
    with stored(7) assms(2,3) show ?thesis by auto
  next
    case (ok st1' st2)
    with stored(7) assms(2) have st1: "st1 = st2"
      and r: "r = json_response 201 (SessionBody (created_response env pairs ?s))" by simp_all
    with assms(4) have id: "resp_session_id resp = session_id ?s"
      by (auto simp: json_response_def created_response_def session_response_from_def)
    from deleted_after_create[OF assms(1) ok(1,3-5) assms(5)] show ?thesis by (simp add: id st1)
  qed
qed

theorem delete_undoes_create_witness:
  "store_get (snd (handle_delete_session demo_env ''s1''
     (snd (handle_create_session demo_env (Some (mock_fetch demo_secrets)) (Inr ''req'') demo_empty))))
   = store_get demo_empty"
proof -
  let ?h = "handle_create_session demo_env (Some (mock_fetch demo_secrets)) (Inr ''req'') demo_empty"
  have inv: "registry_inv (lib demo_env) demo_empty" by (simp add: demo_registry)
  note h = demo_created_reply
  have id: "resp_session_id (created_response demo_env demo_pairs
      (new_session demo_env demo_request)) = ''s1''"
    by (simp add: created_response_def session_response_from_def demo_new_session)
  show ?thesis
    using delete_undoes_create[OF inv h] by (simp add: json_response_def id) (simp add: demo_lib_def)
qed

text \<open>
  The handler reads the session back with \<open>unwrap\<close>, after releasing the store's lock:
  a deletion of the same id that runs between the two, before or after the keys are
  published, makes the creating request panic.
\<close>

theorem create_delete_race_panics:
  assumes "registry_inv (lib env) st" and "store_create (lib env) s st = (Inr (), st1)"
    and "sql_fault (lib env) DeleteById = None"
  shows "create_reply env pairs (session_id s)
      (publish_keys pairs (session_id s) (snd (handle_delete_session env (session_id s) st1))) = Panic
    \<and> create_reply env pairs (session_id s)
      (snd (handle_delete_session env (session_id s) (publish_keys pairs (session_id s) st1))) = Panic"
proof -
  have inv1: "registry_inv (lib env) st1" using assms(1,2) by (rule reg.inv_create)
  have gone: "store_get (snd (handle_delete_session env sid x)) sid = None
      \<and> registry_inv (lib env) (snd (handle_delete_session env sid x))"
    if x: "registry_inv (lib env) x" for sid x
    using delete_api_inv[OF x, of sid] store_get_deleted[OF registry_inv_mem[OF x], of sid]
    by (auto simp: handle_delete_cases[OF x] assms(3) split: option.splits)
  have pub: "registry_inv (lib env) (publish_keys pairs sid x)
      \<and> (store_get x sid = None \<longrightarrow> store_get (publish_keys pairs sid x) sid = None)"
    if x: "registry_inv (lib env) x" for sid x
    using reg.set_keys_inv[OF x] reg.set_keys_get[OF x prod.collapse[symmetric]] x
    by (simp add: publish_keys_def Let_def)
  have "store_get (publish_keys pairs (session_id s)
      (snd (handle_delete_session env (session_id s) st1))) (session_id s) = None"
    using gone[OF inv1] pub by blast
  moreover have "store_get (snd (handle_delete_session env (session_id s)
      (publish_keys pairs (session_id s) st1))) (session_id s) = None"
    using gone pub[OF inv1] by blast
  ultimately show ?thesis by (simp add: create_reply_def)
qed

theorem create_delete_race_panics_witness:
  "create_reply demo_env demo_pairs ''s1''
     (snd (handle_delete_session demo_env ''s1'' (publish_keys demo_pairs ''s1'' demo_store))) = Panic"
proof -
  have id: "session_id demo_session = ''s1''" by (simp add: demo_session_def)
  show ?thesis
    using create_delete_race_panics[of demo_env demo_empty demo_session demo_store demo_pairs]
    by (simp add: demo_registry demo_create id) (simp add: demo_lib_def)
qed

section \<open>The text of an error\<close>

text \<open>What a JSON reader makes of the characters after an opening quote, for the escapes the
  source uses: the text of the string and what follows its closing quote.\<close>

fun read_json_string :: "string \<Rightarrow> (string \<times> string) option" where
  "read_json_string [] = None"
| "read_json_string (c # s) =
     (if c = DQUOTE then Some ([], s)
      else if c = BACKSLASH then
        (case s of
           d # s' \<Rightarrow> if d = DQUOTE \<or> d = BACKSLASH
             then map_option (apfst (Cons d)) (read_json_string s') else None
         | [] \<Rightarrow> None)
      else map_option (apfst (Cons c)) (read_json_string s))"

text \<open>
  Error messages are escaped for JSON as far as quotes go: a message without backslash
  is read back from the response exactly, quotes included; a message that ends in a
  backslash, which nothing escapes, swallows the closing quote.
\<close>

theorem escaped_message_roundtrip:
  "(BACKSLASH \<notin> set msg \<longrightarrow> read_json_string (escape_quotes msg @ DQUOTE # rest) = Some (msg, rest))
   \<and> read_json_string (escape_quotes [BACKSLASH] @ [DQUOTE]) = None"
proof
  have ne: "DQUOTE \<noteq> BACKSLASH" by (simp add: char_of_eq_iff)
  show "BACKSLASH \<notin> set msg \<longrightarrow>
      read_json_string (escape_quotes msg @ DQUOTE # rest) = Some (msg, rest)"
    using ne by (induction msg) (auto simp: escape_quotes_def replace_char_def)
  show "read_json_string (escape_quotes [BACKSLASH] @ [DQUOTE]) = None"
    using ne by (simp add: escape_quotes_def replace_char_def)
qed

theorem escaped_message_roundtrip_witness:
  "read_json_string (escape_quotes [CHR ''a'', DQUOTE, CHR ''b''] @ DQUOTE # ''}}'')
     = Some ([CHR ''a'', DQUOTE, CHR ''b''], ''}}'')"
  using escaped_message_roundtrip[of "[CHR ''a'', DQUOTE, CHR ''b'']" "''}}''"]
  by (simp add: char_of_eq_iff)

end
