(* ===== verification/Proxy_Connect.thy ===== *)
theory Proxy_Connect
  imports Proxy_Api Http_Rewrite Copy_Stream
begin

text \<open>
  The TCP side of the proxy (\<open>ProxyService\<close> in \<open>crates/proxy/src/proxy.rs\<close>): a
  \<open>CONNECT\<close> request is admitted or refused by the session of its peer, and an admitted one
  spawns a task that terminates TLS on both sides, reads one request, swaps its key and then
  relays bytes.

  The task is the list of what it does to the upstream, given what its environment answers
  (\<open>tunnel_env\<close>): the outcome of the HTTP upgrade, of the TLS handshakes, of the TCP
  connection, of the writes, the bytes the client sends, and \<open>httparse\<close>. Log lines are not
  modelled.
\<close>

section \<open>The request line\<close>

record connect_uri =
  uri_host :: "string option"
  uri_port :: "u16 option"
  uri_text :: string

definition host_port_of :: "connect_uri \<Rightarrow> string" where
  "host_port_of uri =
     (let target = (case uri_host uri of Some h \<Rightarrow> h | None \<Rightarrow> []);
          port = (case uri_port uri of Some p \<Rightarrow> p | None \<Rightarrow> 443)
      in if target = [] then uri_text uri else target @ '':'' @ show_nat (unat port))"

definition parse_port :: "string \<Rightarrow> u16" where
  "parse_port p = (case parse_uint (2 ^ 16) p of Some n \<Rightarrow> word_of_nat n | None \<Rightarrow> 443)"

definition split_target :: "string \<Rightarrow> string \<times> u16" where
  "split_target host_port =
     (case rsplit_once (CHR '':'') host_port of
        Some (h, p) \<Rightarrow> (h, parse_port p)
      | None \<Rightarrow> (host_port, 443))"

section \<open>Admission\<close>

datatype connect_decision =
    Refused http_response
  | Admitted string u16 "(string, string) hashmap"

definition host_allowed :: "session \<Rightarrow> string \<Rightarrow> bool" where
  "host_allowed s host =
     (let h = to_lowercase host in list_ex (\<lambda>a. to_lowercase (domain a) = h) (allowlist s))"

definition admit :: "session_store \<Rightarrow> string option \<Rightarrow> string \<Rightarrow> connect_decision" where
  "admit st peer_ip host_port =
     (let (host, port) = split_target host_port in
      case Option.bind peer_ip (store_get_by_ip st) of
        None \<Rightarrow> Refused (empty_response 403)
      | Some s \<Rightarrow>
          if \<not> host_allowed s host then Refused (empty_response 403)
          else Admitted host port (dummy_to_real s))"

section \<open>The tunnel task\<close>

datatype accept_outcome = AcceptOk | AcceptFailed string | AcceptTimeout

record tunnel_env =
  upgrade :: "(string, unit) result"
  tls_accept :: accept_outcome
  tcp_connect :: "string \<Rightarrow> (string, unit) result"
  server_name :: "string \<Rightarrow> (string, unit) result"
  tls_connect :: "string \<Rightarrow> (string, unit) result"
  client_data :: stream
  parse_http :: "string \<Rightarrow> httparse_result"
  write_upstream :: write_result
  flush_upstream :: "(string, unit) result"

datatype tunnel_action =
    OpenTcp string
  | OpenTls string
  | SendUpstream string
  | StartRelay stream
  | TaskPanic

definition upstream_addr :: "proxy_config \<Rightarrow> string \<Rightarrow> u16 \<Rightarrow> string" where
  "upstream_addr cfg host port =
     (let real_port = (if upstream_port cfg \<noteq> 0 then upstream_port cfg else port);
          real_host = (if upstream_host cfg = [] then host else upstream_host cfg)
      in real_host @ '':'' @ show_nat (unat real_port))"

definition forbidden_bytes :: string where
  "forbidden_bytes =
     ''HTTP/1.1 403 Forbidden'' @ crlf @ ''Content-Length: 0'' @ header_terminator"

text \<open>\<open>tls_upstream.write_all\<close>: the bytes that were written, and whether all were.\<close>

definition write_all :: "tunnel_env \<Rightarrow> string \<Rightarrow> tunnel_action list \<times> bool" where
  "write_all env b =
     (case write_upstream env of
        Written \<Rightarrow> ([SendUpstream b], True)
      | WriteFailed n e \<Rightarrow> ([SendUpstream (take n b)], False))"

text \<open>From the client's request to the relay: the part of the task after both handshakes.\<close>

definition forward_request ::
  "tunnel_env \<Rightarrow> string \<Rightarrow> (string, string) hashmap \<Rightarrow> tunnel_action list" where
  "forward_request env host keys =
     (case read_http_request (parse_http env) (client_data env) of
        (ReadErr e, _) \<Rightarrow> []
      | (CapacityPanic, _) \<Rightarrow> [TaskPanic]
      | (ReadOk req_bytes, rest) \<Rightarrow>
          (let forwarded =
             (if is_websocket_upgrade req_bytes then Inr req_bytes
              else rewrite_request req_bytes keys host)
           in case forwarded of
                Inl err \<Rightarrow> fst (write_all env forbidden_bytes)
              | Inr out \<Rightarrow>
                  (case write_all env out of
                     (acts, False) \<Rightarrow> acts
                   | (acts, True) \<Rightarrow>
                       (case flush_upstream env of
                          Inl e \<Rightarrow> acts
                        | Inr _ \<Rightarrow> acts @ [StartRelay rest]))))"

definition tunnel_task ::
  "tunnel_env \<Rightarrow> proxy_config \<Rightarrow> string \<Rightarrow> u16 \<Rightarrow> (string, string) hashmap \<Rightarrow> tunnel_action list" where
  "tunnel_task env cfg host port keys =
     (case upgrade env of
        Inl e \<Rightarrow> []
      | Inr _ \<Rightarrow>
     (case tls_accept env of
        AcceptFailed e \<Rightarrow> []
      | AcceptTimeout \<Rightarrow> []
      | AcceptOk \<Rightarrow>
          (let addr = upstream_addr cfg host port in
           case tcp_connect env addr of
             Inl e \<Rightarrow> [OpenTcp addr]
           | Inr _ \<Rightarrow>
          (case server_name env host of
             Inl e \<Rightarrow> [OpenTcp addr]
           | Inr _ \<Rightarrow>
          (case tls_connect env host of
             Inl e \<Rightarrow> [OpenTcp addr, OpenTls host]
           | Inr _ \<Rightarrow> [OpenTcp addr, OpenTls host] @ forward_request env host keys)))))"

text \<open>\<open>handle_connect\<close>: the answer to the client, and what the spawned task does.\<close>

definition handle_connect ::
  "tunnel_env \<Rightarrow> proxy_config \<Rightarrow> session_store \<Rightarrow> string option \<Rightarrow> string
     \<Rightarrow> http_response \<times> tunnel_action list" where
  "handle_connect env cfg st peer_ip host_port =
     (case admit st peer_ip host_port of
        Refused r \<Rightarrow> (r, [])
      | Admitted host port keys \<Rightarrow> (empty_response 200, tunnel_task env cfg host port keys))"

definition tcp_reject :: \<open>http_response\<close> where
  \<open>tcp_reject = json_response 403 (TextBody
     ''{"error":{"code":"INVALID_REQUEST","message":"TCP port accepts CONNECT only. REST API is on the unix socket."}}'')\<close>

definition proxy_service ::
  "tunnel_env \<Rightarrow> proxy_config \<Rightarrow> session_store \<Rightarrow> string option \<Rightarrow> string \<Rightarrow> connect_uri
     \<Rightarrow> http_response \<times> tunnel_action list" where
  "proxy_service env cfg st peer_ip meth uri =
     (if meth = ''CONNECT'' then handle_connect env cfg st peer_ip (host_port_of uri)
      else (tcp_reject, []))"

section \<open>Targets\<close>

lemma parse_port_show [simp]: "parse_port (show_nat (unat (p :: u16))) = p"
proof -
  have "unat p < 2 ^ 16" using unsigned_less[of p] by simp
  then show ?thesis by (simp add: parse_port_def parse_show_nat)
qed

lemma split_target_show: "split_target (h @ '':'' @ show_nat (unat p)) = (h, p)"
proof -
  have "CHR '':'' \<notin> set (show_nat (unat p))" by (rule show_nat_no) (simp add: is_digit_def)
  then have "rsplit_once (CHR '':'') (h @ '':'' @ show_nat (unat p)) = Some (h, show_nat (unat p))"
    by (simp add: rsplit_once_Some_iff)
  then show ?thesis by (simp add: split_target_def)
qed

section \<open>What goes upstream\<close>

definition sent :: "tunnel_action list \<Rightarrow> string" where
  "sent acts = concat (map (\<lambda>a. case a of SendUpstream b \<Rightarrow> b | _ \<Rightarrow> []) acts)"

lemma sent_simps [simp]:
  "sent [] = []" "sent (a # as) = (case a of SendUpstream b \<Rightarrow> b | _ \<Rightarrow> []) @ sent as"
  "sent (as @ bs) = sent as @ sent bs"
  by (simp_all add: sent_def)

definition writable :: "tunnel_env \<Rightarrow> string \<Rightarrow> string" where
  "writable env b = (case write_upstream env of Written \<Rightarrow> b | WriteFailed n e \<Rightarrow> take n b)"

lemma write_all_sent: "sent (fst (write_all env b)) = writable env b"
  by (simp add: write_all_def writable_def split: write_result.splits)

lemma write_all_acts: "fst (write_all env b) = [SendUpstream (writable env b)]"
  by (simp add: write_all_def writable_def split: write_result.splits)

lemma forward_request_ok:
  assumes "read_http_request (parse_http env) (client_data env) = (ReadOk req, rest)"
    and "(if is_websocket_upgrade req then Inr req else rewrite_request req keys host) = Inr out"
  shows "forward_request env host keys = SendUpstream (writable env out)
    # (if write_upstream env = Written \<and> (\<exists>u. flush_upstream env = Inr u) then [StartRelay rest] else [])"
  using assms
  by (auto simp: forward_request_def write_all_def writable_def
      split: write_result.splits sum.splits)

lemma forward_request_refused:
  assumes "read_http_request (parse_http env) (client_data env) = (ReadOk req, rest)"
    and "\<not> is_websocket_upgrade req" and "rewrite_request req keys host = Inl err"
  shows "forward_request env host keys = [SendUpstream (writable env forbidden_bytes)]"
  using assms by (simp add: forward_request_def write_all_acts)

lemma forward_request_cases:
  obtains (unread) "sent (forward_request env host keys) = []"
      "\<And>r. StartRelay r \<notin> set (forward_request env host keys)"
  | (refused) req rest err where
      "read_http_request (parse_http env) (client_data env) = (ReadOk req, rest)"
      "\<not> is_websocket_upgrade req" "rewrite_request req keys host = Inl err"
      "forward_request env host keys = [SendUpstream (writable env forbidden_bytes)]"
  | (forwarded) req rest out where
      "read_http_request (parse_http env) (client_data env) = (ReadOk req, rest)"
      "(if is_websocket_upgrade req then Inr req else rewrite_request req keys host) = Inr out"
      "forward_request env host keys = SendUpstream (writable env out)
        # (if write_upstream env = Written \<and> (\<exists>u. flush_upstream env = Inr u) then [StartRelay rest] else [])"
proof (cases "read_http_request (parse_http env) (client_data env)")
  case (Pair o' rest)
  show thesis
  proof (cases o')
    case (ReadOk req)
    with Pair have rd: "read_http_request (parse_http env) (client_data env) = (ReadOk req, rest)"
      by simp
    show thesis
    proof (cases "if is_websocket_upgrade req then Inr req else rewrite_request req keys host")
      case (Inl err)
      then have "\<not> is_websocket_upgrade req" "rewrite_request req keys host = Inl err"
        by (simp_all split: if_splits)
      with rd show thesis by (intro refused forward_request_refused)
    next
      case (Inr out)
      with rd show thesis by (intro forwarded forward_request_ok)
    qed
  qed (use Pair in \<open>auto intro!: unread simp: forward_request_def\<close>)
qed

text \<open>The task either stops before its request is read or runs \<open>forward_request\<close>.\<close>

lemma tunnel_task_cases:
  obtains (early) "sent (tunnel_task env cfg host port keys) = []"
      "\<And>r. StartRelay r \<notin> set (tunnel_task env cfg host port keys)"
      "\<And>keys'. tunnel_task env cfg host port keys' = tunnel_task env cfg host port keys"
  | (runs) "\<And>keys'. tunnel_task env cfg host port keys' =
      [OpenTcp (upstream_addr cfg host port), OpenTls host] @ forward_request env host keys'"
proof -
  let ?run = "(\<exists>u. upgrade env = Inr u) \<and> tls_accept env = AcceptOk
    \<and> (\<exists>u. tcp_connect env (upstream_addr cfg host port) = Inr u)
    \<and> (\<exists>u. server_name env host = Inr u) \<and> (\<exists>u. tls_connect env host = Inr u)"
  show thesis
  proof (cases ?run)
    case True
    then show thesis by (intro runs) (auto simp: tunnel_task_def)
  next
    case False
    then show thesis
      by (intro early)
        (auto simp: tunnel_task_def Let_def split: sum.splits accept_outcome.splits)
  qed
qed

text \<open>Everything up to the client's request succeeds.\<close>

definition handshakes_ok :: "tunnel_env \<Rightarrow> proxy_config \<Rightarrow> string \<Rightarrow> u16 \<Rightarrow> bool" where
  "handshakes_ok env cfg host port \<longleftrightarrow> upgrade env = Inr () \<and> tls_accept env = AcceptOk
     \<and> tcp_connect env (upstream_addr cfg host port) = Inr ()
     \<and> server_name env host = Inr () \<and> tls_connect env host = Inr ()"

lemma tunnel_task_ok:
  "handshakes_ok env cfg host port \<Longrightarrow> tunnel_task env cfg host port keys =
     [OpenTcp (upstream_addr cfg host port), OpenTls host] @ forward_request env host keys"
  by (simp add: handshakes_ok_def tunnel_task_def)

lemma admit_cases:
  "admit st peer_ip hp =
    (case Option.bind peer_ip (store_get_by_ip st) of
       None \<Rightarrow> Refused (empty_response 403)
     | Some s \<Rightarrow> if host_allowed s (fst (split_target hp))
         then Admitted (fst (split_target hp)) (snd (split_target hp)) (dummy_to_real s)
         else Refused (empty_response 403))"
  by (simp add: admit_def case_prod_unfold Let_def split: option.splits)

section \<open>Sessions of other peers\<close>

text \<open>Operations that do not name the session \<open>sid\<close>. A creation may name it, or its IP: it
  then fails, since both are taken.\<close>

fun spares :: "string \<Rightarrow> store_op \<Rightarrow> bool" where
  "spares sid (OpDelete i) = (i \<noteq> sid)"
| "spares sid (OpSetKeys i keys) = (i \<noteq> sid)"
| "spares sid _ = True"

lemma step_spares:
  assumes inv: "registry_inv lb st" and ip: "store_get_by_ip st ip = Some s"
    and "spares (session_id s) op"
  shows "store_get_by_ip (store_step lb op st) ip = Some s"
proof -
  from ip reg.by_ip_iff[OF inv] have src: "source_ip s = ip" by simp
  show ?thesis
  proof (cases op)
    case (OpCreate t)
    obtain r st' where c: "store_create lb t st = (r, st')" by fastforce
    show ?thesis
    proof (cases r)
      case (Inl e)
      with c reg.create_err[of lb t st e st'] ip OpCreate show ?thesis by simp
    next
      case (Inr u)
      with c have ok: "store_create lb t st = (Inr (), st')" by simp
      from reg.create_ok[OF inv ok] ip have "source_ip t \<noteq> ip" by auto
      with reg.by_ip_create[OF inv ok] ip c OpCreate show ?thesis by simp
    qed
  next
    case (OpDelete i)
    obtain r st' where c: "store_delete lb i st = (r, st')" by fastforce
    show ?thesis
    proof (cases r)
      case (Inl e)
      with c reg.delete_err[of lb i st e st'] ip OpDelete show ?thesis by simp
    next
      case (Inr b)
      with c have ok: "store_delete lb i st = (Inr b, st')" by simp
      from reg.by_ip_delete[OF inv ok, of ip] ip c OpDelete assms(3) show ?thesis by simp
    qed
  next
    case (OpSetKeys i keys)
    obtain b st' where c: "set_key_map i keys st = (b, st')" by fastforce
    from reg.by_ip_set_keys[OF inv c, of ip] ip c OpSetKeys assms(3) show ?thesis by simp
  next
    case (OpStats i kind up down)
    with ip show ?thesis by (simp add: record_stats_def Let_def store_get_by_ip_def)
  qed
qed

lemma run_spares:
  assumes "registry_inv lb st" and "store_get_by_ip st ip = Some s"
    and "\<forall>op\<in>set ops. spares (session_id s) op"
  shows "store_get_by_ip (store_run lb ops st) ip = Some s"
  using assms
proof (induction ops arbitrary: st)
  case (Cons op ops)
  then have inv: "registry_inv lb (store_step lb op st)"
    by (simp add: registry_inv_def store_inv_step)
  have "store_get_by_ip (store_step lb op st) ip = Some s"
    using Cons.prems by (simp add: step_spares)
  with Cons.IH[OF inv] Cons.prems(3) show ?case by (simp add: store_run_def)
qed (simp add: store_run_def)

section \<open>A tunnel to evaluate on\<close>

definition demo_tunnel :: "string \<Rightarrow> tunnel_env" where
  "demo_tunnel raw = \<lparr>upgrade = Inr (), tls_accept = AcceptOk, tcp_connect = (\<lambda>_. Inr ()),
     server_name = (\<lambda>_. Inr ()), tls_connect = (\<lambda>_. Inr ()), client_data = [Bytes raw],
     parse_http = (\<lambda>_. Complete []), write_upstream = Written, flush_upstream = Inr ()\<rparr>"

lemma demo_read:
  assumes "find_header_end raw = Some n" and "length raw \<le> 4096"
  shows "read_http_request (\<lambda>_. Complete []) [Bytes raw] = (ReadOk raw, [])"
proof -
  from assms(1) have "raw \<noteq> []" by (auto simp: find_header_end_def)
  with assms show ?thesis
    by (simp add: read_http_request_def read_head.simps read_body_def scan_headers_def)
qed

lemma demo_raw_head: "find_header_end demo_raw = Some 72"
  by (simp add: find_header_end_find_sub demo_raw_def demo_lines_def header_terminator_def crlf_def)

lemma demo_raw_plain: "\<not> is_websocket_upgrade demo_raw"
proof -
  have "from_utf8_lossy demo_raw = demo_raw"
    by (intro lossy_valid_id utf8_valid_ascii) (simp add: demo_raw_def demo_lines_def crlf_def)
  then show ?thesis
    by (simp add: is_websocket_upgrade_def Let_def)
      (simp add: demo_raw_def demo_lines_def crlf_def str_lines_def strip_cr_def
        eq_ignore_ascii_case_def ascii_lower_def)
qed


definition demo_ws :: string where
  "demo_ws = join crlf [''GET / HTTP/1.1'', ''Connection: Upgrade'', ''Upgrade: websocket'', [], []]"

lemma demo_ws_head: "find_header_end demo_ws = Some 59"
  by (simp add: find_header_end_find_sub demo_ws_def header_terminator_def crlf_def)

lemma demo_ws_upgrade: "is_websocket_upgrade demo_ws"
proof -
  have "from_utf8_lossy demo_ws = demo_ws"
    by (intro lossy_valid_id utf8_valid_ascii) (simp add: demo_ws_def crlf_def)
  moreover have "str_lines demo_ws = [''GET / HTTP/1.1'', ''Connection: Upgrade'', ''Upgrade: websocket'', []]"
    by (simp add: demo_ws_def crlf_def str_lines_def strip_cr_def)
  moreover have "to_lowercase ''Upgrade: websocket'' = ''upgrade: websocket''"
    by (simp add: to_lowercase_ascii ascii_lower_def char_of_eq_iff)
  ultimately show ?thesis
    by (simp add: is_websocket_upgrade_def Let_def eq_ignore_ascii_case_def ascii_lower_def
        char_of_eq_iff str_contains_def)
qed

definition demo_uri :: connect_uri where
  "demo_uri = \<lparr>uri_host = Some ''API.openai.com'', uri_port = Some 443,
     uri_text = ''API.openai.com:443''\<rparr>"

definition demo_ready :: session_store where
  "demo_ready = snd (set_key_map ''s1'' [(''d'', ''r'')] demo_store)"

lemma demo_ready_ip: "store_get_by_ip demo_ready ''172.16.1.2''
    = Some (demo_session\<lparr>dummy_to_real := [(''d'', ''r'')]\<rparr>)"
  by (simp add: demo_ready_def set_key_map_def demo_store_def inserted_def demo_empty_def
      hm_insert_def demo_session_def forget_keys_def store_get_by_ip_def hm_get_def)

lemma demo_target: "split_target (host_port_of demo_uri) = (''API.openai.com'', 443)"
  using split_target_show[of "''API.openai.com''" 443]
  by (simp add: host_port_of_def demo_uri_def)

lemma demo_tunnel_read: "find_header_end raw = Some n \<Longrightarrow> length raw \<le> 4096 \<Longrightarrow>
    read_http_request (parse_http (demo_tunnel raw)) (client_data (demo_tunnel raw)) = (ReadOk raw, [])"
  using demo_read[of raw n] by (simp add: demo_tunnel_def)

lemma demo_lengths: "length demo_raw \<le> 4096" "length demo_ws \<le> 4096"
  by (simp_all add: demo_raw_def demo_lines_def demo_ws_def crlf_def)

lemma demo_tunnel_runs: "tunnel_task (demo_tunnel raw) cfg host port keys =
    [OpenTcp (upstream_addr cfg host port), OpenTls host] @ forward_request (demo_tunnel raw) host keys"
  by (simp add: tunnel_task_def demo_tunnel_def)

section \<open>Properties\<close>



text \<open>
  The host and port a client asks for are the ones the proxy checks and connects to: the
  text built from the URI is split back into the same host and the same port, IPv6 literals
  included; without a port it is 443.
\<close>

theorem connect_target_roundtrip:
  assumes "uri_host uri = Some h" and "h \<noteq> []"
  shows "split_target (host_port_of uri)
    = (h, case uri_port uri of Some p \<Rightarrow> p | None \<Rightarrow> 443)"
  using assms split_target_show[of h "case uri_port uri of Some p \<Rightarrow> p | None \<Rightarrow> 443"]
  by (simp add: host_port_of_def)

theorem connect_target_roundtrip_witness:
  "split_target (host_port_of \<lparr>uri_host = Some ''[::1]'', uri_port = Some 8443, uri_text = []\<rparr>)
     = (''[::1]'', 8443)"
  by (subst connect_target_roundtrip) simp_all

text \<open>
  C15. What an upstream receives before the relay starts is, up to a write that fails
  midway, one of three things: the request of the client unchanged, if it is a WebSocket
  upgrade; the request with its key swapped, if the session knows the key; the refusal
  otherwise. The bytes read from the client are accounted for in order.
\<close>

theorem tunnel_sends:
  assumes "sent (tunnel_task env cfg host port keys) \<noteq> []"
  shows "\<exists>req rest out t. read_http_request (parse_http env) (client_data env) = (ReadOk req, rest)
    \<and> sent (tunnel_task env cfg host port keys) @ t = out
    \<and> (is_websocket_upgrade req \<and> out = req
       \<or> \<not> is_websocket_upgrade req \<and> rewrite_request req keys host = Inr out
       \<or> \<not> is_websocket_upgrade req \<and> (\<exists>e. rewrite_request req keys host = Inl e)
           \<and> out = forbidden_bytes \<and> (\<forall>r. StartRelay r \<notin> set (tunnel_task env cfg host port keys)))"
proof -
  have wr: "\<exists>t. writable env b @ t = b" for b
    by (simp add: writable_def split: write_result.splits) (metis append_take_drop_id)
  show ?thesis
  proof (cases rule: tunnel_task_cases[of env cfg host port keys])
    case early
    with assms show ?thesis by simp
  next
    case runs
    note run = runs[of keys]
    show ?thesis
    proof (cases rule: forward_request_cases[of env host keys])
      case unread
      with assms run show ?thesis by simp
    next
      case (refused req rest err)
      with run wr[of forbidden_bytes] show ?thesis by auto
    next
      case (forwarded req rest out)
      then have "sent (tunnel_task env cfg host port keys) = writable env out"
        unfolding run by auto
      with wr[of out] forwarded(1,2) show ?thesis by (auto split: if_splits)
    qed
  qed
qed

theorem tunnel_sends_witness:
  "\<exists>out. rewrite_request demo_raw [(''d'', ''r'')] ''host.name'' = Inr out
     \<and> (\<exists>t. sent (tunnel_task (demo_tunnel demo_raw) demo_cfg ''host.name'' 443 [(''d'', ''r'')]) @ t = out)"
proof -
  note rd = demo_tunnel_read[OF demo_raw_head demo_lengths(1)]
  obtain out where out: "rewrite_request demo_raw [(''d'', ''r'')] ''host.name'' = Inr out" "out \<noteq> []"
    by (simp add: rewrite_request_eq demo_presented hm_get_def demo_rewritten)
  have "forward_request (demo_tunnel demo_raw) ''host.name'' [(''d'', ''r'')] = [SendUpstream out, StartRelay []]"
    using forward_request_ok[OF rd, of "[(''d'', ''r'')]" "''host.name''" out] out demo_raw_plain
    by (simp add: demo_tunnel_def writable_def)
  then have "sent (tunnel_task (demo_tunnel demo_raw) demo_cfg ''host.name'' 443 [(''d'', ''r'')]) \<noteq> []"
    using out(2) by (simp add: demo_tunnel_runs)
  from tunnel_sends[OF this] rd demo_raw_plain out show ?thesis by auto
qed

text \<open>
  One key per tunnel: the whole task depends on the session's key map only through the
  key the request presents. Replacing every other real key changes nothing that is sent.
\<close>

theorem tunnel_uses_one_key:
  assumes "\<And>req rest d. read_http_request (parse_http env) (client_data env) = (ReadOk req, rest)
      \<Longrightarrow> presented_key req = Some d \<Longrightarrow> hm_get keys d = hm_get keys' d"
  shows "tunnel_task env cfg host port keys = tunnel_task env cfg host port keys'"
proof -
  have "forward_request env host keys = forward_request env host keys'"
  proof (cases "read_http_request (parse_http env) (client_data env)")
    case (Pair o' rest)
    show ?thesis
    proof (cases o')
      case (ReadOk req)
      with Pair assms have "rewrite_request req keys host = rewrite_request req keys' host"
        by (simp add: rewrite_request_eq split: option.splits)
      with Pair ReadOk show ?thesis by (simp add: forward_request_def)
    qed (use Pair in \<open>simp_all add: forward_request_def\<close>)
  qed
  note fwd = this
  show ?thesis
  proof (cases rule: tunnel_task_cases[of env cfg host port keys])
    case early
    show ?thesis by (rule early(3)[symmetric])
  next
    case runs
    show ?thesis by (simp only: runs fwd)
  qed
qed

theorem tunnel_uses_one_key_witness:
  "tunnel_task (demo_tunnel demo_raw) demo_cfg ''h'' 443 [(''d'', ''r''), (''e'', ''s'')]
     = tunnel_task (demo_tunnel demo_raw) demo_cfg ''h'' 443 [(''d'', ''r''), (''e'', ''t'')]"
proof (rule tunnel_uses_one_key)
  fix req rest d
  assume "read_http_request (parse_http (demo_tunnel demo_raw)) (client_data (demo_tunnel demo_raw))
      = (ReadOk req, rest)" and "presented_key req = Some d"
  then have "d = ''d''"
    using demo_tunnel_read[OF demo_raw_head demo_lengths(1)] demo_presented by simp
  then show "hm_get [(''d'', ''r''), (''e'', ''s'')] d = hm_get [(''d'', ''r''), (''e'', ''t'')] d"
    by (simp add: hm_get_def)
qed

text \<open>
  A request that is refused for its key is answered to the wrong side: the only bytes the
  task writes are a 403 response, and it writes them to the upstream server.
\<close>

theorem refusal_goes_upstream:
  assumes "handshakes_ok env cfg host port" and "write_upstream env = Written"
    and "read_http_request (parse_http env) (client_data env) = (ReadOk req, rest)"
    and "\<not> is_websocket_upgrade req" and "rewrite_request req keys host = Inl e"
  shows "tunnel_task env cfg host port keys
    = [OpenTcp (upstream_addr cfg host port), OpenTls host, SendUpstream forbidden_bytes]"
  using assms(2) forward_request_refused[OF assms(3-5)]
  by (simp add: tunnel_task_ok[OF assms(1)] writable_def)

theorem refusal_goes_upstream_witness:
  "tunnel_task (demo_tunnel demo_raw) demo_cfg ''h'' 443 []
     = [OpenTcp (upstream_addr demo_cfg ''h'' 443), OpenTls ''h'', SendUpstream forbidden_bytes]"
proof (rule refusal_goes_upstream)
  show "read_http_request (parse_http (demo_tunnel demo_raw)) (client_data (demo_tunnel demo_raw))
      = (ReadOk demo_raw, [])"
    by (rule demo_tunnel_read[OF demo_raw_head demo_lengths(1)])
  show "rewrite_request demo_raw [] ''h'' = Inl (UnknownDummyKey ''d'')"
    by (simp add: rewrite_request_eq demo_presented)
qed (simp_all add: handshakes_ok_def demo_tunnel_def demo_raw_plain)

text \<open>
  C10. Sessions are isolated: however sessions of other ids are created, deleted, given keys
  or counted, what the proxy answers to a peer and does for it stays the same.
\<close>

theorem sessions_are_isolated:
  assumes "registry_inv lb st" and "store_get_by_ip st ip = Some s"
    and "\<forall>op\<in>set ops. spares (session_id s) op"
  shows "proxy_service env cfg (store_run lb ops st) (Some ip) meth uri
    = proxy_service env cfg st (Some ip) meth uri"
  using run_spares[OF assms] assms(2)
  by (simp add: proxy_service_def handle_connect_def admit_cases)

theorem sessions_are_isolated_witness:
  "proxy_service (demo_tunnel demo_raw) demo_cfg (store_run demo_lib [OpDelete ''s2'', OpSetKeys ''s3'' []] demo_store)
      (Some ''172.16.1.2'') ''CONNECT'' demo_uri
     = proxy_service (demo_tunnel demo_raw) demo_cfg demo_store (Some ''172.16.1.2'') ''CONNECT'' demo_uri"
proof (rule sessions_are_isolated[OF demo_registry(1)])
  show "store_get_by_ip demo_store ''172.16.1.2'' = Some demo_session"
    by (simp add: demo_store_def inserted_def demo_empty_def hm_insert_def demo_session_def
        forget_keys_def store_get_by_ip_def hm_get_def)
qed (simp add: demo_session_def)

text \<open>
  A WebSocket tunnel is transparent: what the upstream has received at any moment of the
  relay, handshake request included, is a prefix of the bytes the client sent.
\<close>

theorem websocket_is_transparent:
  assumes "read_http_request (parse_http env) (client_data env) = (ReadOk req, rest)"
    and "is_websocket_upgrade req"
    and "\<And>buf hs. parse_http env buf = Complete hs \<Longrightarrow> \<not> snd (scan_headers hs)"
    and "StartRelay rest \<in> set (tunnel_task env cfg host port keys)"
    and "copy_reach (copy_start up rest) s"
  shows "\<exists>t. stream_bytes (client_data env)
    = sent (tunnel_task env cfg host port keys) @ upstream_out s @ t"
proof -
  from read_http_request_ok[OF assms(1)] assms(3)
  have all: "stream_bytes (client_data env) = req @ stream_bytes rest" by auto
  from relayed_reach[OF assms(5) relayed_start] obtain t where
    t: "stream_bytes rest = upstream_out s @ t" by (auto simp: relayed_def)
  have "sent (tunnel_task env cfg host port keys) = req"
  proof (cases rule: tunnel_task_cases[of env cfg host port keys])
    case early
    with assms(4) show ?thesis by blast
  next
    case runs
    have "forward_request env host keys = SendUpstream (writable env req)
        # (if write_upstream env = Written \<and> (\<exists>u. flush_upstream env = Inr u) then [StartRelay rest] else [])"
      by (rule forward_request_ok[OF assms(1)]) (simp add: assms(2))
    with assms(4) runs[of keys] show ?thesis by (auto simp: writable_def split: if_splits)
  qed
  with all t show ?thesis by simp
qed

theorem websocket_is_transparent_witness:
  "\<exists>t. demo_ws = sent (tunnel_task (demo_tunnel demo_ws) demo_cfg ''h'' 443 []) @ t"
proof -
  note rd = demo_tunnel_read[OF demo_ws_head demo_lengths(2)]
  have "forward_request (demo_tunnel demo_ws) ''h'' [] = [SendUpstream demo_ws, StartRelay []]"
    using forward_request_ok[OF rd, of "[]" "''h''" demo_ws] demo_ws_upgrade
    by (simp add: demo_tunnel_def writable_def)
  then have relay: "StartRelay [] \<in> set (tunnel_task (demo_tunnel demo_ws) demo_cfg ''h'' 443 [])"
    by (simp add: demo_tunnel_runs)
  have "\<not> snd (scan_headers hs)" if "parse_http (demo_tunnel demo_ws) buf = Complete hs" for buf hs
    using that by (simp add: demo_tunnel_def scan_headers_def)
  from websocket_is_transparent[OF rd demo_ws_upgrade this relay copy_reach.refl[of "copy_start [] []"]]
  show ?thesis by (auto simp: demo_tunnel_def)
qed

end
