(* ===== verification/Vm_Types.thy ===== *)
theory Vm_Types
  imports Rust_Text Session
begin

text \<open>
  The vocabulary of the VM manager: error codes (\<open>error.rs\<close>), request and response types
  (\<open>types.rs\<close>), path and id helpers (\<open>helpers.rs\<close>) and the constants of \<open>main.rs\<close>, all
  under \<open>crates/vm-manager/src\<close>.

  A response body is the value that \<open>serde_json\<close> serialises. A request is the value it
  parses, with the defaults of the missing fields already filled in (\<open>request_defaults\<close>
  fills them).
\<close>

section \<open>Errors\<close>

datatype error_code =
    InvalidRequest | ImageNotFound | SessionExists | CredentialRefInvalid
  | VmLaunchFailed | ProxyUnavailable | InternalError

fun code_status :: "error_code \<Rightarrow> nat" where
  "code_status InvalidRequest = 400"
| "code_status ImageNotFound = 404"
| "code_status SessionExists = 409"
| "code_status CredentialRefInvalid = 422"
| "code_status VmLaunchFailed = 500"
| "code_status ProxyUnavailable = 502"
| "code_status InternalError = 500"

fun code_as_str :: "error_code \<Rightarrow> string" where
  "code_as_str InvalidRequest = ''INVALID_REQUEST''"
| "code_as_str ImageNotFound = ''IMAGE_NOT_FOUND''"
| "code_as_str SessionExists = ''SESSION_EXISTS''"
| "code_as_str CredentialRefInvalid = ''CREDENTIAL_REF_INVALID''"
| "code_as_str VmLaunchFailed = ''VM_LAUNCH_FAILED''"
| "code_as_str ProxyUnavailable = ''PROXY_UNAVAILABLE''"
| "code_as_str InternalError = ''INTERNAL_ERROR''"

record error_detail =
  err_code :: string
  err_message :: string
  err_detail :: "string option"

section \<open>Requests and responses\<close>

record file_entry =
  guest_path :: string
  file_source :: string
  content :: "string option"
  url :: "string option"
  git_ref :: "string option"
  host_path :: "string option"

record egress_entry =
  egress_domain :: string
  inject_key :: bool
  egress_credential_ref :: "string option"

record egress_config =
  ec_allowlist :: "egress_entry list"

record create_environment_request =
  ce_session_id :: string
  image :: string
  vcpus :: u32
  memory_mib :: u32
  files :: "file_entry list"
  egress :: egress_config
  timeout_secs :: u32

text \<open>\<open>#[serde(default = \<dots>)]\<close>.\<close>

definition request_defaults ::
  "string \<Rightarrow> string \<Rightarrow> u32 option \<Rightarrow> u32 option \<Rightarrow> file_entry list option \<Rightarrow> egress_config
     \<Rightarrow> u32 option \<Rightarrow> create_environment_request" where
  "request_defaults sid img cpus mem fs eg tmo =
     \<lparr>ce_session_id = sid, image = img,
      vcpus = (case cpus of Some c \<Rightarrow> c | None \<Rightarrow> 1),
      memory_mib = (case mem of Some m \<Rightarrow> m | None \<Rightarrow> 512),
      files = (case fs of Some f \<Rightarrow> f | None \<Rightarrow> []), egress = eg,
      timeout_secs = (case tmo of Some t \<Rightarrow> t | None \<Rightarrow> 3600)\<rparr>"

record proxy_session_info =
  ps_id :: string
  ps_proxy_url :: string

record environment_response =
  er_session_id :: string
  er_status :: string
  er_vm_ip :: string
  er_tap_interface :: string
  er_proxy_session :: proxy_session_info
  er_dummy_keys :: "(string, string) hashmap"
  er_serial_output_url :: string
  er_started_at :: string
  er_expires_at :: "string option"

record environment_status_response =
  es_session_id :: string
  es_status :: string
  es_vm_ip :: string
  es_tap_interface :: string
  es_proxy_session_id :: string
  es_started_at :: string
  es_expires_at :: "string option"
  es_uptime_secs :: u64

record environment_summary =
  el_session_id :: string
  el_status :: string
  el_vm_ip :: string
  el_started_at :: string
  el_uptime_secs :: u64

record environment_list_response =
  el_environments :: "environment_summary list"

record delete_response =
  dr_session_id :: string
  dr_status :: string

datatype vm_body =
    ErrorBody error_detail
  | EnvironmentBody environment_response
  | StatusBody environment_status_response
  | EnvironmentsBody environment_list_response
  | DeleteBody delete_response
  | SseBody string

record vm_response =
  vm_status :: nat
  vm_headers :: "(string \<times> string) list"
  vm_body :: vm_body

definition json_headers :: "(string \<times> string) list" where
  "json_headers = [(''content-type'', ''application/json'')]"

text \<open>\<open>ErrorResponse::new\<close> and \<open>ErrorResponse::with_detail\<close>.\<close>

definition error_response_new :: "error_code \<Rightarrow> string \<Rightarrow> error_detail" where
  "error_response_new code message =
     \<lparr>err_code = code_as_str code, err_message = message, err_detail = None\<rparr>"

definition error_response_with :: "error_code \<Rightarrow> string \<Rightarrow> string \<Rightarrow> error_detail" where
  "error_response_with code message detail =
     \<lparr>err_code = code_as_str code, err_message = message, err_detail = Some detail\<rparr>"

definition json_error :: "nat \<Rightarrow> error_code \<Rightarrow> string \<Rightarrow> vm_response" where
  "json_error st code message = \<lparr>vm_status = st, vm_headers = json_headers,
     vm_body = ErrorBody (error_response_new code message)\<rparr>"

definition json_error_with_detail :: "nat \<Rightarrow> error_code \<Rightarrow> string \<Rightarrow> string \<Rightarrow> vm_response" where
  "json_error_with_detail st code message detail = \<lparr>vm_status = st, vm_headers = json_headers,
     vm_body = ErrorBody (error_response_with code message detail)\<rparr>"

definition json_ok :: "nat \<Rightarrow> vm_body \<Rightarrow> vm_response" where
  "json_ok st b = \<lparr>vm_status = st, vm_headers = json_headers, vm_body = b\<rparr>"

lemma vm_status_simps [simp]:
  "vm_status (json_error st c m) = st" "vm_status (json_error_with_detail st c m d) = st"
  "vm_status (json_ok st b) = st"
  by (simp_all add: json_error_def json_error_with_detail_def json_ok_def)

section \<open>Constants\<close>

definition KERNEL_PATH :: string where "KERNEL_PATH = ''vmlinux-5.10-new.bin''"
definition PROXY_SOCKET_PATH :: string where "PROXY_SOCKET_PATH = ''/run/ae-proxy.sock''"
definition PROXY_PORT :: nat where "PROXY_PORT = 9999"
definition IP_POOL_BASE :: "nat list" where "IP_POOL_BASE = [10, 0, 1, 0]"

section \<open>Helpers\<close>

definition env_format_iso8601 :: "'dt time_lib \<Rightarrow> u64 \<Rightarrow> string option" where
  "env_format_iso8601 tm ts =
     (if ts = 0 then None
      else map_option (\<lambda>dt. case format_rfc3339 tm dt of Some s \<Rightarrow> s | None \<Rightarrow> [])
             (from_unix_timestamp tm (sint ts)))"

definition env_prefix :: string where "env_prefix = ''/v1/environments/''"

definition extract_session_id :: "string \<Rightarrow> string option" where
  "extract_session_id path =
     Option.bind (strip_prefix env_prefix path) (\<lambda>rest.
       if rest = [] \<or> CHR ''/'' \<in> set rest then None else Some rest)"

definition extract_session_id_and_suffix :: "string \<Rightarrow> string \<Rightarrow> string option" where
  "extract_session_id_and_suffix path suffix =
     Option.bind (strip_prefix env_prefix path) (\<lambda>rest.
       Option.bind (strip_suffix suffix rest) (\<lambda>sid.
         if sid = [] \<or> CHR ''/'' \<in> set sid then None else Some sid))"

definition session_char :: "char \<Rightarrow> bool" where
  "session_char c = ((97 \<le> byte c \<and> byte c \<le> 122) \<or> is_digit c \<or> c = CHR ''_'')"

definition is_valid_session_id :: "string \<Rightarrow> bool" where
  "is_valid_session_id s = (if length s < 8 \<or> length s > 64 then False else list_all session_char s)"

lemma strip_suffix_Some_iff: "strip_suffix p s = Some r \<longleftrightarrow> s = r @ p"
proof -
  have "strip_suffix p s = Some r \<longleftrightarrow> (\<exists>q. rev s = rev p @ q \<and> r = rev q)"
    by (auto simp: strip_suffix_def strip_prefix_Some_iff)
  also have "\<dots> \<longleftrightarrow> s = r @ p"
    by (metis rev_append rev_rev_ident)
  finally show ?thesis .
qed

lemma extract_session_id_iff:
  "extract_session_id path = Some sid \<longleftrightarrow>
     path = env_prefix @ sid \<and> sid \<noteq> [] \<and> CHR ''/'' \<notin> set sid"
  by (auto simp: extract_session_id_def bind_eq_Some_conv strip_prefix_Some_iff)

lemma extract_suffix_iff:
  "extract_session_id_and_suffix path suffix = Some sid \<longleftrightarrow>
     path = env_prefix @ sid @ suffix \<and> sid \<noteq> [] \<and> CHR ''/'' \<notin> set sid"
  by (auto simp: extract_session_id_and_suffix_def bind_eq_Some_conv strip_prefix_Some_iff
      strip_suffix_Some_iff)

lemma valid_id_chars:
  "is_valid_session_id s \<Longrightarrow> c \<in> set s \<Longrightarrow> session_char c"
  by (auto simp: is_valid_session_id_def list_all_iff split: if_splits)

lemma valid_id_no_slash: "is_valid_session_id s \<Longrightarrow> CHR ''/'' \<notin> set s"
  using valid_id_chars[of s "CHR ''/''"] by (auto simp: session_char_def is_digit_def)

lemma valid_id_length: "is_valid_session_id s \<Longrightarrow> 8 \<le> length s \<and> length s \<le> 64"
  by (simp add: is_valid_session_id_def split: if_splits)

end
