(* ===== verification/Vm_State.thy ===== *)
theory Vm_State
  imports Vm_Types
begin

text \<open>
  The state of the VM manager (\<open>crates/vm-manager/src/state.rs\<close>): environment records, the
  handles of their tasks, and the pool of VM addresses. The pool is an interface
  (\<open>address_pool\<close>) that the model of \<open>allocate_ip\<close> and \<open>release_ip\<close> interprets.
\<close>

section \<open>Environments\<close>

datatype environment_state = Running | ShuttingDown | Exited | Failed

fun state_as_str :: "environment_state \<Rightarrow> string" where
  "state_as_str Running = ''running''"
| "state_as_str ShuttingDown = ''shutting_down''"
| "state_as_str Exited = ''exited''"
| "state_as_str Failed = ''failed''"

text \<open>The order in which an environment passes through its states.\<close>

fun state_rank :: "environment_state \<Rightarrow> nat" where
  "state_rank Running = 0"
| "state_rank ShuttingDown = 1"
| "state_rank Exited = 2"
| "state_rank Failed = 3"

lemma state_rank_inj: "state_rank a = state_rank b \<longleftrightarrow> a = b"
  by (cases a; cases b) auto

instantiation environment_state :: linorder
begin

definition less_eq_environment_state :: "environment_state \<Rightarrow> environment_state \<Rightarrow> bool" where
  "less_eq_environment_state a b = (state_rank a \<le> state_rank b)"

definition less_environment_state :: "environment_state \<Rightarrow> environment_state \<Rightarrow> bool" where
  "less_environment_state a b = (state_rank a < state_rank b)"

instance
  by (standard; auto simp: less_eq_environment_state_def less_environment_state_def state_rank_inj)

end

record environment =
  env_session_id :: string
  env_status :: environment_state
  env_vm_ip :: string
  env_tap_interface :: string
  env_started_at :: u64
  env_expires_at :: "u64 option"
  env_dummy_keys :: "(string, string) hashmap"

text \<open>A channel is named by the task that holds its other end.\<close>

record vm_state =
  environments :: "(string, environment) hashmap"
  shutdown_txs :: "(string, nat) hashmap"
  serial_txs :: "(string, nat) hashmap"
  allocated_ips :: "string list"
  proxy_socket :: string

definition with_proxy_socket :: "string \<Rightarrow> vm_state" where
  "with_proxy_socket p = \<lparr>environments = [], shutdown_txs = [], serial_txs = [],
     allocated_ips = [], proxy_socket = p\<rparr>"

definition vm_state_new :: vm_state where
  "vm_state_new = with_proxy_socket PROXY_SOCKET_PATH"

section \<open>Addresses\<close>

definition dotted :: "nat \<Rightarrow> nat \<Rightarrow> nat \<Rightarrow> nat \<Rightarrow> string" where
  "dotted a b c d = show_nat a @ CHR ''.'' # show_nat b @ CHR ''.'' # show_nat c @ CHR ''.'' # show_nat d"

definition pool_ip :: "nat \<Rightarrow> string" where
  "pool_ip ip_last = dotted (IP_POOL_BASE ! 0) (IP_POOL_BASE ! 1) (IP_POOL_BASE ! 2) ip_last"

text \<open>The loop of \<open>allocate_ip\<close>; the list is the rest of \<open>0..64\<close>.\<close>

fun allocate_from :: "nat list \<Rightarrow> string list \<Rightarrow> string option \<times> string list" where
  "allocate_from [] ips = (None, ips)"
| "allocate_from (i # is) ips =
     (let ip_last = 2 + i * 4 in
      if ip_last > 254 then (None, ips)
      else
        (let ip = pool_ip ip_last in
         if ip \<notin> set ips then (Some ip, ips @ [ip])
         else allocate_from is ips))"

definition pool_exhausted :: string where "pool_exhausted = ''IP pool exhausted''"

definition allocate_ip :: "string list \<Rightarrow> (string, string) result \<times> string list" where
  "allocate_ip ips =
     (case allocate_from [0..<64] ips of
        (Some ip, ips') \<Rightarrow> (Inr ip, ips')
      | (None, ips') \<Rightarrow> (Inl pool_exhausted, ips'))"

definition release_ip :: "string \<Rightarrow> string list \<Rightarrow> string list" where
  "release_ip ip ips = filter (\<lambda>x. x \<noteq> ip) ips"

definition pool :: "string set" where
  "pool = (\<lambda>i. pool_ip (2 + i * 4)) ` {0..<64}"

lemma dotted_parts:
  "split_char (CHR ''.'') (dotted a b c d) = [show_nat a, show_nat b, show_nat c, show_nat d]"
proof -
  have "CHR ''.'' \<notin> set (show_nat n)" for n by (rule show_nat_no) (simp add: is_digit_def)
  then show ?thesis by (simp add: dotted_def split_char_append split_char_none)
qed

lemma dotted_inj: "dotted a b c d = dotted a' b' c' d' \<longleftrightarrow> a = a' \<and> b = b' \<and> c = c' \<and> d = d'"
  by (metis dotted_parts list.inject show_nat_inj)

lemma pool_ip_inj: "pool_ip m = pool_ip n \<longleftrightarrow> m = n"
  by (simp add: pool_ip_def dotted_inj)

lemma card_pool: "card pool = 64"
proof -
  have "inj_on (\<lambda>i. pool_ip (2 + i * 4)) {0..<64}" by (auto intro!: inj_onI simp: pool_ip_inj)
  then show ?thesis by (simp add: pool_def card_image)
qed

lemma allocate_from_spec:
  assumes "\<forall>i\<in>set is. i < 64"
  shows "allocate_from is ips =
    (case List.find (\<lambda>i. pool_ip (2 + i * 4) \<notin> set ips) is of
       Some i \<Rightarrow> (Some (pool_ip (2 + i * 4)), ips @ [pool_ip (2 + i * 4)])
     | None \<Rightarrow> (None, ips))"
  using assms by (induction "is") (auto simp: Let_def)

lemma allocate_ip_cases:
  obtains (ok) i where "i < 64" "pool_ip (2 + i * 4) \<notin> set ips"
      "\<forall>j<i. pool_ip (2 + j * 4) \<in> set ips"
      "allocate_ip ips = (Inr (pool_ip (2 + i * 4)), ips @ [pool_ip (2 + i * 4)])"
  | (full) "pool \<subseteq> set ips" "allocate_ip ips = (Inl pool_exhausted, ips)"
proof (cases "List.find (\<lambda>i. pool_ip (2 + i * 4) \<notin> set ips) [0..<64]")
  case None
  then have "pool \<subseteq> set ips"
    by (auto simp: find_None_iff pool_def simp del: upt_conv_Cons upt_rec)
  moreover have "allocate_ip ips = (Inl pool_exhausted, ips)"
    using None by (simp add: allocate_ip_def allocate_from_spec del: upt_Suc upt_rec_numeral)
  ultimately show thesis by (rule full)
next
  case (Some i)
  then obtain k where k: "k < 64" "i = k" "pool_ip (2 + i * 4) \<notin> set ips"
      "\<forall>j<k. pool_ip (2 + j * 4) \<in> set ips"
    by (auto simp: find_Some_iff simp del: upt_Suc upt_rec_numeral)
  moreover have "allocate_ip ips = (Inr (pool_ip (2 + i * 4)), ips @ [pool_ip (2 + i * 4)])"
    using Some by (simp add: allocate_ip_def allocate_from_spec del: upt_Suc upt_rec_numeral)
  ultimately show thesis by (intro ok[of i]) auto
qed

section \<open>The pool as an interface\<close>

locale address_pool =
  fixes addresses :: "'a set"
    and used :: "'p \<Rightarrow> 'a list"
    and alloc :: "'p \<Rightarrow> ('e, 'a) result \<times> 'p"
    and free :: "'a \<Rightarrow> 'p \<Rightarrow> 'p"
  assumes finite_addresses: "finite addresses"
    and alloc_ok: "alloc p = (Inr a, p') \<Longrightarrow>
      a \<in> addresses \<and> a \<notin> set (used p) \<and> used p' = used p @ [a]"
    and alloc_err: "alloc p = (Inl e, p') \<Longrightarrow> p' = p \<and> addresses \<subseteq> set (used p)"
    and free_used: "used (free a p) = filter (\<lambda>x. x \<noteq> a) (used p)"
begin

definition held :: "'p \<Rightarrow> bool" where
  "held p \<longleftrightarrow> distinct (used p) \<and> set (used p) \<subseteq> addresses"

lemma held_alloc: "held p \<Longrightarrow> held (snd (alloc p))"
  using alloc_ok[of p] alloc_err[of p]
  by (cases "alloc p"; cases "fst (alloc p)") (auto simp: held_def)

lemma held_free: "held p \<Longrightarrow> held (free a p)"
  by (auto simp: held_def free_used)

lemma alloc_total_iff:
  "held p \<Longrightarrow> (\<exists>a p'. alloc p = (Inr a, p')) \<longleftrightarrow> length (used p) < card addresses"
proof -
  assume h: "held p"
  then have len: "length (used p) = card (set (used p))" by (simp add: held_def distinct_card)
  from h have sub: "set (used p) \<subseteq> addresses" by (simp add: held_def)
  have "(\<exists>a p'. alloc p = (Inr a, p')) \<longleftrightarrow> \<not> addresses \<subseteq> set (used p)"
    using alloc_ok[of p] alloc_err[of p]
    by (cases "alloc p"; cases "fst (alloc p)") auto
  also have "\<dots> \<longleftrightarrow> card (set (used p)) < card addresses"
  proof
    assume "\<not> addresses \<subseteq> set (used p)"
    with sub show "card (set (used p)) < card addresses"
      by (intro psubset_card_mono finite_addresses) auto
  next
    assume "card (set (used p)) < card addresses"
    then show "\<not> addresses \<subseteq> set (used p)"
      using card_mono[of "set (used p)" addresses] by auto
  qed
  finally show ?thesis using len by simp
qed

lemma free_alloc:
  "alloc p = (Inr a, p') \<Longrightarrow> used (free a p') = used p"
  using alloc_ok[of p a p'] by (auto simp: free_used intro!: filter_True)

end

interpretation ip_pool: address_pool pool "\<lambda>ips. ips" allocate_ip release_ip
proof (unfold_locales, goal_cases)
  case 1
  show ?case by (simp add: pool_def)
next
  case (2 p a p')
  then show ?case by (cases rule: allocate_ip_cases[of p]) (auto simp: pool_def)
next
  case (3 p e p')
  then show ?case by (cases rule: allocate_ip_cases[of p]) auto
next
  case (4 a p)
  show ?case by (simp add: release_ip_def)
qed

section \<open>Properties\<close>

text \<open>
  C31. The address pool: allocation returns the lowest free address of the 64 in the pool and
  marks it, fails only when all are in use, never hands out an address twice, and releasing
  the address undoes it.
\<close>

theorem ip_pool_correct:
  assumes "distinct ips" and "set ips \<subseteq> pool"
  shows "(case allocate_ip ips of
      (Inr ip, ips') \<Rightarrow> \<exists>i<64. ip = pool_ip (2 + i * 4) \<and> ip \<notin> set ips
          \<and> (\<forall>j<i. pool_ip (2 + j * 4) \<in> set ips)
          \<and> distinct ips' \<and> set ips' = insert ip (set ips) \<and> release_ip ip ips' = ips
    | (Inl e, ips') \<Rightarrow> ips' = ips \<and> set ips = pool \<and> length ips = 64)"
proof (cases rule: allocate_ip_cases[of ips])
  case (ok i)
  then show ?thesis
    using assms(1) by (auto simp: release_ip_def intro!: exI[of _ i] filter_True)
next
  case full
  with assms have "set ips = pool" by blast
  with assms(1) full(2) card_pool show ?thesis by (auto dest: distinct_card)
qed

theorem ip_pool_correct_witness:
  "release_ip (pool_ip 6) (snd (allocate_ip [pool_ip 2])) = [pool_ip 2]"
proof -
  have "pool_ip 2 \<in> pool" unfolding pool_def by (rule image_eqI[of _ _ 0]) simp_all
  then have "case allocate_ip [pool_ip 2] of
      (Inr ip, ips') \<Rightarrow> release_ip ip ips' = [pool_ip 2] \<and> ip = pool_ip 6
    | (Inl e, ips') \<Rightarrow> False"
    using ip_pool_correct[of "[pool_ip 2]"]
    by (auto simp: pool_ip_inj split: prod.splits sum.splits)
      (metis One_nat_def add.right_neutral less_Suc0 linorder_neqE_nat mult_zero_left mult_1 numeral_plus_numeral semiring_norm)
  then show ?thesis by (auto split: prod.splits sum.splits)
qed

end
