(* ===== verification/Vm_Network.thy ===== *)
theory Vm_Network
  imports Vm_Types
begin

text \<open>
  TAP interfaces and nftables rules (\<open>crates/vm-manager/src/network.rs\<close>). The operations
  run host commands. A host is any type with a function \<open>exec\<close> that runs a command (its
  program and arguments) and gives its outcome; each operation passes the host along.
  \<open>try_then\<close> is the operator \<open>?\<close>, \<open>ignore_then\<close> is \<open>.ok()\<close>.
\<close>

section \<open>Commands\<close>

datatype exec_outcome = SpawnFailed string | Finished bool string string

type_synonym 'h exec = "string list \<Rightarrow> 'h \<Rightarrow> exec_outcome \<times> 'h"

type_synonym 'h net = "(string, unit) result \<times> 'h"

definition run_cmd :: "'h exec \<Rightarrow> string list \<Rightarrow> 'h \<Rightarrow> 'h net" where
  "run_cmd exec cmd h =
     (case exec cmd h of
        (SpawnFailed e, h') \<Rightarrow> (Inl (''Failed to run: '' @ join '' '' cmd), h')
      | (Finished ok out err, h') \<Rightarrow>
          if \<not> ok then
            (Inl (''Command failed: '' @ join '' '' cmd @ LF # ''stdout: '' @ from_utf8_lossy out
               @ LF # ''stderr: '' @ from_utf8_lossy err), h')
          else (Inr (), h'))"

definition try_then :: "'h net \<Rightarrow> ('h \<Rightarrow> 'h net) \<Rightarrow> 'h net" where
  "try_then r k = (case r of (Inl e, h) \<Rightarrow> (Inl e, h) | (Inr _, h) \<Rightarrow> k h)"

definition ignore_then :: "'h net \<Rightarrow> ('h \<Rightarrow> 'h net) \<Rightarrow> 'h net" where
  "ignore_then r k = k (snd r)"

section \<open>The shared table\<close>

definition NFT :: string where "NFT = ''/usr/sbin/nft''"
definition NFT_TABLE :: string where "NFT_TABLE = ''ae-vm-manager''"
definition NFT_FILTER_TABLE :: string where "NFT_FILTER_TABLE = ''ae-vm-manager-filter''"

definition nft_add :: "string \<Rightarrow> string \<Rightarrow> string list" where
  "nft_add chain rule = [''sudo'', NFT, ''add'', ''rule'', ''ip'', NFT_TABLE, chain, rule]"

definition nft_list :: "string \<Rightarrow> string list" where
  "nft_list chain = [''sudo'', NFT, ''-a'', ''list'', ''chain'', ''ip'', NFT_TABLE, chain]"

definition nft_delete :: "string \<Rightarrow> nat \<Rightarrow> string list" where
  "nft_delete chain handle = [''sudo'', NFT, ''delete'', ''rule'', ''ip'', NFT_TABLE, chain,
     ''handle'', show_nat handle]"

definition quoted :: "string \<Rightarrow> string" where
  "quoted s = DQUOTE # s @ [DQUOTE]"

definition dnat_rule :: "string \<Rightarrow> string \<Rightarrow> string" where
  "dnat_rule tap host_ip = ''iifname '' @ quoted tap @ '' tcp dport != '' @ show_nat PROXY_PORT
     @ '' dnat to '' @ host_ip @ '':'' @ show_nat PROXY_PORT"

definition fwd_in_rule :: "string \<Rightarrow> string" where
  "fwd_in_rule tap = ''iifname '' @ quoted tap @ '' accept''"

definition fwd_out_rule :: "string \<Rightarrow> string" where
  "fwd_out_rule tap = ''oifname '' @ quoted tap @ '' accept''"

definition add_dnat_rule :: "'h exec \<Rightarrow> string \<Rightarrow> string \<Rightarrow> 'h \<Rightarrow> 'h net" where
  "add_dnat_rule exec tap host_ip h =
     try_then (run_cmd exec (nft_add ''prerouting'' (dnat_rule tap host_ip)) h) (\<lambda>h.
     try_then (run_cmd exec (nft_add ''forward'' (fwd_in_rule tap)) h) (\<lambda>h.
     try_then (run_cmd exec (nft_add ''forward'' (fwd_out_rule tap)) h) (\<lambda>h. (Inr (), h))))"

definition extract_handle :: "string \<Rightarrow> nat option" where
  "extract_handle line =
     (case split_on ''handle'' line of
        _ # piece # _ \<Rightarrow> parse_uint (2 ^ 64) (trim piece)
      | _ \<Rightarrow> None)"

text \<open>The loop over the lines of a listing.\<close>

fun delete_listed :: "'h exec \<Rightarrow> string \<Rightarrow> string \<Rightarrow> string list \<Rightarrow> 'h \<Rightarrow> 'h" where
  "delete_listed exec chain tap [] h = h"
| "delete_listed exec chain tap (line # ls) h =
     (if str_contains (quoted tap) line then
        (case extract_handle line of
           Some handle \<Rightarrow> delete_listed exec chain tap ls (snd (run_cmd exec (nft_delete chain handle) h))
         | None \<Rightarrow> delete_listed exec chain tap ls h)
      else delete_listed exec chain tap ls h)"

definition clean_chain :: "'h exec \<Rightarrow> string \<Rightarrow> string \<Rightarrow> 'h \<Rightarrow> 'h net" where
  "clean_chain exec chain tap h =
     (case exec (nft_list chain) h of
        (SpawnFailed e, h') \<Rightarrow> (Inl (''failed to list nftables '' @ chain @ '' chain''), h')
      | (Finished ok out err, h') \<Rightarrow>
          (Inr (), delete_listed exec chain tap (str_lines (from_utf8_lossy out)) h'))"

definition remove_dnat_rule :: "'h exec \<Rightarrow> string \<Rightarrow> 'h \<Rightarrow> 'h net" where
  "remove_dnat_rule exec tap h =
     try_then (clean_chain exec ''prerouting'' tap h) (\<lambda>h.
     try_then (clean_chain exec ''forward'' tap h) (\<lambda>h. (Inr (), h)))"

section \<open>TAP interfaces\<close>

definition setup_tap_interface :: "'h exec \<Rightarrow> string \<Rightarrow> string \<Rightarrow> 'h \<Rightarrow> 'h net" where
  "setup_tap_interface exec tap host_ip h =
     try_then (run_cmd exec [''sudo'', ''ip'', ''tuntap'', ''add'', ''dev'', tap, ''mode'', ''tap''] h) (\<lambda>h.
     try_then (run_cmd exec [''sudo'', ''ip'', ''addr'', ''add'', host_ip @ ''/30'', ''dev'', tap] h) (\<lambda>h.
     try_then (run_cmd exec [''sudo'', ''ip'', ''link'', ''set'', ''dev'', tap, ''up''] h) (\<lambda>h.
     ignore_then (run_cmd exec [''sudo'', ''ethtool'', ''-K'', tap, ''tx'', ''off'', ''rx'', ''off''] h) (\<lambda>h.
     try_then (run_cmd exec [''sudo'', ''sh'', ''-c'',
         ''echo 0 > /proc/sys/net/ipv4/conf/'' @ tap @ ''/rp_filter''] h) (\<lambda>h. (Inr (), h))))))"

definition cleanup_tap_interface :: "'h exec \<Rightarrow> string \<Rightarrow> 'h \<Rightarrow> 'h net" where
  "cleanup_tap_interface exec tap h =
     ignore_then (run_cmd exec [''sudo'', ''ip'', ''link'', ''set'', ''dev'', tap, ''down''] h) (\<lambda>h.
     try_then (run_cmd exec [''sudo'', ''ip'', ''tuntap'', ''del'', ''dev'', tap, ''mode'', ''tap''] h)
       (\<lambda>h. (Inr (), h)))"

section \<open>Base tables\<close>

definition base_ruleset :: string where
  "base_ruleset = join [LF]
     [[], ''table ip '' @ NFT_TABLE @ '' {'',
      ''    chain prerouting {'',
      ''        type nat hook prerouting priority dstnat; policy accept;'',
      ''    }'',
      ''    chain postrouting {'',
      ''        type nat hook postrouting priority srcnat; policy accept;'',
      ''    }'',
      ''    chain forward {'',
      ''        type filter hook forward priority filter; policy accept;'',
      ''    }'', ''}'', []]"

definition filter_ruleset :: string where
  "filter_ruleset = join [LF]
     [[], ''table inet '' @ NFT_FILTER_TABLE @ '' {'',
      ''    chain input {'',
      ''        type filter hook input priority 0; policy accept;'',
      ''        ct state established,related accept'',
      ''        iifname '' @ quoted ''tap*'' @ '' tcp dport '' @ show_nat PROXY_PORT @ '' accept'',
      ''    }'', ''}'', []]"

text \<open>\<open>std::fs::write\<close> of the ruleset file is the argument \<open>write\<close>.\<close>

definition install_ruleset ::
  "'h exec \<Rightarrow> (string \<Rightarrow> string \<Rightarrow> 'h \<Rightarrow> 'h net) \<Rightarrow> string \<Rightarrow> string \<Rightarrow> 'h \<Rightarrow> 'h net" where
  "install_ruleset exec write path ruleset h =
     try_then (write path ruleset h) (\<lambda>h.
     try_then (run_cmd exec [''sudo'', NFT, ''-f'', path] h) (\<lambda>h. (Inr (), h)))"

definition install_nftables_base ::
  "'h exec \<Rightarrow> (string \<Rightarrow> string \<Rightarrow> 'h \<Rightarrow> 'h net) \<Rightarrow> 'h \<Rightarrow> 'h net" where
  "install_nftables_base exec write h =
     install_ruleset exec write ''/tmp/ae-vm-manager-base.conf'' base_ruleset h"

definition install_input_filter ::
  "'h exec \<Rightarrow> (string \<Rightarrow> string \<Rightarrow> 'h \<Rightarrow> 'h net) \<Rightarrow> 'h \<Rightarrow> 'h net" where
  "install_input_filter exec write h =
     install_ruleset exec write ''/tmp/ae-vm-manager-filter.conf'' filter_ruleset h"

definition remove_nftables_base :: "'h exec \<Rightarrow> 'h \<Rightarrow> 'h net" where
  "remove_nftables_base exec h =
     ignore_then (run_cmd exec [''sudo'', NFT, ''delete'', ''table'', ''ip'', NFT_TABLE] h) (\<lambda>h. (Inr (), h))"

definition remove_input_filter :: "'h exec \<Rightarrow> 'h \<Rightarrow> 'h net" where
  "remove_input_filter exec h =
     ignore_then (run_cmd exec [''sudo'', NFT, ''delete'', ''table'', ''inet'', NFT_FILTER_TABLE] h)
       (\<lambda>h. (Inr (), h))"

section \<open>Commands that were run\<close>

text \<open>A host that keeps the list of its commands; what each answers may depend on the
  commands before it.\<close>

type_synonym host_log = "string list list"

definition log_exec :: "(string list \<Rightarrow> host_log \<Rightarrow> exec_outcome) \<Rightarrow> host_log exec" where
  "log_exec answer cmd h = (answer cmd h, h @ [cmd])"

text \<open>A script: commands in order, each with the flag whether its failure stops the rest.\<close>

definition succeeds :: "exec_outcome \<Rightarrow> bool" where
  "succeeds r = (case r of Finished ok out err \<Rightarrow> ok | SpawnFailed e \<Rightarrow> False)"

fun script_run ::
  "(string list \<Rightarrow> host_log \<Rightarrow> exec_outcome) \<Rightarrow> (string list \<times> bool) list \<Rightarrow> host_log
     \<Rightarrow> bool \<times> host_log" where
  "script_run answer [] h = (True, h)"
| "script_run answer ((cmd, must) # cs) h =
     (if must \<and> \<not> succeeds (answer cmd h) then (False, h @ [cmd])
      else script_run answer cs (h @ [cmd]))"

definition net_ok :: "'h net \<Rightarrow> bool \<times> 'h" where
  "net_ok r = (\<not> isl (fst r), snd r)"

named_theorems net_trace \<open>operations of the network as scripts of logged commands\<close>

lemma net_ok_done [net_trace]: "net_ok (Inr (), h) = (True, h)"
  by (simp add: net_ok_def)

lemma net_ok_try [net_trace]:
  "net_ok (try_then (run_cmd (log_exec answer) cmd h) k) =
     (if succeeds (answer cmd h) then net_ok (k (h @ [cmd])) else (False, h @ [cmd]))"
  by (simp add: net_ok_def try_then_def run_cmd_def log_exec_def succeeds_def
      split: exec_outcome.splits)

lemma net_ok_ignore [net_trace]:
  "net_ok (ignore_then (run_cmd (log_exec answer) cmd h) k) = net_ok (k (h @ [cmd]))"
  by (simp add: ignore_then_def run_cmd_def log_exec_def split: exec_outcome.splits)

definition tap_add :: "string \<Rightarrow> string list" where
  "tap_add tap = [''sudo'', ''ip'', ''tuntap'', ''add'', ''dev'', tap, ''mode'', ''tap'']"

definition tap_del :: "string \<Rightarrow> string list" where
  "tap_del tap = [''sudo'', ''ip'', ''tuntap'', ''del'', ''dev'', tap, ''mode'', ''tap'']"

definition setup_script :: "string \<Rightarrow> string \<Rightarrow> (string list \<times> bool) list" where
  "setup_script tap host_ip =
     [(tap_add tap, True),
      ([''sudo'', ''ip'', ''addr'', ''add'', host_ip @ ''/30'', ''dev'', tap], True),
      ([''sudo'', ''ip'', ''link'', ''set'', ''dev'', tap, ''up''], True),
      ([''sudo'', ''ethtool'', ''-K'', tap, ''tx'', ''off'', ''rx'', ''off''], False),
      ([''sudo'', ''sh'', ''-c'', ''echo 0 > /proc/sys/net/ipv4/conf/'' @ tap @ ''/rp_filter''], True)]"

definition cleanup_script :: "string \<Rightarrow> (string list \<times> bool) list" where
  "cleanup_script tap =
     [([''sudo'', ''ip'', ''link'', ''set'', ''dev'', tap, ''down''], False), (tap_del tap, True)]"

definition dnat_script :: "string \<Rightarrow> string \<Rightarrow> (string list \<times> bool) list" where
  "dnat_script tap host_ip =
     [(nft_add ''prerouting'' (dnat_rule tap host_ip), True),
      (nft_add ''forward'' (fwd_in_rule tap), True),
      (nft_add ''forward'' (fwd_out_rule tap), True)]"

lemma setup_tap_script:
  "net_ok (setup_tap_interface (log_exec answer) tap host_ip h)
     = script_run answer (setup_script tap host_ip) h"
  by (simp add: setup_tap_interface_def setup_script_def tap_add_def net_trace)

lemma cleanup_tap_script:
  "net_ok (cleanup_tap_interface (log_exec answer) tap h) = script_run answer (cleanup_script tap) h"
  by (simp add: cleanup_tap_interface_def cleanup_script_def tap_del_def net_trace)

lemma dnat_rule_script:
  "net_ok (add_dnat_rule (log_exec answer) tap host_ip h) = script_run answer (dnat_script tap host_ip) h"
  by (simp add: add_dnat_rule_def dnat_script_def net_trace)

lemma script_run_prefix:
  "\<exists>n. n \<le> length cs \<and> snd (script_run answer cs h) = h @ map fst (take n cs)
     \<and> (fst (script_run answer cs h) \<longrightarrow> n = length cs)
     \<and> (\<not> fst (script_run answer cs h) \<longrightarrow> 0 < n \<and> snd (cs ! (n - 1))
          \<and> \<not> succeeds (answer (fst (cs ! (n - 1))) (h @ map fst (take (n - 1) cs))))"
proof (induction cs arbitrary: h)
  case (Cons c cs)
  obtain cmd must where c: "c = (cmd, must)" by (cases c)
  show ?case
  proof (cases "must \<and> \<not> succeeds (answer cmd h)")
    case True
    then show ?thesis by (intro exI[of _ 1]) (simp add: c)
  next
    case False
    from Cons.IH[of "h @ [cmd]"] obtain n where n: "n \<le> length cs"
      "snd (script_run answer cs (h @ [cmd])) = (h @ [cmd]) @ map fst (take n cs)"
      "fst (script_run answer cs (h @ [cmd])) \<longrightarrow> n = length cs"
      "\<not> fst (script_run answer cs (h @ [cmd])) \<longrightarrow> 0 < n \<and> snd (cs ! (n - 1))
          \<and> \<not> succeeds (answer (fst (cs ! (n - 1))) ((h @ [cmd]) @ map fst (take (n - 1) cs)))"
      by blast
    have step: "script_run answer (c # cs) h = script_run answer cs (h @ [cmd])"
      using False by (auto simp: c)
    show ?thesis
      unfolding step using n by (intro exI[of _ "Suc n"]) (cases n, auto simp: c)
  qed
qed simp

section \<open>Rule handles\<close>

lemma find_sub_after:
  assumes "c \<notin> set p" and "p \<noteq> []" and "\<not> str_contains p u"
  shows "find_sub p (u @ c # p @ r) = Some (Suc (length u))"
proof (rule find_sub_eq)
  show "starts_with p (drop (Suc (length u)) (u @ c # p @ r))" by simp
  show "\<not> starts_with p (drop j (u @ c # p @ r))" if j: "j < Suc (length u)" for j
  proof
    assume "starts_with p (drop j (u @ c # p @ r))"
    then obtain t where t: "drop j u @ c # p @ r = p @ t"
      using j by (auto simp: starts_with_iff)
    show False
    proof (cases "length p \<le> length (drop j u)")
      case True
      with t have "starts_with p (drop j u)"
        by (metis append_eq_append_conv_if append_take_drop_id starts_with_iff)
      then have "u = take j u @ p @ drop (length p) (drop j u)"
        by (metis append_take_drop_id starts_with_take)
      with assms(3) show False by (metis str_contains_iff)
    next
      case False
      then have "p ! (length (drop j u)) = (p @ t) ! (length (drop j u))" by (simp add: nth_append)
      also have "\<dots> = c" unfolding t[symmetric] by (simp add: nth_append)
      finally show False using assms(1) False by (metis leI nth_mem)
    qed
  qed
qed

lemma split_on_none: "\<not> str_contains p s \<Longrightarrow> split_on p s = [s]"
  by (simp add: str_contains_def split_on.simps)

lemma split_on_after:
  assumes "c \<notin> set p" and "p \<noteq> []" and "\<not> str_contains p u"
  shows "split_on p (u @ c # p @ r) = (u @ [c]) # split_on p r"
  using find_sub_after[OF assms, of r] assms(2)
  by (subst split_on.simps) simp

lemma trim_space_visible:
  assumes "s \<noteq> []" and "visible (hd s)" and "visible (last s)"
  shows "trim (CHR '' '' # s) = s"
proof -
  from assms obtain c r where s: "s = c # r" by (cases s) auto
  have "trim_start (CHR '' '' # s) = trim_start s"
    by (simp add: trim_start_def trim_by.simps[of _ "CHR '' '' # s"] ws_len_def)
  also have "trim_start s = s"
    using assms(2) by (simp add: trim_start_def trim_by_stop visible_ws_len s)
  finally have "trim (CHR '' '' # s) = trim s"
    using assms(2) by (simp add: trim_def trim_start_def trim_by_stop visible_ws_len s)
  with trim_visible[OF assms] show ?thesis by simp
qed

text \<open>A line of \<open>nft -a list chain\<close>.\<close>

definition nft_line :: "string \<Rightarrow> nat \<Rightarrow> string" where
  "nft_line rule handle = rule @ '' # handle '' @ show_nat handle"

lemma str_contains_set: "str_contains p s \<Longrightarrow> set p \<subseteq> set s"
  by (auto simp: str_contains_iff)

lemma str_contains_tail:
  assumes "p \<noteq> []" and "last p \<notin> set t"
  shows "str_contains p (u @ t) \<longleftrightarrow> str_contains p u"
proof
  assume "str_contains p (u @ t)"
  then obtain a b where ab: "u @ t = a @ p @ b" by (auto simp: str_contains_iff)
  have "length (a @ p) \<le> length u"
  proof (rule ccontr)
    assume long: "\<not> length (a @ p) \<le> length u"
    let ?i = "length (a @ p) - 1"
    from long have i: "length u \<le> ?i" "?i < length (u @ t)"
      using arg_cong[OF ab, of length] assms(1) by (auto simp: neq_Nil_conv)
    have "(u @ t) ! ?i = ((a @ p) @ b) ! ?i" using ab by simp
    also have "\<dots> = (a @ p) ! ?i"
      using assms(1) by (intro nth_append_left) (cases p, simp_all)
    also have "\<dots> = last p" using assms(1) by (metis Nil_is_append_conv last_append last_conv_nth)
    finally have "(u @ t) ! ?i = last p" .
    moreover have "(u @ t) ! ?i \<in> set t" using i by (simp add: nth_append)
    ultimately show False using assms(2) by simp
  qed
  then have "u = take (length u) (a @ p @ b)" using ab by (metis append_eq_conv_conj)
  with \<open>length (a @ p) \<le> length u\<close> have "u = a @ p @ take (length u - length (a @ p)) b"
    by (simp add: add.commute)
  then show "str_contains p u" by (metis str_contains_iff)
next
  assume "str_contains p u"
  then show "str_contains p (u @ t)" by (metis append.assoc str_contains_iff)
qed

lemma extract_handle_line:
  assumes "\<not> str_contains ''handle'' rule" and "n < 2 ^ 64"
  shows "extract_handle (nft_line rule n) = Some n"
proof -
  let ?v = "show_nat n"
  have no: "\<not> str_contains ''handle'' (rule @ '' #'')"
    using assms(1) str_contains_tail[of "''handle''" "'' #''" rule] by simp
  have "nft_line rule n = (rule @ '' #'') @ CHR '' '' # ''handle'' @ CHR '' '' # ?v"
    by (simp add: nft_line_def)
  then have sp: "split_on ''handle'' (nft_line rule n)
      = (rule @ '' # '') # split_on ''handle'' (CHR '' '' # ?v)"
    using split_on_after[OF _ _ no, of "CHR '' ''" "CHR '' '' # ?v"] by simp
  have "CHR ''h'' \<notin> set ?v" by (rule show_nat_no) (simp add: is_digit_def)
  then have "\<not> str_contains ''handle'' (CHR '' '' # ?v)"
    using str_contains_set[of "''handle''" "CHR '' '' # ?v"] by auto
  then have "split_on ''handle'' (CHR '' '' # ?v) = [CHR '' '' # ?v]" by (rule split_on_none)
  moreover have "trim (CHR '' '' # ?v) = ?v"
  proof -
    have v: "\<forall>c\<in>set ?v. visible c"
      using show_nat_digits[of n] by (auto simp: list_all_iff digit_visible)
    moreover have "?v \<noteq> []" by simp
    ultimately show ?thesis by (intro trim_space_visible) auto
  qed
  ultimately show ?thesis
    using sp assms(2) by (simp add: extract_handle_def parse_show_nat)
qed

text \<open>The handles that a listing yields for an interface.\<close>

definition listed_handles :: "string \<Rightarrow> string list \<Rightarrow> nat list" where
  "listed_handles tap ls =
     List.map_filter extract_handle (filter (str_contains (quoted tap)) ls)"

lemma listed_handles_simps [simp]:
  "listed_handles tap [] = []"
  "listed_handles tap (l # ls) = (if str_contains (quoted tap) l
     then (case extract_handle l of Some n \<Rightarrow> n # listed_handles tap ls | None \<Rightarrow> listed_handles tap ls)
     else listed_handles tap ls)"
  by (simp_all add: listed_handles_def List.map_filter_simps split: option.splits)

lemma delete_listed_fold:
  "delete_listed exec chain tap ls h =
     fold (\<lambda>n h. snd (run_cmd exec (nft_delete chain n) h)) (listed_handles tap ls) h"
  by (induction exec chain tap ls h rule: delete_listed.induct) (auto split: option.splits)

lemma delete_listed_log:
  "delete_listed (log_exec answer) chain tap ls h = h @ map (nft_delete chain) (listed_handles tap ls)"
proof -
  have "snd (run_cmd (log_exec answer) cmd h) = h @ [cmd]" for cmd h
    by (simp add: run_cmd_def log_exec_def split: exec_outcome.splits)
  then have "fold (\<lambda>n h. snd (run_cmd (log_exec answer) (nft_delete chain n) h)) ns h
      = h @ map (nft_delete chain) ns" for ns
    by (induction ns arbitrary: h) auto
  then show ?thesis by (simp add: delete_listed_fold)
qed

lemma quoted_in_line:
  "str_contains (quoted tap) (nft_line rule n) \<longleftrightarrow> str_contains (quoted tap) rule"
proof -
  have "DQUOTE \<notin> set (show_nat n)" by (rule show_nat_no) (simp add: is_digit_def)
  then show ?thesis
    unfolding nft_line_def
    by (intro str_contains_tail) (auto simp: quoted_def)
qed

lemma listed_handles_lines:
  assumes "\<forall>(rule, n)\<in>set rs. \<not> str_contains ''handle'' rule \<and> n < 2 ^ 64"
  shows "listed_handles tap (map (\<lambda>(rule, n). nft_line rule n) rs)
    = map snd (filter (\<lambda>(rule, n). str_contains (quoted tap) rule) rs)"
  using assms by (induction rs) (auto simp: quoted_in_line extract_handle_line)

text \<open>The whole listing: one line per rule.\<close>

definition nft_listing :: "(string \<times> nat) list \<Rightarrow> string" where
  "nft_listing rs = concat (map (\<lambda>(rule, n). nft_line rule n @ [LF]) rs)"

definition plain_rule :: "string \<times> nat \<Rightarrow> bool" where
  "plain_rule = (\<lambda>(rule, n). \<not> str_contains ''handle'' rule \<and> n < 2 ^ 64
     \<and> LF \<notin> set rule \<and> (\<forall>c\<in>set rule. byte c < 128))"

lemma str_lines_cons:
  assumes "LF \<notin> set l" and "l \<noteq> []" and "last l \<noteq> CR"
  shows "str_lines (l @ LF # s) = l # str_lines s"
proof -
  have "split_char LF (l @ LF # s) = l # split_char LF s"
    by (rule split_char_append) (rule assms(1))
  with assms(2,3) show ?thesis by (simp add: str_lines_def strip_cr_def Let_def)
qed

lemma str_lines_Nil [simp]: "str_lines [] = []"
  by (simp add: str_lines_def)

lemma nft_line_shape:
  assumes "plain_rule (rule, n)"
  shows "LF \<notin> set (nft_line rule n)" and "nft_line rule n \<noteq> []" and "last (nft_line rule n) \<noteq> CR"
    and "\<forall>c\<in>set (nft_line rule n). byte c < 128"
proof -
  have d: "\<forall>c\<in>set (show_nat n). is_digit c"
    using show_nat_digits[of n] by (simp add: list_all_iff)
  then have no: "LF \<notin> set (show_nat n)" "CR \<notin> set (show_nat n)" "\<forall>c\<in>set (show_nat n). byte c < 128"
    by (auto simp: is_digit_def)
  show "LF \<notin> set (nft_line rule n)" using assms no by (simp add: plain_rule_def nft_line_def)
  show "nft_line rule n \<noteq> []" by (simp add: nft_line_def)
  show "last (nft_line rule n) \<noteq> CR"
  proof -
    have "last (show_nat n) \<in> set (show_nat n)" by (rule last_in_set) simp
    with no(2) have "last (show_nat n) \<noteq> CR" by metis
    then show ?thesis by (simp add: nft_line_def)
  qed
  show "\<forall>c\<in>set (nft_line rule n). byte c < 128"
    using assms no(3) by (auto simp: plain_rule_def nft_line_def)
qed

lemma listing_lines:
  assumes "\<forall>p\<in>set rs. plain_rule p"
  shows "str_lines (from_utf8_lossy (nft_listing rs)) = map (\<lambda>(rule, n). nft_line rule n) rs"
proof -
  have "\<forall>c\<in>set (nft_listing rs). byte c < 128"
    using assms nft_line_shape(4) by (fastforce simp: nft_listing_def)
  then have "from_utf8_lossy (nft_listing rs) = nft_listing rs"
    by (intro lossy_valid_id utf8_valid_ascii)
  moreover have "str_lines (nft_listing rs) = map (\<lambda>(rule, n). nft_line rule n) rs"
    using assms
  proof (induction rs)
    case (Cons p rs)
    obtain rule n where p: "p = (rule, n)" by (cases p)
    with Cons.prems have "plain_rule (rule, n)" by simp
    note shape = nft_line_shape[OF this]
    have "nft_listing (p # rs) = nft_line rule n @ LF # nft_listing rs"
      by (simp add: nft_listing_def p)
    with Cons str_lines_cons[OF shape(1-3)] show ?case by (simp add: p)
  qed (simp add: nft_listing_def)
  ultimately show ?thesis by simp
qed

lemma clean_chain_log:
  assumes "answer (nft_list chain) h = Finished True (nft_listing rs) err"
    and "\<forall>p\<in>set rs. plain_rule p"
  shows "clean_chain (log_exec answer) chain tap h = (Inr (), h @ [nft_list chain]
    @ map (nft_delete chain) (map snd (filter (\<lambda>(rule, n). str_contains (quoted tap) rule) rs)))"
proof -
  have "\<forall>(rule, n)\<in>set rs. \<not> str_contains ''handle'' rule \<and> n < 2 ^ 64"
    using assms(2) by (auto simp: plain_rule_def)
  from listed_handles_lines[OF this, of tap] show ?thesis
    using assms(1)
    by (simp add: clean_chain_def log_exec_def[of answer "nft_list chain"]
        listing_lines[OF assms(2)] delete_listed_log[unfolded map_map])
qed

section \<open>Properties\<close>


lemma demo_rules:
  "dnat_rule ''tap-a'' ''10.0.1.1'' = ''iifname '' @ quoted ''tap-a'' @ '' tcp dport != 9999 dnat to 10.0.1.1:9999''"
  "dnat_rule ''tap-b'' ''10.0.1.5'' = ''iifname '' @ quoted ''tap-b'' @ '' tcp dport != 9999 dnat to 10.0.1.5:9999''"
  by (simp_all add: dnat_rule_def PROXY_PORT_def show_nat.simps digit_char_def char_of_eq_iff)


text \<open>
  An interface whose name contains that word is never cleaned: for the valid session id
  \<open>handle01\<close> the handle cannot be read from the rule's line, and the rule stays.
\<close>

theorem handle_in_name_leaks:
  "is_valid_session_id ''handle01''
   \<and> listed_handles ''tap-handle01'' [nft_line (dnat_rule ''tap-handle01'' ''10.0.1.1'') n] = []"
proof
  show "is_valid_session_id ''handle01''"
    by (simp add: is_valid_session_id_def session_char_def is_digit_def)
  have rule: "dnat_rule ''tap-handle01'' ''10.0.1.1''
      = ''iifname '' @ quoted ''tap-handle01'' @ '' tcp dport != 9999 dnat to 10.0.1.1:9999''"
    by (simp add: dnat_rule_def PROXY_PORT_def show_nat.simps digit_char_def char_of_eq_iff)
  have trim: "trim (s @ '' '') = s" if "s = ''01'' @ DQUOTE # '' tcp dport != 9999 dnat to 10.0.1.1:9999 #''" for s
    by (rule trim_space_end) (simp_all add: that visible_def)
  have "extract_handle (nft_line (dnat_rule ''tap-handle01'' ''10.0.1.1'') n) = None"
    unfolding rule nft_line_def extract_handle_def
    using trim[OF refl]
    by (simp add: quoted_def split_on.simps[of "''handle''"] parse_uint_def is_digit_def)
  then show "listed_handles ''tap-handle01'' [nft_line (dnat_rule ''tap-handle01'' ''10.0.1.1'') n] = []"
    by simp
qed

text \<open>
  Setting up an interface runs its five commands in order and stops at the first
  mandatory one that fails; what was done before is not undone.
\<close>

theorem setup_tap_trace:
  "net_ok (setup_tap_interface (log_exec answer) tap host_ip h)
     = script_run answer (setup_script tap host_ip) h
   \<and> net_ok (cleanup_tap_interface (log_exec answer) tap h) = script_run answer (cleanup_script tap) h
   \<and> net_ok (add_dnat_rule (log_exec answer) tap host_ip h) = script_run answer (dnat_script tap host_ip) h"
  by (simp add: setup_tap_script cleanup_tap_script dnat_rule_script)

end
