(* ===== verification/Vm_Files.thy ===== *)
theory Vm_Files
  imports Vm_Network
begin

text \<open>
  Injection of files into a VM (\<open>crates/vm-manager/src/file_injection.rs\<close>). Paths are the
  component lists of \<open>std::path\<close>. The host file system and the host commands are the
  functions of \<open>file_host\<close>; what is read from the host is a tree (\<open>fs_node\<close>), and every
  read or write may fail.
\<close>

abbreviation SQUOTE :: char where "SQUOTE \<equiv> CHR 0x27"

definition em_dash :: string where "em_dash = [CHR 0xE2, CHR 0x80, CHR 0x94]"

section \<open>Paths\<close>

datatype path_comp = RootDir | CurDir | ParentDir | Normal string

type_synonym path = "path_comp list"

definition comp_of :: "string \<Rightarrow> path_comp" where
  "comp_of s = (if s = ''.'' then CurDir else if s = ''..'' then ParentDir else Normal s)"

text \<open>\<open>Path::components\<close>: empty pieces and \<open>.\<close> are dropped, except a leading \<open>.\<close> of a
  relative path.\<close>

definition components :: "string \<Rightarrow> path" where
  "components s =
     (let cs = map comp_of (filter (\<lambda>p. p \<noteq> []) (split_char (CHR ''/'') s)) in
      if starts_with ''/'' s then RootDir # filter (\<lambda>c. c \<noteq> CurDir) cs
      else (case cs of
              CurDir # r \<Rightarrow> CurDir # filter (\<lambda>c. c \<noteq> CurDir) r
            | _ \<Rightarrow> filter (\<lambda>c. c \<noteq> CurDir) cs))"

definition path_join :: "path \<Rightarrow> path \<Rightarrow> path" where
  "path_join p q =
     (case q of RootDir # _ \<Rightarrow> q | _ \<Rightarrow> if p = [] then q else p @ filter (\<lambda>c. c \<noteq> CurDir) q)"

fun path_starts_with :: "path \<Rightarrow> path \<Rightarrow> bool" where
  "path_starts_with p [] = True"
| "path_starts_with [] (b # bs) = False"
| "path_starts_with (c # p) (b # bs) = (c = b \<and> path_starts_with p bs)"

definition path_strip_prefix :: "path \<Rightarrow> path \<Rightarrow> path option" where
  "path_strip_prefix base p = (if path_starts_with p base then Some (drop (length base) p) else None)"

definition path_parent :: "path \<Rightarrow> path option" where
  "path_parent p = (if p = [] \<or> last p = RootDir then None else Some (butlast p))"

fun comp_text :: "path_comp \<Rightarrow> string" where
  "comp_text RootDir = []"
| "comp_text CurDir = ''.''"
| "comp_text ParentDir = ''..''"
| "comp_text (Normal s) = s"

definition path_display :: "path \<Rightarrow> string" where
  "path_display p = (if p = [RootDir] then ''/'' else join ''/'' (map comp_text p))"

section \<open>The host\<close>

text \<open>A node of a directory tree. A directory may be unreadable, and so may each of its
  entries. A symbolic link has the length of its own text and the outcome of reading
  through it.\<close>

datatype fs_node =
    Plain string
  | Link nat "string + string"
  | Folder "fs_entry list"
  | LockedFolder string
and fs_entry = EntryError string | Entry string fs_node

type_synonym ('a, 'h) fres = "(string, 'a) result \<times> 'h"

record 'h file_host =
  fh_exec :: "'h exec"
  fh_tempdir :: "'h \<Rightarrow> (path, 'h) fres"
  fh_temp_root :: path
  fh_mkdirs :: "path \<Rightarrow> 'h \<Rightarrow> (unit, 'h) fres"
  fh_rmdirs :: "path \<Rightarrow> 'h \<Rightarrow> (unit, 'h) fres"
  fh_write :: "path \<Rightarrow> string \<Rightarrow> 'h \<Rightarrow> (unit, 'h) fres"
  fh_canonicalize :: "path \<Rightarrow> 'h \<Rightarrow> (string, path) result"
  fh_node :: "path \<Rightarrow> 'h \<Rightarrow> (string, fs_node) result"
  fh_create_sized :: "path \<Rightarrow> u64 \<Rightarrow> 'h \<Rightarrow> (unit, 'h) fres"

definition and_then :: "('a, 'h) fres \<Rightarrow> ('a \<Rightarrow> 'h \<Rightarrow> ('b, 'h) fres) \<Rightarrow> ('b, 'h) fres" where
  "and_then r k = (case r of (Inl e, h) \<Rightarrow> (Inl e, h) | (Inr a, h) \<Rightarrow> k a h)"

lemma and_then_cong:
  "r = r' \<Longrightarrow> (\<And>a h. k a h = k' a h) \<Longrightarrow> and_then r k = and_then r' k'"
  by (simp add: and_then_def split: prod.splits sum.splits)

fun is_folder :: "fs_node \<Rightarrow> bool" where
  "is_folder (Folder es) = True"
| "is_folder (LockedFolder e) = True"
| "is_folder (Plain c) = False"
| "is_folder (Link n c) = False"

section \<open>Copying\<close>

text \<open>\<open>std::fs::copy\<close>: the source is read, through a link, and written.\<close>

fun copy_file :: "'h file_host \<Rightarrow> fs_node \<Rightarrow> path \<Rightarrow> 'h \<Rightarrow> (unit, 'h) fres" where
  "copy_file os (Plain c) dest h = fh_write os dest c h"
| "copy_file os (Link _ (Inr c)) dest h = fh_write os dest c h"
| "copy_file os (Link _ (Inl e)) dest h = (Inl e, h)"
| "copy_file os n dest h = (Inl ''the source path is neither a regular file nor a symlink to a regular file'', h)"

fun copy_dir_all :: "'h file_host \<Rightarrow> fs_node \<Rightarrow> path \<Rightarrow> 'h \<Rightarrow> (unit, 'h) fres"
  and copy_entries :: "'h file_host \<Rightarrow> fs_entry list \<Rightarrow> path \<Rightarrow> 'h \<Rightarrow> (unit, 'h) fres" where
  "copy_dir_all os (Folder es) dest h = and_then (fh_mkdirs os dest h) (\<lambda>_ h. copy_entries os es dest h)"
| "copy_dir_all os (LockedFolder e) dest h = and_then (fh_mkdirs os dest h) (\<lambda>_ h. (Inl e, h))"
| "copy_dir_all os (Plain c) dest h =
     and_then (fh_mkdirs os dest h) (\<lambda>_ h. (Inl ''Not a directory (os error 20)'', h))"
| "copy_dir_all os (Link n c) dest h =
     and_then (fh_mkdirs os dest h) (\<lambda>_ h. (Inl ''Not a directory (os error 20)'', h))"
| "copy_entries os [] dest h = (Inr (), h)"
| "copy_entries os (EntryError e # es) dest h = (Inl e, h)"
| "copy_entries os (Entry name n # es) dest h =
     and_then (if is_folder n then copy_dir_all os n (dest @ [Normal name]) h
               else copy_file os n (dest @ [Normal name]) h)
       (\<lambda>_ h. copy_entries os es dest h)"

text \<open>The sizes of the files of a directory, added in 64 bits.\<close>

fun dir_size :: "fs_node \<Rightarrow> u64" and entries_size :: "fs_entry list \<Rightarrow> u64" where
  "dir_size (Folder es) = entries_size es"
| "dir_size (LockedFolder e) = 0"
| "dir_size (Plain c) = 0"
| "dir_size (Link n c) = 0"
| "entries_size [] = 0"
| "entries_size (EntryError e # es) = entries_size es"
| "entries_size (Entry name n # es) =
     (if is_folder n then dir_size n
      else case n of Plain c \<Rightarrow> of_nat (length c) | Link k c \<Rightarrow> of_nat k | _ \<Rightarrow> 0) + entries_size es"

section \<open>Staging\<close>

definition HOST_PATH_ALLOWLIST :: string where
  "HOST_PATH_ALLOWLIST = ''/var/lib/ae-vm-manager/files/''"

definition clone_repo :: "'h file_host \<Rightarrow> string \<Rightarrow> string \<Rightarrow> path \<Rightarrow> 'h \<Rightarrow> (unit, 'h) fres" where
  "clone_repo os repo rf dest h =
     (case fh_exec os [''git'', ''clone'', ''--depth'', ''1'', ''--branch'', rf, repo, path_display dest] h of
        (SpawnFailed e, h1) \<Rightarrow> (Inl ''failed to run git clone'', h1)
      | (Finished ok out err, h1) \<Rightarrow>
          if \<not> ok then
            (case fh_exec os [''git'', ''clone'', ''--depth'', ''1'', repo, path_display dest] h1 of
               (SpawnFailed e, h2) \<Rightarrow> (Inl ''failed to run git clone (fallback)'', h2)
             | (Finished ok2 out2 err2, h2) \<Rightarrow>
                 if \<not> ok2 then
                   (Inl (''git clone failed for '' @ repo @ '' at '' @ rf @ LF # ''first attempt: ''
                      @ from_utf8_lossy err @ LF # ''fallback: '' @ from_utf8_lossy err2), h2)
                 else (Inr (), snd (fh_exec os [''git'', ''-C'', path_display dest, ''checkout'', rf] h2)))
          else (Inr (), h1))"

definition stage_dest :: "path \<Rightarrow> string \<Rightarrow> path" where
  "stage_dest staging guest =
     (let g = components guest in
      path_join staging (case path_strip_prefix [RootDir] g of Some r \<Rightarrow> r | None \<Rightarrow> g))"

definition stage_inline :: "'h file_host \<Rightarrow> file_entry \<Rightarrow> path \<Rightarrow> 'h \<Rightarrow> (unit, 'h) fres" where
  "stage_inline os f dest h =
     (case content f of
        None \<Rightarrow> (Inl (''source=inline requires '' @ SQUOTE # ''content'' @ SQUOTE # '' field for '' @ guest_path f), h)
      | Some c \<Rightarrow> fh_write os dest c h)"

definition stage_git :: "'h file_host \<Rightarrow> file_entry \<Rightarrow> path \<Rightarrow> 'h \<Rightarrow> (unit, 'h) fres" where
  "stage_git os f dest h =
     (case url f of
        None \<Rightarrow> (Inl (''source=git requires '' @ SQUOTE # ''url'' @ SQUOTE # '' field for '' @ guest_path f), h)
      | Some u \<Rightarrow>
          (let rf = (case git_ref f of Some r \<Rightarrow> r | None \<Rightarrow> ''main'') in
           and_then (fh_tempdir os h) (\<lambda>clone_dir h.
           and_then (clone_repo os u rf clone_dir h) (\<lambda>_ h.
             case fh_node os clone_dir h of
               Inl e \<Rightarrow> and_then (fh_mkdirs os dest h) (\<lambda>_ h. (Inl e, h))
             | Inr n \<Rightarrow> copy_dir_all os n dest h))))"

definition stage_path :: "'h file_host \<Rightarrow> file_entry \<Rightarrow> path \<Rightarrow> 'h \<Rightarrow> (unit, 'h) fres" where
  "stage_path os f dest h =
     (case host_path f of
        None \<Rightarrow> (Inl (''source=path requires '' @ SQUOTE # ''path'' @ SQUOTE # '' field for '' @ guest_path f), h)
      | Some src \<Rightarrow>
          (case fh_canonicalize os (components src) h of
             Inl e \<Rightarrow> (Inl (''source path does not exist: '' @ src), h)
           | Inr src_canonical \<Rightarrow>
               if \<not> path_starts_with src_canonical (components HOST_PATH_ALLOWLIST) then
                 (Inl (''path injection restricted to '' @ HOST_PATH_ALLOWLIST
                    @ '' '' @ em_dash @ '' got '' @ path_display src_canonical), h)
               else
                 (case fh_node os src_canonical h of
                    Inl e \<Rightarrow> (Inl e, h)
                  | Inr n \<Rightarrow> if is_folder n then copy_dir_all os n dest h else copy_file os n dest h)))"

definition stage_file :: "'h file_host \<Rightarrow> path \<Rightarrow> file_entry \<Rightarrow> 'h \<Rightarrow> (unit, 'h) fres" where
  "stage_file os staging_dir f h =
     (let dest = stage_dest staging_dir (guest_path f);
          stage = (\<lambda>h.
            if file_source f = ''inline'' then stage_inline os f dest h
            else if file_source f = ''git'' then stage_git os f dest h
            else if file_source f = ''path'' then stage_path os f dest h
            else (Inl (''unknown file source type: '' @ file_source f), h))
      in case path_parent dest of
           Some parent \<Rightarrow> and_then (fh_mkdirs os parent h) (\<lambda>_ h. stage h)
         | None \<Rightarrow> stage h)"

section \<open>The disk image\<close>

definition MIB4 :: u64 where "MIB4 = 4 * 1024 * 1024"

text \<open>\<open>u64::div_ceil\<close>.\<close>

definition div_ceil :: "u64 \<Rightarrow> u64 \<Rightarrow> u64" where
  "div_ceil a b = (if a mod b > 0 then a div b + 1 else a div b)"

definition image_size :: "u64 \<Rightarrow> u64" where
  "image_size sz = max MIB4 (div_ceil (sz * 2) MIB4 * 4 * 1024 * 1024)"

definition run_file_cmd :: "'h file_host \<Rightarrow> string list \<Rightarrow> 'h \<Rightarrow> (unit, 'h) fres" where
  "run_file_cmd os cmd h = run_cmd (fh_exec os) cmd h"

definition build_ext4_image :: "'h file_host \<Rightarrow> path \<Rightarrow> string \<Rightarrow> 'h \<Rightarrow> (path, 'h) fres" where
  "build_ext4_image os staging_dir sid h =
     (let image_path = path_join (fh_temp_root os) (components (''ae-vm-files-'' @ sid @ ''.img''));
          sz = (case fh_node os staging_dir h of Inr n \<Rightarrow> dir_size n | Inl e \<Rightarrow> 0);
          mount_point = ''/tmp/ae-vm-mount-'' @ sid
      in and_then (fh_create_sized os image_path (image_size sz) h) (\<lambda>_ h.
         and_then (run_file_cmd os [''mkfs.ext4'', ''-q'', ''-F'', path_display image_path] h) (\<lambda>_ h.
         (let h = snd (fh_mkdirs os (components mount_point) h) in
         and_then (run_file_cmd os [''sudo'', ''mount'', ''-o'', ''loop'', path_display image_path, mount_point] h) (\<lambda>_ h.
         and_then (run_file_cmd os [''sudo'', ''cp'', ''-r'', path_display staging_dir, mount_point @ ''/.''] h) (\<lambda>_ h.
         and_then (run_file_cmd os [''sudo'', ''umount'', mount_point] h) (\<lambda>_ h.
           (Inr image_path, snd (fh_rmdirs os (components mount_point) h)))))))))"

text \<open>The loop over the requested files.\<close>

fun stage_all :: "'h file_host \<Rightarrow> path \<Rightarrow> file_entry list \<Rightarrow> 'h \<Rightarrow> (unit, 'h) fres" where
  "stage_all os staging_dir [] h = (Inr (), h)"
| "stage_all os staging_dir (f # fs) h =
     and_then (stage_file os staging_dir f h) (\<lambda>_ h. stage_all os staging_dir fs h)"

definition prepare_files :: "'h file_host \<Rightarrow> file_entry list \<Rightarrow> string \<Rightarrow> 'h \<Rightarrow> (path option, 'h) fres" where
  "prepare_files os fs sid h =
     (if fs = [] then (Inr None, h)
      else
        (case fh_tempdir os h of
           (Inl e, h1) \<Rightarrow> (Inl ''failed to create staging directory'', h1)
         | (Inr staging_dir, h1) \<Rightarrow>
             and_then (stage_all os staging_dir fs h1) (\<lambda>_ h.
             and_then (build_ext4_image os staging_dir sid h) (\<lambda>disk_image h.
               (Inr (Some disk_image), h)))))"

section \<open>Where files are staged\<close>

text \<open>\<open>confined os inside good\<close>: the operations of the host keep \<open>good\<close>, those that write
  as long as the path is \<open>inside\<close>.\<close>

definition keeps :: "('h \<Rightarrow> bool) \<Rightarrow> ('a, 'h) fres \<Rightarrow> bool" where
  "keeps good r = good (snd r)"

definition confined :: "'h file_host \<Rightarrow> (path \<Rightarrow> bool) \<Rightarrow> ('h \<Rightarrow> bool) \<Rightarrow> bool" where
  "confined os inside good \<longleftrightarrow>
     (\<forall>p c h. inside p \<longrightarrow> good h \<longrightarrow> keeps good (fh_write os p c h))
   \<and> (\<forall>p h. inside p \<longrightarrow> good h \<longrightarrow> keeps good (fh_mkdirs os p h))
   \<and> (\<forall>cmd h. good h \<longrightarrow> good (snd (fh_exec os cmd h)))
   \<and> (\<forall>h. good h \<longrightarrow> keeps good (fh_tempdir os h))"

named_theorems staged \<open>steps that keep what the host keeps for paths inside\<close>

lemma keeps_error [staged]: "good h \<Longrightarrow> keeps good (r, h)"
  by (simp add: keeps_def)

lemma keeps_write [staged]:
  "confined os inside good \<Longrightarrow> inside p \<Longrightarrow> good h \<Longrightarrow> keeps good (fh_write os p c h)"
  by (auto simp: confined_def)

lemma keeps_mkdirs [staged]:
  "confined os inside good \<Longrightarrow> inside p \<Longrightarrow> good h \<Longrightarrow> keeps good (fh_mkdirs os p h)"
  by (auto simp: confined_def)

lemma confined_exec:
  "confined os inside good \<Longrightarrow> good h \<Longrightarrow> fh_exec os cmd h = (r, h') \<Longrightarrow> good h'"
  by (auto simp: confined_def) (metis snd_conv)

lemma keeps_tempdir [staged]: "confined os inside good \<Longrightarrow> good h \<Longrightarrow> keeps good (fh_tempdir os h)"
  by (auto simp: confined_def)

lemma keeps_and_then [staged]:
  assumes "keeps good r" and "\<And>a h. good h \<Longrightarrow> keeps good (k a h)"
  shows "keeps good (and_then r k)"
  using assms by (auto simp: and_then_def keeps_def split: prod.splits sum.splits)

lemma keeps_copy_file [staged]:
  "confined os inside good \<Longrightarrow> inside p \<Longrightarrow> good h \<Longrightarrow> keeps good (copy_file os n p h)"
  by (cases "(os, n, p, h)" rule: copy_file.cases) (simp_all add: staged)

lemma keeps_copy:
  assumes down: "\<And>p c. inside p \<Longrightarrow> inside (p @ [Normal c])"
  shows "confined os inside good \<Longrightarrow> inside p \<Longrightarrow> good h \<Longrightarrow> keeps good (copy_dir_all os n p h)"
    and "confined os inside good \<Longrightarrow> inside p \<Longrightarrow> good h \<Longrightarrow> keeps good (copy_entries os es p h)"
proof (induction os n p h and os es p h rule: copy_dir_all_copy_entries.induct)
  case (7 os name n es dest h)
  have "keeps good (if is_folder n then copy_dir_all os n (dest @ [Normal name]) h
      else copy_file os n (dest @ [Normal name]) h)"
    using 7 down[OF 7(4)] by (cases "is_folder n") (simp_all add: staged)
  then show ?case
    unfolding copy_entries.simps by (rule keeps_and_then) (use 7 in blast)
qed (auto intro!: staged)

lemma keeps_clone [staged]:
  assumes "confined os inside good" and "good h"
  shows "keeps good (clone_repo os repo rf dest h)"
proof -
  note ex = confined_exec[OF assms(1)]
  have last: "good (snd (fh_exec os cmd h))" if "good h" for cmd h
    using ex[OF that] by (metis prod.collapse)
  show ?thesis
    unfolding clone_repo_def
    by (auto simp: keeps_def split: prod.splits exec_outcome.splits intro!: last intro: ex ex[OF assms(2)])
qed

lemma keeps_stage:
  assumes c: "confined os inside good"
    and down: "\<And>p n. inside p \<Longrightarrow> inside (p @ [Normal n])"
    and dest: "inside (stage_dest staging (guest_path f))"
    and parent: "\<And>p. path_parent (stage_dest staging (guest_path f)) = Some p \<Longrightarrow> inside p"
    and good: "good h"
  shows "keeps good (stage_file os staging f h)"
proof -
  let ?d = "stage_dest staging (guest_path f)"
  note copy = keeps_copy(1)[of inside os good, OF down c dest]
  have inline: "keeps good (stage_inline os f ?d h)" if "good h" for h
    using that by (auto simp: stage_inline_def intro!: staged c dest split: option.splits)
  have git: "keeps good (stage_git os f ?d h)" if "good h" for h
    unfolding stage_git_def Let_def
    using that by (auto intro!: staged c dest copy split: option.splits sum.splits)
  have path: "keeps good (stage_path os f ?d h)" if "good h" for h
    using that by (auto simp: stage_path_def intro!: staged c dest copy split: option.splits sum.splits)
  show ?thesis
    using inline git path good
    by (auto simp: stage_file_def Let_def intro!: staged c parent split: option.splits)
qed

text \<open>A guest path that names a file below the root and does not climb.\<close>

definition plain_guest_path :: "string \<Rightarrow> bool" where
  "plain_guest_path g = (ParentDir \<notin> set (components g)
     \<and> (\<exists>p n. components g = p @ [Normal n]))"

definition below :: "path \<Rightarrow> path \<Rightarrow> bool" where
  "below root p = (\<exists>r. p = root @ r \<and> (\<forall>c\<in>set r. \<exists>n. c = Normal n))"

lemma comp_of_root: "comp_of s \<noteq> RootDir"
  by (simp add: comp_of_def)

lemma components_tail: "RootDir \<notin> set (List.tl (components s))"
proof -
  define cs where "cs = map comp_of (filter (\<lambda>p. p \<noteq> []) (split_char (CHR ''/'') s))"
  have "RootDir \<notin> set cs" unfolding cs_def using comp_of_root by (metis ex_map_conv)
  moreover have "set (List.tl xs) \<subseteq> set xs" for xs :: path by (cases xs) auto
  ultimately show ?thesis
    unfolding components_def cs_def[symmetric] Let_def by (cases cs) (auto split: path_comp.splits)
qed

lemma stage_dest_eq:
  assumes "staging \<noteq> []"
  shows "stage_dest staging g = staging @ filter (\<lambda>c. c \<noteq> CurDir \<and> c \<noteq> RootDir) (components g)"
proof (cases "components g")
  case Nil
  with assms show ?thesis by (simp add: stage_dest_def path_strip_prefix_def path_join_def)
next
  case (Cons c t)
  with components_tail[of g] have t: "RootDir \<notin> set t" by simp
  then have f: "filter (\<lambda>c. c \<noteq> CurDir \<and> c \<noteq> RootDir) t = filter (\<lambda>c. c \<noteq> CurDir) t"
    by (intro filter_cong) auto
  show ?thesis
  proof (cases "c = RootDir")
    case True
    with t have "path_join staging t = staging @ filter (\<lambda>c. c \<noteq> CurDir) t"
      using assms by (auto simp: path_join_def split: list.splits path_comp.splits)
    with Cons True f show ?thesis by (simp add: stage_dest_def path_strip_prefix_def)
  next
    case False
    with Cons assms f show ?thesis
      by (cases c) (simp_all add: stage_dest_def path_strip_prefix_def path_join_def)
  qed
qed

lemma plain_dest:
  assumes "staging \<noteq> []" and "plain_guest_path g"
  shows "below staging (stage_dest staging g)"
    and "path_parent (stage_dest staging g) = Some p \<Longrightarrow> below staging p"
proof -
  obtain q n where q: "components g = q @ [Normal n]" and up: "ParentDir \<notin> set (components g)"
    using assms(2) by (auto simp: plain_guest_path_def)
  let ?r = "filter (\<lambda>c. c \<noteq> CurDir \<and> c \<noteq> RootDir) q"
  have r: "\<forall>c\<in>set ?r. \<exists>n. c = Normal n"
  proof
    fix c
    assume "c \<in> set ?r"
    with up q show "\<exists>n. c = Normal n" by (cases c) auto
  qed
  have d: "stage_dest staging g = (staging @ ?r) @ [Normal n]"
    by (simp add: stage_dest_eq[OF assms(1)] q)
  show "below staging (stage_dest staging g)"
    unfolding below_def d using r by (intro exI[of _ "?r @ [Normal n]"]) auto
  show "below staging p" if "path_parent (stage_dest staging g) = Some p"
  proof -
    from that have "p = butlast (stage_dest staging g)" by (simp add: path_parent_def split: if_splits)
    then have "p = staging @ ?r" by (simp only: d butlast_snoc)
    with r show ?thesis unfolding below_def by blast
  qed
qed

lemma keeps_stage_all:
  assumes "confined os (below staging) good" and "staging \<noteq> []"
    and "\<forall>f\<in>set fs. plain_guest_path (guest_path f)" and "good h"
  shows "keeps good (stage_all os staging fs h)"
  using assms(3,4)
proof (induction fs arbitrary: h)
  case (Cons f fs)
  have "keeps good (stage_file os staging f h)"
    by (rule keeps_stage[OF assms(1)])
      (use Cons.prems plain_dest[OF assms(2)] in \<open>auto simp: below_def\<close>)
  with Cons show ?case by (auto intro: staged)
qed (simp add: keeps_error)

text \<open>The host with its files outside the allowlisted directory taken away.\<close>

definition only_allowlisted :: "'h file_host \<Rightarrow> 'h file_host" where
  "only_allowlisted os = os\<lparr>fh_node := \<lambda>p h.
     if path_starts_with p (components HOST_PATH_ALLOWLIST) then fh_node os p h else Inl []\<rparr>"

lemma only_allowlisted_simps [simp]:
  "fh_write (only_allowlisted os) = fh_write os" "fh_mkdirs (only_allowlisted os) = fh_mkdirs os"
  "fh_canonicalize (only_allowlisted os) = fh_canonicalize os"
  by (simp_all add: only_allowlisted_def)

lemma copy_file_allowlisted [simp]: "copy_file (only_allowlisted os) n d h = copy_file os n d h"
  by (cases "(os, n, d, h)" rule: copy_file.cases) simp_all

lemma copy_allowlisted [simp]:
  "copy_dir_all (only_allowlisted os) n d h = copy_dir_all os n d h"
  "copy_entries (only_allowlisted os) es d h = copy_entries os es d h"
  by (induction os n d h and os es d h rule: copy_dir_all_copy_entries.induct)
    (simp_all cong: and_then_cong)

section \<open>The size and the commands of the image\<close>

lemma unat_MIB4: "unat MIB4 = 4194304"
  by (simp add: MIB4_def)

lemma unat_div_ceil:
  assumes "1 < unat b"
  shows "unat (div_ceil a b) = (if 0 < unat a mod unat b then unat a div unat b + 1 else unat a div unat b)"
proof -
  have "unat a div unat b \<le> unat a div 2" using assms by (intro div_le_mono2) auto
  then have "unat (a div b) + 1 < 2 ^ LENGTH(64)"
    using unsigned_less[of a, where 'a = nat] by (simp add: unat_div_distrib)
  then have "unat (a div b + 1) = unat (a div b) + 1" by (simp add: unat_word_ariths)
  then show ?thesis
    by (simp add: div_ceil_def unat_div_distrib word_less_nat_alt unat_mod_distrib)
qed

lemma unat_image_size:
  assumes "unat d < 2 ^ 62"
  shows "unat (image_size d) = max 4194304
    ((if 0 < (2 * unat d) mod 4194304 then 2 * unat d div 4194304 + 1 else 2 * unat d div 4194304) * 4194304)"
    (is "_ = max _ (?q * _)")
proof -
  have two: "unat (d * 2) = 2 * unat d" using assms by (simp add: unat_word_ariths)
  have q: "unat (div_ceil (d * 2) MIB4) = ?q"
    using unat_div_ceil[of MIB4 "d * 2"] by (simp add: unat_MIB4 two)
  have "?q * 4194304 \<le> 2 * unat d + 4194304"
    using div_mult_mod_eq[of "2 * unat d" 4194304] by (simp split: if_split)
  then have "?q * 4194304 < 2 ^ LENGTH(64)" using assms by simp
  then have "unat (div_ceil (d * 2) MIB4 * MIB4) = ?q * 4194304"
    by (simp add: unat_word_ariths q unat_MIB4)
  moreover have "div_ceil (d * 2) MIB4 * 4 * 1024 * 1024 = div_ceil (d * 2) MIB4 * MIB4"
    by (simp add: MIB4_def mult.assoc)
  ultimately show ?thesis
    unfolding image_size_def by (simp add: max_def word_le_nat_alt unat_MIB4)
qed

text \<open>The commands that build the image, all of them mandatory.\<close>

definition image_script :: "path \<Rightarrow> path \<Rightarrow> string \<Rightarrow> (string list \<times> bool) list" where
  "image_script image_path staging_dir mount_point =
     [([''mkfs.ext4'', ''-q'', ''-F'', path_display image_path], True),
      ([''sudo'', ''mount'', ''-o'', ''loop'', path_display image_path, mount_point], True),
      ([''sudo'', ''cp'', ''-r'', path_display staging_dir, mount_point @ ''/.''], True),
      ([''sudo'', ''umount'', mount_point], True)]"

definition res_ok :: "('a, 'h) fres \<Rightarrow> bool \<times> 'h" where
  "res_ok r = (\<not> isl (fst r), snd r)"

lemma res_ok_cmd:
  assumes "fh_exec os = log_exec answer"
  shows "res_ok (and_then (run_file_cmd os cmd h) k) =
     (if succeeds (answer cmd h) then res_ok (k () (h @ [cmd])) else (False, h @ [cmd]))"
  by (simp add: res_ok_def and_then_def run_file_cmd_def assms run_cmd_def log_exec_def succeeds_def
      split: exec_outcome.splits)

lemma build_image_script:
  assumes "fh_exec os = log_exec answer"
    and "\<And>p z h. fh_create_sized os p z h = (Inr (), h)"
    and "\<And>p h. snd (fh_mkdirs os p h) = h" and "\<And>p h. snd (fh_rmdirs os p h) = h"
  shows "res_ok (build_ext4_image os staging_dir sid h) =
    script_run answer (image_script (path_join (fh_temp_root os) (components (''ae-vm-files-'' @ sid @ ''.img'')))
      staging_dir (''/tmp/ae-vm-mount-'' @ sid)) h"
  unfolding build_ext4_image_def Let_def assms(2) image_script_def
  by (simp add: and_then_def[of "(Inr (), h)"] res_ok_cmd[OF assms(1)] assms(3,4))
    (simp add: res_ok_def)

definition demo_image_host :: "(string list \<Rightarrow> host_log \<Rightarrow> exec_outcome) \<Rightarrow> host_log file_host" where
  "demo_image_host answer = \<lparr>fh_exec = log_exec answer, fh_tempdir = \<lambda>h. (Inr [RootDir, Normal ''c''], h),
     fh_temp_root = [RootDir, Normal ''tmp''], fh_mkdirs = \<lambda>p h. (Inr (), h), fh_rmdirs = \<lambda>p h. (Inr (), h),
     fh_write = \<lambda>p c h. (Inr (), h), fh_canonicalize = \<lambda>p h. Inr p, fh_node = \<lambda>p h. Inr (Folder []),
     fh_create_sized = \<lambda>p z h. (Inr (), h)\<rparr>"

section \<open>Properties\<close>


text \<open>A host that keeps the list of the paths it wrote.\<close>

definition demo_files :: "path list file_host" where
  "demo_files = \<lparr>fh_exec = \<lambda>cmd h. (Finished True [] [], h), fh_tempdir = \<lambda>h. (Inr [RootDir, Normal ''c''], h),
     fh_temp_root = [RootDir, Normal ''tmp''], fh_mkdirs = \<lambda>p h. (Inr (), h), fh_rmdirs = \<lambda>p h. (Inr (), h),
     fh_write = \<lambda>p c h. (Inr (), p # h),
     fh_canonicalize = \<lambda>p h. Inr p, fh_node = \<lambda>p h. Inr (Link 11 (Inr ''secret'')),
     fh_create_sized = \<lambda>p z h. (Inr (), h)\<rparr>"

definition demo_staging :: path where "demo_staging = [RootDir, Normal ''tmp'', Normal ''st'']"

definition demo_file :: "string \<Rightarrow> file_entry" where
  "demo_file g = \<lparr>guest_path = g, file_source = ''inline'', content = Some ''x'', url = None, git_ref = None,
     host_path = None\<rparr>"

lemma demo_components:
  "components ''/home/a'' = [RootDir, Normal ''home'', Normal ''a'']"
  "components ''/../../etc/x'' = [RootDir, ParentDir, ParentDir, Normal ''etc'', Normal ''x'']"
  by (simp_all add: components_def comp_of_def)


text \<open>
  A guest path with \<open>..\<close> climbs out of the staging directory: nothing checks it.
\<close>

fun resolve_dots :: "path \<Rightarrow> path \<Rightarrow> path" where
  "resolve_dots acc [] = rev acc"
| "resolve_dots acc (ParentDir # p) = resolve_dots (if acc = [] \<or> hd acc = RootDir then acc else List.tl acc) p"
| "resolve_dots acc (c # p) = resolve_dots (c # acc) p"

theorem guest_path_climbs:
  "snd (stage_all demo_files demo_staging [demo_file ''/../../etc/x''] []) = [stage_dest demo_staging ''/../../etc/x'']
   \<and> resolve_dots [] (stage_dest demo_staging ''/../../etc/x'') = [RootDir, Normal ''etc'', Normal ''x'']"
  by (simp add: demo_files_def demo_file_def demo_staging_def stage_file_def stage_inline_def stage_dest_eq
      demo_components path_parent_def and_then_def)

text \<open>
  A link inside an allowlisted directory is followed: what it points to is copied.
\<close>

theorem links_are_followed:
  "copy_dir_all os (Folder [Entry ''l'' (Link n (Inr secret))]) dest h =
     and_then (fh_mkdirs os dest h) (\<lambda>_ h. and_then (fh_write os (dest @ [Normal ''l'']) secret h) (\<lambda>_ h. (Inr (), h)))"
  by (simp cong: and_then_cong)


definition demo_host_file :: file_entry where
  "demo_host_file = \<lparr>guest_path = ''/home/a'', file_source = ''path'', content = None, url = None,
     git_ref = None, host_path = Some ''/etc/shadow''\<rparr>"


text \<open>
  C36. The image is large enough: below 2 exabytes it is a multiple of 4 MiB, at least 4 MiB
  and twice the size of the files, and less than 4 MiB above that; the 64-bit product wraps to the
  minimum beyond.
\<close>

theorem image_size_bounds:
  assumes "unat d < 2 ^ 62"
  shows "2 * unat d \<le> unat (image_size d) \<and> 4194304 \<le> unat (image_size d)
    \<and> 4194304 dvd unat (image_size d)
    \<and> unat (image_size d) < max 4194305 (2 * unat d + 4194304)
    \<and> image_size (2 ^ 63) = MIB4"
proof -
  let ?n = "2 * unat d"
  have split: "?n div 4194304 * 4194304 + ?n mod 4194304 = ?n" by (rule div_mult_mod_eq)
  have "?n mod 4194304 < 4194304" by simp
  moreover have "image_size (2 ^ 63) = MIB4" by (simp add: image_size_def div_ceil_def MIB4_def)
  ultimately show ?thesis
    using split unfolding unat_image_size[OF assms] by (auto simp: max_def)
qed

theorem image_size_bounds_witness:
  "2 * unat (5000000 :: u64) \<le> unat (image_size 5000000)"
  using image_size_bounds[of 5000000] by simp

text \<open>
  The image is built by four commands in order; the first that fails ends the build. So
  when the copy fails the image stays mounted: \<open>umount\<close> is only reached after the copy.
\<close>

theorem image_build_stops:
  assumes "fh_exec os = log_exec answer"
    and "\<And>p z h. fh_create_sized os p z h = (Inr (), h)"
    and "\<And>p h. snd (fh_mkdirs os p h) = h" and "\<And>p h. snd (fh_rmdirs os p h) = h"
    and "build_ext4_image os staging_dir sid h = (r, h')"
    and "script = image_script (path_join (fh_temp_root os) (components (''ae-vm-files-'' @ sid @ ''.img'')))
      staging_dir (''/tmp/ae-vm-mount-'' @ sid)"
  shows "\<exists>n\<le>4. h' = h @ map fst (take n script)
    \<and> (if isl r then 0 < n \<and> \<not> succeeds (answer (fst (script ! (n - 1))) (h @ map fst (take (n - 1) script)))
       else n = 4)"
proof -
  have "(\<not> isl r, h') = script_run answer script h"
    using build_image_script[OF assms(1-4), of staging_dir sid h] assms(5,6) by (simp add: res_ok_def)
  moreover have "length script = 4" by (simp add: assms(6) image_script_def)
  ultimately show ?thesis
    using script_run_prefix[of script answer h] by (metis fst_conv snd_conv)
qed

theorem image_build_stops_witness:
  "\<exists>n\<le>4. snd (build_ext4_image (demo_image_host (\<lambda>cmd h. SpawnFailed [])) demo_staging ''s1'' [])
    = map fst (take n (image_script (path_join [RootDir, Normal ''tmp''] (components (''ae-vm-files-'' @ ''s1'' @ ''.img'')))
        demo_staging (''/tmp/ae-vm-mount-'' @ ''s1'')))"
proof -
  let ?os = "demo_image_host (\<lambda>cmd h. SpawnFailed [])"
  obtain r h' where b: "build_ext4_image ?os demo_staging ''s1'' [] = (r, h')" by fastforce
  have "\<exists>n\<le>4. h' = [] @ map fst (take n (image_script (path_join (fh_temp_root ?os) (components (''ae-vm-files-'' @ ''s1'' @ ''.img'')))
        demo_staging (''/tmp/ae-vm-mount-'' @ ''s1'')))"
    using image_build_stops[of ?os "\<lambda>cmd h. SpawnFailed []" demo_staging "''s1''" "[]" r h', OF _ _ _ _ b refl]
    by (auto simp: demo_image_host_def)
  with b show ?thesis by (simp add: demo_image_host_def)
qed

end
