(* ===== verification/Vm_Tasks.thy ===== *)
theory Vm_Tasks
  imports Vm_State Vm_Files
begin

text \<open>
  The tasks of the VM manager. A handler or a background task is a tree of its atomic
  actions (\<open>prog\<close>): what it does while it holds a lock of the shared state, what it awaits
  from the host, the tasks it spawns, and the condition it waits for. \<open>run_prog\<close> runs one
  task alone; \<open>Vm_System\<close> interleaves many.
\<close>

section \<open>Tasks\<close>

text \<open>The arguments of \<open>run_vm_lifecycle\<close>. \<open>t_chan\<close> names the shutdown channel whose
  receiver the task owns.\<close>

record vm_task =
  t_chan :: nat
  t_session_id :: string
  t_kernel_path :: string
  t_rootfs_path :: string
  t_vm_ip :: string
  t_host_tap_ip :: string
  t_tap_interface :: string
  t_vcpus :: u32
  t_memory_mib :: u32
  t_files :: "file_entry list"

datatype ('w, 'a) prog =
    Done 'a
  | On_state "vm_state \<Rightarrow> ('w, 'a) prog \<times> vm_state"
  | On_host "'w \<Rightarrow> ('w, 'a) prog \<times> 'w"
  | Spawn vm_task "('w, 'a) prog"
  | Wait "vm_state \<Rightarrow> bool" "('w, 'a) prog"

text \<open>Actions followed by the rest of the task.\<close>

definition locked :: "(vm_state \<Rightarrow> vm_state) \<Rightarrow> ('w, 'a) prog \<Rightarrow> ('w, 'a) prog" where
  "locked f k = On_state (\<lambda>st. (k, f st))"

definition awaited :: "('w \<Rightarrow> 'r \<times> 'w) \<Rightarrow> ('r \<Rightarrow> ('w, 'a) prog) \<Rightarrow> ('w, 'a) prog" where
  "awaited f k = On_host (\<lambda>w. case f w of (r, w') \<Rightarrow> (k r, w'))"

definition released :: "string \<Rightarrow> ('w, 'a) prog \<Rightarrow> ('w, 'a) prog" where
  "released ip k = locked (\<lambda>st. st\<lparr>allocated_ips := release_ip ip (allocated_ips st)\<rparr>) k"

text \<open>A oneshot receiver is ready when its sender has sent or is gone; the senders live in
  \<open>shutdown_txs\<close> only, and are taken out of it to send.\<close>

definition sender_gone :: "nat \<Rightarrow> vm_state \<Rightarrow> bool" where
  "sender_gone c st = (c \<notin> snd ` set (shutdown_txs st))"

section \<open>Running a task alone\<close>

text \<open>The task runs until it is done or has to wait; the result holds what is left of it and
  the tasks it spawned.\<close>

primrec run_prog :: "('w, 'a) prog \<Rightarrow> vm_state \<Rightarrow> 'w \<Rightarrow> ('w, 'a) prog \<times> vm_state \<times> 'w \<times> vm_task list" where
  "run_prog (Done a) = (\<lambda>st w. (Done a, st, w, []))"
| "run_prog (On_state f) = (\<lambda>st w. case (map_prod run_prog id \<circ> f) st of (r, st') \<Rightarrow> r st' w)"
| "run_prog (On_host f) = (\<lambda>st w. case (map_prod run_prog id \<circ> f) w of (r, w') \<Rightarrow> r st w')"
| "run_prog (Spawn t p) = (\<lambda>st w. case run_prog p st w of (q, st', w', ts) \<Rightarrow> (q, st', w', t # ts))"
| "run_prog (Wait b p) = (\<lambda>st w. if b st then run_prog p st w else (Wait b p, st, w, []))"

lemma run_On_state: "run_prog (On_state f) st w = (case f st of (p, st') \<Rightarrow> run_prog p st' w)"
  by (simp add: case_prod_unfold)

lemma run_On_host: "run_prog (On_host f) st w = (case f w of (p, w') \<Rightarrow> run_prog p st w')"
  by (simp add: case_prod_unfold)

declare run_prog.simps(2,3) [simp del]
declare run_On_state [simp] run_On_host [simp]

lemma run_locked [simp]: "run_prog (locked f k) st w = run_prog k (f st) w"
  by (simp add: locked_def)

lemma run_awaited [simp]:
  "run_prog (awaited f k) st w = (case f w of (r, w') \<Rightarrow> run_prog (k r) st w')"
  by (simp add: awaited_def case_prod_unfold)

lemma run_released [simp]:
  "run_prog (released ip k) st w
     = run_prog k (st\<lparr>allocated_ips := release_ip ip (allocated_ips st)\<rparr>) w"
  by (simp add: released_def)

end
