(* ===== verification/Vm_Proxy_Client.thy ===== *)
theory Vm_Proxy_Client
  imports Vm_Types Http_Bytes
begin

text \<open>
  The VM manager's client of the proxy's session API
  (\<open>crates/vm-manager/src/proxy_client.rs\<close>): one HTTP/1.1 exchange per call over a unix
  socket. The peer is a function of the socket path and the bytes written; it gives the
  outcome of \<open>connect\<close> and of the writes, and the stream that is read back
  (\<open>Http_Bytes.stream\<close>). Printing and parsing of JSON are arguments.
\<close>

section \<open>Types\<close>

record proxy_allowlist_entry =
  pa_domain :: string
  pa_mode :: string
  pa_credential_ref :: "string option"

record proxy_session_request =
  pr_session_id :: string
  pr_source_ip :: string
  pr_allowlist :: "proxy_allowlist_entry list"
  pr_expires_at :: "string option"

record proxy_session_response =
  ps_dummy_keys :: "(string, string) hashmap option"

record raw_http_response =
  rr_status :: nat
  rr_body :: string

record proxy_json =
  print_request :: "proxy_session_request \<Rightarrow> (string, string) result"
  parse_response :: "string \<Rightarrow> proxy_session_response option"

datatype unix_outcome = ConnectFailed string | WriteFailed string | Accepted stream

type_synonym 'w unix_io = "string \<Rightarrow> string \<Rightarrow> 'w \<Rightarrow> unix_outcome \<times> 'w"

section \<open>The exchange\<close>

definition unix_request :: "string \<Rightarrow> string \<Rightarrow> string option \<Rightarrow> string" where
  "unix_request meth path bdy =
     (case bdy of
        Some b \<Rightarrow> meth @ '' '' @ path @ '' HTTP/1.1'' @ crlf @ ''Host: localhost'' @ crlf
          @ ''Content-Type: application/json'' @ crlf
          @ ''Content-Length: '' @ show_nat (length b) @ crlf
          @ ''Connection: close'' @ crlf @ crlf @ b
      | None \<Rightarrow> meth @ '' '' @ path @ '' HTTP/1.1'' @ crlf @ ''Host: localhost'' @ crlf
          @ ''Connection: close'' @ crlf @ crlf)"

text \<open>The read loop.\<close>

function read_to_end :: "stream \<Rightarrow> string \<Rightarrow> (string, string) result" where
  "read_to_end st buf =
     (case stream_read 4096 st of
        (Inl e, st') \<Rightarrow> Inl (''failed to read proxy response: '' @ e)
      | (Inr b, st') \<Rightarrow> if b = [] then Inr buf else read_to_end st' (buf @ b))"
  by pat_completeness auto
termination
  by (relation "measure (\<lambda>(st, buf). stream_size st)") (auto dest: sym stream_read_size)

declare read_to_end.simps [simp del]

definition status_of_line :: "string \<Rightarrow> nat" where
  "status_of_line status_line =
     (case split_whitespace status_line of
        _ # w # _ \<Rightarrow> (case parse_uint (2 ^ 16) w of Some n \<Rightarrow> n | None \<Rightarrow> 0)
      | _ \<Rightarrow> 0)"

definition parse_raw_response :: "string \<Rightarrow> (string, raw_http_response) result" where
  "parse_raw_response resp_buf =
     (let resp_str = from_utf8_lossy resp_buf in
      case find_sub header_terminator resp_str of
        None \<Rightarrow> Inl ''malformed proxy response: no header terminator''
      | Some header_end \<Rightarrow>
          (let header_section = take header_end resp_str;
               body_section = drop (header_end + 4) resp_str;
               status_line = (case str_lines header_section of [] \<Rightarrow> [] | l # _ \<Rightarrow> l)
           in Inr \<lparr>rr_status = status_of_line status_line, rr_body = body_section\<rparr>))"

definition http_over_unix ::
  "'w unix_io \<Rightarrow> string \<Rightarrow> string \<Rightarrow> string \<Rightarrow> string option \<Rightarrow> 'w
     \<Rightarrow> (string, raw_http_response) result \<times> 'w" where
  "http_over_unix io socket_path meth path bdy w =
     (case io socket_path (unix_request meth path bdy) w of
        (ConnectFailed e, w') \<Rightarrow> (Inl (''failed to connect to proxy socket: '' @ socket_path), w')
      | (WriteFailed e, w') \<Rightarrow> (Inl e, w')
      | (Accepted st, w') \<Rightarrow>
          (case read_to_end st [] of
             Inl e \<Rightarrow> (Inl e, w')
           | Inr resp_buf \<Rightarrow> (parse_raw_response resp_buf, w')))"

definition register_proxy_session ::
  "proxy_json \<Rightarrow> 'w unix_io \<Rightarrow> string \<Rightarrow> string \<Rightarrow> string \<Rightarrow> proxy_allowlist_entry list \<Rightarrow> string option
     \<Rightarrow> 'w \<Rightarrow> (string, raw_http_response) result \<times> 'w" where
  "register_proxy_session js io socket_path sid ip entries expiry w =
     (let req_body = \<lparr>pr_session_id = sid, pr_source_ip = ip, pr_allowlist = entries,
            pr_expires_at = expiry\<rparr>
      in case print_request js req_body of
           Inl e \<Rightarrow> (Inl e, w)
         | Inr body_json \<Rightarrow>
             http_over_unix io socket_path ''POST'' ''/sessions'' (Some body_json) w)"

definition delete_proxy_session ::
  "'w unix_io \<Rightarrow> string \<Rightarrow> string \<Rightarrow> 'w \<Rightarrow> (string, raw_http_response) result \<times> 'w" where
  "delete_proxy_session io socket_path sid w =
     http_over_unix io socket_path ''DELETE'' (''/sessions/'' @ sid) None w"

definition parse_dummy_keys :: "proxy_json \<Rightarrow> string \<Rightarrow> (string, string) hashmap" where
  "parse_dummy_keys js bdy =
     (case parse_response js bdy of
        Some r \<Rightarrow> (case ps_dummy_keys r of Some m \<Rightarrow> m | None \<Rightarrow> [])
      | None \<Rightarrow> [])"

section \<open>Framing\<close>

lemma read_to_end_clean:
  "clean st \<Longrightarrow> read_to_end st buf = Inr (buf @ stream_bytes st)"
proof (induction st buf rule: read_to_end.induct)
  case (1 st buf)
  from clean_read[OF "1.prems", of 4096] obtain b st' where
    r: "stream_read 4096 st = (Inr b, st')" "clean st'" "b = [] \<longleftrightarrow> stream_bytes st = []"
    by auto
  show ?case
  proof (cases "b = []")
    case True
    with r show ?thesis by (simp add: read_to_end.simps[of st])
  next
    case False
    from "1.IH"[OF r(1)[symmetric] refl False r(2)] False stream_read_bytes[OF r(1)] r(1) show ?thesis
      by (simp add: read_to_end.simps[of st])
  qed
qed

text \<open>A head: lines without line breaks, none of them empty.\<close>

definition head_line :: "string \<Rightarrow> bool" where
  "head_line l = (l \<noteq> [] \<and> CR \<notin> set l \<and> LF \<notin> set l)"

lemma terminator_skip:
  assumes "CR \<notin> set l"
  shows "find_sub header_terminator (l @ s) = map_option (\<lambda>i. length l + i) (find_sub header_terminator s)"
  using assms
proof (induction l)
  case Nil
  show ?case by (simp add: option.map_ident)
next
  case (Cons c l)
  then have "find_sub header_terminator ((c # l) @ s)
      = map_option Suc (find_sub header_terminator (l @ s))"
    by (simp add: header_terminator_def)
  with Cons show ?case by (simp add: option.map_comp comp_def)
qed

lemma terminator_after_head:
  assumes "ls \<noteq> []" and "\<forall>l\<in>set ls. head_line l"
  shows "find_sub header_terminator (join crlf ls @ header_terminator @ t) = Some (length (join crlf ls))"
  using assms
proof (induction ls rule: induct_list012)
  case (2 l)
  then show ?case by (simp add: terminator_skip head_line_def) (simp add: header_terminator_def)
next
  case (3 l l' ls)
  then have l: "CR \<notin> set l" by (simp add: head_line_def)
  have IH: "find_sub header_terminator (join crlf (l' # ls) @ header_terminator @ t)
      = Some (length (join crlf (l' # ls)))"
    using 3 by simp
  obtain c r where c: "join crlf (l' # ls) = c # r" "c \<noteq> CR"
    using "3.prems"(2) by (cases l'; cases ls) (auto simp: head_line_def)
  have "find_sub header_terminator (CR # LF # join crlf (l' # ls) @ header_terminator @ t)
      = map_option (\<lambda>i. i + 2) (find_sub header_terminator (join crlf (l' # ls) @ header_terminator @ t))"
    using c by (auto simp: header_terminator_def option.map_comp comp_def)
  with IH have "find_sub header_terminator (crlf @ join crlf (l' # ls) @ header_terminator @ t)
      = Some (length (join crlf (l' # ls)) + 2)"
    by (simp add: crlf_def)
  with terminator_skip[OF l, of "crlf @ join crlf (l' # ls) @ header_terminator @ t"]
  show ?case by (simp del: join.simps(2) add: join.simps(3))
qed simp

lemma first_line:
  assumes "head_line l"
  shows "str_lines (l @ crlf @ r) = l # str_lines r" and "str_lines l = [l]"
proof -
  have "split_char LF (l @ crlf @ r) = (l @ [CR]) # split_char LF r"
    using split_char_append[of LF "l @ [CR]" r] assms by (simp add: crlf_def head_line_def)
  then show "str_lines (l @ crlf @ r) = l # str_lines r"
    by (simp add: str_lines_def Let_def strip_cr_def)
  from assms have "split_char LF l = [l]" by (intro split_char_none) (simp add: head_line_def)
  with assms show "str_lines l = [l]" by (simp add: str_lines_def head_line_def)
qed

lemma hd_lines_join:
  assumes "head_line l"
  shows "\<exists>rest. str_lines (join crlf (l # ls)) = l # rest"
  using first_line[OF assms] by (cases ls) simp_all

text \<open>A response on the wire.\<close>

definition http_wire :: "nat \<Rightarrow> string \<Rightarrow> string list \<Rightarrow> string \<Rightarrow> string" where
  "http_wire code reason headers bdy =
     join crlf ((''HTTP/1.1 '' @ show_nat code @ CHR '' '' # reason) # headers)
       @ header_terminator @ bdy"

lemma status_of_http_line:
  assumes "code < 2 ^ 16"
  shows "status_of_line (''HTTP/1.1 '' @ show_nat code @ CHR '' '' # reason) = code"
proof -
  have d: "\<forall>c\<in>set (show_nat code). visible c"
    using show_nat_digits[of code] by (auto simp: list_all_iff digit_visible)
  have h: "\<forall>c\<in>set ''HTTP/1.1''. visible c" by (simp add: visible_def)
  obtain rest where "split_whitespace (''HTTP/1.1'' @ CHR '' '' # show_nat code @ CHR '' '' # reason)
      = ''HTTP/1.1'' # show_nat code # rest"
    using split_whitespace_word[OF h _, of "show_nat code @ CHR '' '' # reason"]
      split_whitespace_word[OF d _, of reason] by auto
  with assms show ?thesis by (simp add: status_of_line_def parse_show_nat)
qed

lemma parse_http_wire:
  assumes "utf8_valid (http_wire code reason headers bdy)" and "code < 2 ^ 16"
    and "CR \<notin> set reason" and "LF \<notin> set reason" and "\<forall>l\<in>set headers. head_line l"
  shows "parse_raw_response (http_wire code reason headers bdy)
    = Inr \<lparr>rr_status = code, rr_body = bdy\<rparr>"
proof -
  let ?l = "''HTTP/1.1 '' @ show_nat code @ CHR '' '' # reason"
  have no: "CR \<notin> set (show_nat code)" "LF \<notin> set (show_nat code)"
    by (simp_all add: show_nat_no is_digit_def)
  have l: "head_line ?l" using assms(3,4) no by (simp add: head_line_def)
  then have pos: "find_sub header_terminator (http_wire code reason headers bdy)
      = Some (length (join crlf (?l # headers)))"
    unfolding http_wire_def using assms(5) by (intro terminator_after_head) auto
  obtain rest where "str_lines (join crlf (?l # headers)) = ?l # rest"
    using hd_lines_join[OF l] by blast
  moreover have "take (length (join crlf (?l # headers))) (http_wire code reason headers bdy)
      = join crlf (?l # headers)"
    "drop (length (join crlf (?l # headers)) + 4) (http_wire code reason headers bdy) = bdy"
    by (simp_all add: http_wire_def header_terminator_def)
  ultimately show ?thesis
    using status_of_http_line[OF assms(2), of reason]
    by (simp add: parse_raw_response_def Let_def lossy_valid_id[OF assms(1)] pos del: append.simps append_assoc)
qed

text \<open>The requests as heads and bodies.\<close>

definition post_head :: "string \<Rightarrow> string list" where
  "post_head b = [''POST /sessions HTTP/1.1'', ''Host: localhost'', ''Content-Type: application/json'',
     ''Content-Length: '' @ show_nat (length b), ''Connection: close'']"

definition delete_head :: "string \<Rightarrow> string list" where
  "delete_head sid = [''DELETE /sessions/'' @ sid @ '' HTTP/1.1'', ''Host: localhost'', ''Connection: close'']"

lemma unix_post: "unix_request ''POST'' ''/sessions'' (Some b) = join crlf (post_head b) @ header_terminator @ b"
  by (simp add: unix_request_def post_head_def header_terminator_def crlf_def)

lemma unix_delete:
  "unix_request ''DELETE'' (''/sessions/'' @ sid) None = join crlf (delete_head sid) @ header_terminator @ []"
  by (simp add: unix_request_def delete_head_def header_terminator_def crlf_def)

lemma post_head_lines: "\<forall>l\<in>set (post_head b). head_line l"
proof -
  have "CR \<notin> set (show_nat (length b))" "LF \<notin> set (show_nat (length b))"
    by (simp_all add: show_nat_no is_digit_def)
  then show ?thesis by (simp add: head_line_def post_head_def)
qed

lemma delete_head_lines:
  assumes "is_valid_session_id sid"
  shows "\<forall>l\<in>set (delete_head sid). head_line l"
proof -
  have "\<not> session_char CR" "\<not> session_char LF" by (simp_all add: session_char_def is_digit_def)
  then have "CR \<notin> set sid" "LF \<notin> set sid" using valid_id_chars[OF assms] by auto
  then show ?thesis by (simp add: head_line_def delete_head_def)
qed

lemma head_ends:
  assumes "ls \<noteq> []" and "\<forall>l\<in>set ls. head_line l"
  shows "find_header_end (join crlf ls @ header_terminator @ t) = Some (length (join crlf ls) + 4)"
  using terminator_after_head[OF assms] by (simp add: find_header_end_find_sub)

section \<open>Properties\<close>

text \<open>
  C35. The client reads what the server answers: however the socket cuts the bytes of a
  well-formed HTTP/1.1 response into blocks, the status code and the body are recovered.
\<close>

theorem unix_response_roundtrip:
  assumes "io socket_path (unix_request meth path bdy) w = (Accepted st, w')"
    and "clean st" and "stream_bytes st = http_wire code reason headers answer"
    and "utf8_valid (stream_bytes st)" and "code < 2 ^ 16"
    and "CR \<notin> set reason" and "LF \<notin> set reason" and "\<forall>l\<in>set headers. head_line l"
  shows "http_over_unix io socket_path meth path bdy w = (Inr \<lparr>rr_status = code, rr_body = answer\<rparr>, w')"
  using assms by (simp add: http_over_unix_def read_to_end_clean parse_http_wire)

theorem unix_response_roundtrip_witness:
  "http_over_unix (\<lambda>p req w. (Accepted [Bytes (take 20 (http_wire 204 ''No Content'' [''date: x''] ''{}'')),
       Bytes (drop 20 (http_wire 204 ''No Content'' [''date: x''] ''{}''))], w)) ''s'' ''DELETE'' ''/sessions/s1'' None ()
   = (Inr \<lparr>rr_status = 204, rr_body = ''{}''\<rparr>, ())"
proof -
  let ?m = "http_wire 204 ''No Content'' [''date: x''] ''{}''"
  have m: "?m = ''HTTP/1.1 204 No Content'' @ crlf @ ''date: x'' @ header_terminator @ ''{}''"
    by (simp add: http_wire_def show_nat.simps digit_char_def char_of_eq_iff)
  have "\<forall>c\<in>set ?m. byte c < 128" unfolding m by (simp add: crlf_def header_terminator_def)
  then have u: "utf8_valid ?m" by (rule utf8_valid_ascii)
  have len: "length ?m = 38" unfolding m by (simp add: header_terminator_def)
  then have ne: "?m \<noteq> []" by auto
  show ?thesis
    by (rule unix_response_roundtrip[where code = 204 and reason = "''No Content''"
          and headers = "[''date: x'']" and answer = "''{}''"], rule refl)
      (simp_all add: u ne len head_line_def)
qed

text \<open>
  A request is one message: for a valid session id the head that the client sends ends
  where its body begins, its lines are the ones the source writes (no line can be smuggled in
  through the id), and \<open>Content-Length\<close> is the length of the body.
\<close>

theorem unix_request_framed:
  assumes "is_valid_session_id sid"
  shows "find_header_end (unix_request ''POST'' ''/sessions'' (Some b))
        = Some (length (unix_request ''POST'' ''/sessions'' (Some b)) - length b)
    \<and> str_lines (take (length (unix_request ''POST'' ''/sessions'' (Some b)) - length b)
          (unix_request ''POST'' ''/sessions'' (Some b)))
      = [''POST /sessions HTTP/1.1'', ''Host: localhost'', ''Content-Type: application/json'',
         ''Content-Length: '' @ show_nat (length b), ''Connection: close'', []]
    \<and> find_header_end (unix_request ''DELETE'' (''/sessions/'' @ sid) None)
        = Some (length (unix_request ''DELETE'' (''/sessions/'' @ sid) None))
    \<and> str_lines (unix_request ''DELETE'' (''/sessions/'' @ sid) None)
      = [''DELETE /sessions/'' @ sid @ '' HTTP/1.1'', ''Host: localhost'', ''Connection: close'', []]"
proof -
  note p = post_head_lines[of b] and d = delete_head_lines[OF assms]
  have lines: "str_lines (join crlf ls @ header_terminator) = ls @ [[]]"
    if "ls \<noteq> []" "\<forall>l\<in>set ls. head_line l" for ls
    using that
  proof (induction ls rule: induct_list012)
    case (2 l)
    have "str_lines crlf = [[]]" by (simp add: str_lines_def strip_cr_def crlf_def)
    with 2 first_line(1)[of l crlf] show ?case by (simp add: header_terminator_def crlf_def)
  next
    case (3 l l' ls)
    with first_line(1)[of l "join crlf (l' # ls) @ header_terminator"] show ?case by simp
  qed simp
  have len4: "length header_terminator = 4" by (simp add: header_terminator_def)
  show ?thesis
    unfolding unix_post unix_delete using head_ends[OF _ p, of b] head_ends[OF _ d, of "[]"] lines[OF _ p] lines[OF _ d]
    by (simp add: len4 post_head_def delete_head_def del: join.simps)
qed

theorem unix_request_framed_witness:
  "find_header_end (unix_request ''DELETE'' (''/sessions/'' @ ''sess_001'') None)
    = Some (length (unix_request ''DELETE'' (''/sessions/'' @ ''sess_001'') None))"
proof -
  have "is_valid_session_id ''sess_001''"
    by (simp add: is_valid_session_id_def session_char_def is_digit_def)
  from unix_request_framed[OF this] show ?thesis by blast
qed

end
