(* ===== verification/Vm_Lifecycle.thy ===== *)
theory Vm_Lifecycle
  imports Vm_Tasks Vm_Proxy_Client
begin

text \<open>
  The life of a VM (\<open>crates/vm-manager/src/vm.rs\<close>): the configuration that \<open>launch_vm\<close>
  hands to the hypervisor library, and the background task \<open>run_vm_lifecycle\<close>. The library
  (fctools) is a record of functions, and so is the rest of the host.
\<close>

section \<open>The hypervisor library\<close>

record drive =
  drive_id :: string
  is_root_device :: bool
  is_read_only :: "bool option"
  drive_block :: nat

record machine_configuration =
  vcpu_count :: u8
  mem_size_mib :: nat

record network_interface =
  iface_id :: string
  host_dev_name :: string

record jailer_arguments =
  jail_id :: string
  cgroups :: "(string \<times> string) list"
  parent_cgroup :: string

record vm_configuration =
  api_socket :: string
  jailer :: jailer_arguments
  kernel_image :: nat
  boot_args :: string
  drives :: "drive list"
  machine :: machine_configuration
  network_interfaces :: "network_interface list"

text \<open>Resources and VMs are named by numbers that the library gives out.\<close>

record 'w fctools =
  vmm_id_new :: "string \<Rightarrow> (string, string) result"
  create_resource :: "string \<Rightarrow> 'w \<Rightarrow> (nat, 'w) fres"
  vm_prepare :: "vm_configuration \<Rightarrow> 'w \<Rightarrow> (nat, 'w) fres"
  vm_start :: "nat \<Rightarrow> 'w \<Rightarrow> (unit, 'w) fres"
  vm_shutdown :: "nat \<Rightarrow> (string \<times> nat \<times> bool) list \<Rightarrow> 'w \<Rightarrow> (unit, 'w) fres"
  vm_cleanup :: "nat \<Rightarrow> 'w \<Rightarrow> (unit, 'w) fres"

record ('w, 'dt) vm_host =
  vh_exec :: "'w exec"
  vh_files :: "'w file_host"
  vh_unix :: "'w unix_io"
  vh_json :: proxy_json
  vh_fctools :: "'w fctools"
  vh_remove_file :: "string \<Rightarrow> 'w \<Rightarrow> 'w"
  vh_now :: "'w \<Rightarrow> u64"
  vh_time :: "'dt time_lib"
  vh_exists :: "string \<Rightarrow> 'w \<Rightarrow> bool"
  vh_canonicalize :: "string \<Rightarrow> 'w \<Rightarrow> (string, string) result"
  vh_parse_create :: "string \<Rightarrow> (string, create_environment_request) result"

section \<open>Launching\<close>

definition jail_id_of :: "string \<Rightarrow> string" where
  "jail_id_of sid = replace_char (CHR ''_'') ''-'' sid"

definition api_socket_path :: "string \<Rightarrow> string" where
  "api_socket_path sid = ''/run/ae-vm-'' @ sid @ ''.sock''"

text \<open>The product is computed in 32 bits.\<close>

definition cpu_max :: "u32 \<Rightarrow> string" where
  "cpu_max cpus = show_nat (unat (cpus * 100000)) @ '' '' @ show_nat 100000"

definition memory_max :: "u32 \<Rightarrow> string" where
  "memory_max mem = show_nat (unat ((ucast mem :: u64) * 1024 * 1024))"

definition jailer_of :: "string \<Rightarrow> u32 \<Rightarrow> u32 \<Rightarrow> jailer_arguments" where
  "jailer_of jid cpus mem =
     \<lparr>jail_id = jid,
      cgroups = [(''cpu.max'', cpu_max cpus), (''memory.max'', memory_max mem), (''pids.max'', ''64'')],
      parent_cgroup = ''ae-vm-manager''\<rparr>"

definition boot_args_of :: "string \<Rightarrow> string \<Rightarrow> string" where
  "boot_args_of ip host_ip =
     ''console=ttyS0 reboot=k panic=1 root=/dev/vda ro ip='' @ ip @ ''::'' @ host_ip
       @ '':255.255.255.0::eth0:off''"

definition root_drive :: "nat \<Rightarrow> drive" where
  "root_drive r = \<lparr>drive_id = ''rootfs'', is_root_device = True, is_read_only = Some True, drive_block = r\<rparr>"

definition files_drive :: "nat \<Rightarrow> drive" where
  "files_drive r = \<lparr>drive_id = ''files'', is_root_device = False, is_read_only = Some True, drive_block = r\<rparr>"

definition configuration_of ::
  "vm_task \<Rightarrow> string \<Rightarrow> nat \<Rightarrow> nat \<Rightarrow> nat option \<Rightarrow> vm_configuration" where
  "configuration_of t jid kern rootfs injected =
     \<lparr>api_socket = api_socket_path (t_session_id t),
      jailer = jailer_of jid (t_vcpus t) (t_memory_mib t),
      kernel_image = kern,
      boot_args = boot_args_of (t_vm_ip t) (t_host_tap_ip t),
      drives = root_drive rootfs # (case injected of Some r \<Rightarrow> [files_drive r] | None \<Rightarrow> []),
      machine = \<lparr>vcpu_count = ucast (t_vcpus t), mem_size_mib = unat (t_memory_mib t)\<rparr>,
      network_interfaces = [\<lparr>iface_id = ''eth0'', host_dev_name = t_tap_interface t\<rparr>]\<rparr>"

text \<open>\<open>context(msg)\<close> and \<open>map_err\<close>: the error is replaced.\<close>

definition err_context :: "(string \<Rightarrow> string) \<Rightarrow> ('a, 'h) fres \<Rightarrow> ('a, 'h) fres" where
  "err_context msg r = (case r of (Inl e, h) \<Rightarrow> (Inl (msg e), h) | (Inr a, h) \<Rightarrow> (Inr a, h))"

text \<open>The drive of the injected files, when there are any.\<close>

definition files_resource :: "('w, 'dt) vm_host \<Rightarrow> path option \<Rightarrow> 'w \<Rightarrow> (nat option, 'w) fres" where
  "files_resource host injection w =
     (case injection of
        None \<Rightarrow> (Inr None, w)
      | Some image_path \<Rightarrow>
          and_then (err_context (\<lambda>e. ''Failed to create file injection resource: '' @ e)
             (create_resource (vh_fctools host) (path_display image_path) w)) (\<lambda>r w. (Inr (Some r), w)))"

definition launch_vm :: "('w, 'dt) vm_host \<Rightarrow> vm_task \<Rightarrow> 'w \<Rightarrow> (nat, 'w) fres" where
  "launch_vm host t w =
     (let fc = vh_fctools host;
          w = vh_remove_file host (api_socket_path (t_session_id t)) w
      in case vmm_id_new fc (jail_id_of (t_session_id t)) of
           Inl e \<Rightarrow> (Inl ''invalid session_id for VmmId'', w)
         | Inr jid \<Rightarrow>
             and_then (err_context (\<lambda>_. ''Failed to create kernel resource'')
               (create_resource fc (t_kernel_path t) w)) (\<lambda>kern w.
             and_then (err_context (\<lambda>_. ''Failed to create rootfs resource'')
               (create_resource fc (t_rootfs_path t) w)) (\<lambda>rootfs w.
             and_then (prepare_files (vh_files host) (t_files t) (t_session_id t) w) (\<lambda>injection w.
             and_then (files_resource host injection w) (\<lambda>injected w.
             and_then (err_context (\<lambda>e. ''Failed to prepare VM: '' @ e)
               (vm_prepare fc (configuration_of t jid kern rootfs injected) w)) (\<lambda>vm w.
             and_then (err_context (\<lambda>e. ''Failed to start VM: '' @ e) (vm_start fc vm w)) (\<lambda>_ w.
               (Inr vm, w))))))))"

section \<open>The background task\<close>

definition set_env_status :: "string \<Rightarrow> environment_state \<Rightarrow> vm_state \<Rightarrow> vm_state" where
  "set_env_status sid s st =
     (case hm_get (environments st) sid of
        Some env \<Rightarrow> st\<lparr>environments := hm_insert sid (env\<lparr>env_status := s\<rparr>) (environments st)\<rparr>
      | None \<Rightarrow> st)"

definition remove_shutdown_tx :: "string \<Rightarrow> vm_state \<Rightarrow> vm_state" where
  "remove_shutdown_tx sid st = st\<lparr>shutdown_txs := hm_remove sid (shutdown_txs st)\<rparr>"

definition remove_serial_tx :: "string \<Rightarrow> vm_state \<Rightarrow> vm_state" where
  "remove_serial_tx sid st = st\<lparr>serial_txs := hm_remove sid (serial_txs st)\<rparr>"

text \<open>\<open>let _ = \<dots>.await\<close>: the result is dropped. The socket path of the proxy is read from
  the shared state, where it never changes.\<close>

definition drop_proxy_session :: "('w, 'dt) vm_host \<Rightarrow> string \<Rightarrow> ('w, 'a) prog \<Rightarrow> ('w, 'a) prog" where
  "drop_proxy_session host sid k =
     On_state (\<lambda>st. (awaited (delete_proxy_session (vh_unix host) (proxy_socket st) sid) (\<lambda>_. k), st))"

definition drop_dnat_rule :: "('w, 'dt) vm_host \<Rightarrow> string \<Rightarrow> ('w, 'a) prog \<Rightarrow> ('w, 'a) prog" where
  "drop_dnat_rule host tap k = awaited (remove_dnat_rule (vh_exec host) tap) (\<lambda>_. k)"

definition drop_tap :: "('w, 'dt) vm_host \<Rightarrow> string \<Rightarrow> ('w, 'a) prog \<Rightarrow> ('w, 'a) prog" where
  "drop_tap host tap k = awaited (cleanup_tap_interface (vh_exec host) tap) (\<lambda>_. k)"

definition remove_handles :: "string \<Rightarrow> ('w, 'a) prog \<Rightarrow> ('w, 'a) prog" where
  "remove_handles sid k = locked (remove_shutdown_tx sid) (locked (remove_serial_tx sid) k)"

text \<open>The launch failed.\<close>

definition abandon_vm :: "('w, 'dt) vm_host \<Rightarrow> vm_task \<Rightarrow> ('w, 'r option) prog" where
  "abandon_vm host t =
     locked (set_env_status (t_session_id t) Failed)
     (drop_proxy_session host (t_session_id t)
     (drop_dnat_rule host (t_tap_interface t)
     (drop_tap host (t_tap_interface t)
     (released (t_vm_ip t)
     (remove_handles (t_session_id t) (Done None))))))"

text \<open>\<open>CtrlAltDel\<close> for 5 seconds, then \<open>Kill\<close> for 3.\<close>

definition shutdown_actions :: "(string \<times> nat \<times> bool) list" where
  "shutdown_actions = [(''CtrlAltDel'', 5, True), (''Kill'', 3, False)]"

definition stop_vm :: "('w, 'dt) vm_host \<Rightarrow> nat \<Rightarrow> 'w \<Rightarrow> unit \<times> 'w" where
  "stop_vm host vm w =
     (case vm_shutdown (vh_fctools host) vm shutdown_actions w of
        (_, w1) \<Rightarrow> ((), snd (vm_cleanup (vh_fctools host) vm w1)))"

definition finish_vm :: "('w, 'dt) vm_host \<Rightarrow> vm_task \<Rightarrow> ('w, 'r option) prog" where
  "finish_vm host t =
     drop_proxy_session host (t_session_id t)
     (drop_dnat_rule host (t_tap_interface t)
     (drop_tap host (t_tap_interface t)
     (released (t_vm_ip t)
     (locked (set_env_status (t_session_id t) Exited)
     (remove_handles (t_session_id t) (Done None))))))"

text \<open>The VM runs until the shutdown channel is ready.\<close>

definition waiting_vm :: "('w, 'dt) vm_host \<Rightarrow> nat \<Rightarrow> vm_task \<Rightarrow> ('w, 'r option) prog" where
  "waiting_vm host vm t =
     Wait (sender_gone (t_chan t)) (awaited (stop_vm host vm) (\<lambda>_. finish_vm host t))"

definition run_vm_lifecycle :: "('w, 'dt) vm_host \<Rightarrow> vm_task \<Rightarrow> ('w, 'r option) prog" where
  "run_vm_lifecycle host t =
     awaited (launch_vm host t) (\<lambda>vm_result.
       case vm_result of
         Inl e \<Rightarrow> abandon_vm host t
       | Inr vm \<Rightarrow> waiting_vm host vm t)"

section \<open>Serial output\<close>

text \<open>The reader of the VM's output and the bounded channel of 64 messages. \<open>present\<close> tells at
  each message whether the sender is still in \<open>serial_txs\<close>.\<close>

definition try_send :: "string \<Rightarrow> string list \<Rightarrow> string list" where
  "try_send m q = (if length q < 64 then q @ [m] else q)"

function serial_reader :: "(nat \<Rightarrow> bool) \<Rightarrow> nat \<Rightarrow> stream \<Rightarrow> string list \<Rightarrow> string list" where
  "serial_reader present i st q =
     (case stream_read 4096 st of
        (Inl e, st') \<Rightarrow> q
      | (Inr b, st') \<Rightarrow>
          if b = [] then q
          else serial_reader present (Suc i) st' (if present i then try_send (from_utf8_lossy b) q else q))"
  by pat_completeness auto
termination
  by (relation "measure (\<lambda>(p, i, st, q). stream_size st)") (auto dest: sym stream_read_size)

declare serial_reader.simps [simp del]

section \<open>What the task leaves behind\<close>

definition cleaned_world :: "('w, 'dt) vm_host \<Rightarrow> string \<Rightarrow> vm_task \<Rightarrow> 'w \<Rightarrow> 'w" where
  "cleaned_world host socket t w =
     snd (cleanup_tap_interface (vh_exec host) (t_tap_interface t)
       (snd (remove_dnat_rule (vh_exec host) (t_tap_interface t)
         (snd (delete_proxy_session (vh_unix host) socket (t_session_id t) w)))))"

definition ended_state :: "vm_task \<Rightarrow> environment_state \<Rightarrow> vm_state \<Rightarrow> vm_state" where
  "ended_state t s st =
     set_env_status (t_session_id t) s (st\<lparr>allocated_ips := release_ip (t_vm_ip t) (allocated_ips st),
       shutdown_txs := hm_remove (t_session_id t) (shutdown_txs st),
       serial_txs := hm_remove (t_session_id t) (serial_txs st)\<rparr>)"

lemma set_env_status_simps [simp]:
  "allocated_ips (set_env_status sid s st) = allocated_ips st"
  "shutdown_txs (set_env_status sid s st) = shutdown_txs st"
  "serial_txs (set_env_status sid s st) = serial_txs st"
  "proxy_socket (set_env_status sid s st) = proxy_socket st"
  by (simp_all add: set_env_status_def split: option.splits)

lemma set_env_status_get:
  "hm_get (environments (set_env_status sid s st)) i =
     (if i = sid then map_option (\<lambda>env. env\<lparr>env_status := s\<rparr>) (hm_get (environments st) sid)
      else hm_get (environments st) i)"
  by (auto simp: set_env_status_def hm_simps split: option.splits)

lemma run_drops [simp]:
  "run_prog (drop_proxy_session host sid k) st w =
     run_prog k st (snd (delete_proxy_session (vh_unix host) (proxy_socket st) sid w))"
  "run_prog (drop_dnat_rule host tap k) st w = run_prog k st (snd (remove_dnat_rule (vh_exec host) tap w))"
  "run_prog (drop_tap host tap k) st w = run_prog k st (snd (cleanup_tap_interface (vh_exec host) tap w))"
  "run_prog (remove_handles sid k) st w = run_prog k (remove_serial_tx sid (remove_shutdown_tx sid st)) w"
  by (simp_all add: drop_proxy_session_def drop_dnat_rule_def drop_tap_def remove_handles_def case_prod_unfold)

lemma run_finish:
  "run_prog (finish_vm host t) st w =
     (Done None, ended_state t Exited st, cleaned_world host (proxy_socket st) t w, [])"
  by (simp add: finish_vm_def cleaned_world_def ended_state_def set_env_status_def remove_serial_tx_def
      remove_shutdown_tx_def split: option.splits)

lemma run_abandon:
  "run_prog (abandon_vm host t) st w =
     (Done None, ended_state t Failed st, cleaned_world host (proxy_socket st) t w, [])"
  by (simp add: abandon_vm_def cleaned_world_def ended_state_def set_env_status_def remove_serial_tx_def
      remove_shutdown_tx_def split: option.splits)

lemma ended_state_simps [simp]:
  "allocated_ips (ended_state t s st) = release_ip (t_vm_ip t) (allocated_ips st)"
  "shutdown_txs (ended_state t s st) = hm_remove (t_session_id t) (shutdown_txs st)"
  "serial_txs (ended_state t s st) = hm_remove (t_session_id t) (serial_txs st)"
  "proxy_socket (ended_state t s st) = proxy_socket st"
  by (simp_all add: ended_state_def)

lemma ended_state_get:
  "hm_get (environments (ended_state t s st)) i =
     (if i = t_session_id t
      then map_option (\<lambda>env. env\<lparr>env_status := s\<rparr>) (hm_get (environments st) (t_session_id t))
      else hm_get (environments st) i)"
  by (simp add: ended_state_def set_env_status_get)

lemma run_lifecycle:
  "run_prog (run_vm_lifecycle host t) st w =
     (case launch_vm host t w of
        (Inl e, w1) \<Rightarrow> (Done None, ended_state t Failed st, cleaned_world host (proxy_socket st) t w1, [])
      | (Inr vm, w1) \<Rightarrow> run_prog (waiting_vm host vm t) st w1)"
  by (auto simp: run_vm_lifecycle_def run_abandon split: prod.splits sum.splits)

lemma show_100000: "show_nat 100000 = ''100000''"
  by (simp add: show_nat.simps digit_char_def char_of_eq_iff)

section \<open>Jail ids\<close>

lemma jail_id_of_map: "jail_id_of s = map (\<lambda>c. if c = CHR ''_'' then CHR ''-'' else c) s"
proof -
  have "concat (map (\<lambda>x. if x = CHR ''_'' then ''-'' else [x]) s)
      = map (\<lambda>c. if c = CHR ''_'' then CHR ''-'' else c) s"
    by (induction s) auto
  then show ?thesis by (simp add: jail_id_of_def replace_char_def)
qed

lemma jail_id_inj:
  assumes "is_valid_session_id a" and "is_valid_session_id b" and "jail_id_of a = jail_id_of b"
  shows "a = b"
proof -
  let ?f = "\<lambda>c. if c = CHR ''_'' then CHR ''-'' else c"
  have no: "CHR ''-'' \<notin> set a" "CHR ''-'' \<notin> set b"
    using valid_id_chars[OF assms(1), of "CHR ''-''"] valid_id_chars[OF assms(2), of "CHR ''-''"]
    by (auto simp: session_char_def is_digit_def)
  then have "inj_on ?f (set a \<union> set b)" by (auto intro!: inj_onI split: if_splits)
  moreover have "map ?f a = map ?f b" using assms(3) by (simp add: jail_id_of_map)
  ultimately show ?thesis by (rule map_inj_on[rotated])
qed

definition jail_char :: "char \<Rightarrow> bool" where
  "jail_char c = (is_digit c \<or> (97 \<le> byte c \<and> byte c \<le> 122) \<or> (65 \<le> byte c \<and> byte c \<le> 90) \<or> c = CHR ''-'')"

text \<open>The documented check of \<open>VmmId::new\<close>.\<close>

definition vmm_id_checks :: "'w fctools \<Rightarrow> bool" where
  "vmm_id_checks fc \<longleftrightarrow> (\<forall>s. vmm_id_new fc s =
     (if 5 \<le> length s \<and> length s \<le> 60 \<and> list_all jail_char s then Inr s else Inl ''invalid id''))"

lemma jail_id_chars: "is_valid_session_id s \<Longrightarrow> list_all jail_char (jail_id_of s)"
  using valid_id_chars[of s]
  by (auto simp: jail_id_of_map list_all_iff jail_char_def session_char_def)

section \<open>A host to evaluate on\<close>

definition demo_fctools :: "unit fctools" where
  "demo_fctools = \<lparr>vmm_id_new = \<lambda>s. if 5 \<le> length s \<and> length s \<le> 60 \<and> list_all jail_char s then Inr s
       else Inl ''invalid id'', create_resource = \<lambda>p w. (Inr 0, w), vm_prepare = \<lambda>c w. (Inr 0, w),
     vm_start = \<lambda>v w. (Inr (), w), vm_shutdown = \<lambda>v a w. (Inr (), w), vm_cleanup = \<lambda>v w. (Inr (), w)\<rparr>"

definition demo_vm_host :: "(unit, int) vm_host" where
  "demo_vm_host = \<lparr>vh_exec = \<lambda>cmd w. (Finished True [] [], w),
     vh_files = \<lparr>fh_exec = \<lambda>cmd h. (Finished True [] [], h), fh_tempdir = \<lambda>h. (Inr [RootDir], h),
       fh_temp_root = [RootDir], fh_mkdirs = \<lambda>p h. (Inr (), h), fh_rmdirs = \<lambda>p h. (Inr (), h),
       fh_write = \<lambda>p c h. (Inr (), h), fh_canonicalize = \<lambda>p h. Inr p, fh_node = \<lambda>p h. Inr (Folder []),
       fh_create_sized = \<lambda>p z h. (Inr (), h)\<rparr>,
     vh_unix = \<lambda>p r w. (Accepted [Bytes (http_wire 201 ''Created'' [] ''{}'')], w),
     vh_json = \<lparr>print_request = \<lambda>r. Inr ''{}'', parse_response = \<lambda>s. Some \<lparr>ps_dummy_keys = None\<rparr>\<rparr>,
     vh_fctools = demo_fctools, vh_remove_file = \<lambda>p w. w, vh_now = \<lambda>w. 1000, vh_time = demo_time,
     vh_exists = \<lambda>p w. True, vh_canonicalize = \<lambda>p w. Inr p,
     vh_parse_create = \<lambda>b. Inr (request_defaults b ''img'' None None None \<lparr>ec_allowlist = []\<rparr> None)\<rparr>"

definition demo_task :: "string \<Rightarrow> vm_task" where
  "demo_task sid = \<lparr>t_chan = 0, t_session_id = sid, t_kernel_path = KERNEL_PATH, t_rootfs_path = ''img'',
     t_vm_ip = pool_ip 2, t_host_tap_ip = pool_ip 1, t_tap_interface = ''tap-'' @ sid, t_vcpus = 1,
     t_memory_mib = 512, t_files = []\<rparr>"

section \<open>Properties\<close>

text \<open>
  C37. The resources of a VM: up to 255 processors the quota is 100 ms per processor and period
  and the machine gets as many processors as were asked for; the memory limit in bytes never
  overflows. Beyond, the machine's count is cut to 8 bits and from 42950 processors on the quota
  wraps in 32 bits.
\<close>

theorem vm_resources:
  assumes "unat (t_vcpus t) < 256"
  shows "cpu_max (t_vcpus t) = show_nat (unat (t_vcpus t) * 100000) @ '' 100000''
   \<and> unat (vcpu_count (machine (configuration_of t jid kern rootfs injected))) = unat (t_vcpus t)
   \<and> memory_max (t_memory_mib t) = show_nat (unat (t_memory_mib t) * 1048576)
   \<and> unat (vcpu_count (machine (configuration_of (t\<lparr>t_vcpus := 256\<rparr>) jid kern rootfs injected))) = 0
   \<and> cpu_max 42950 = show_nat 32704 @ '' 100000''"
proof (intro conjI)
  show "cpu_max (t_vcpus t) = show_nat (unat (t_vcpus t) * 100000) @ '' 100000''"
    using assms by (simp add: cpu_max_def unat_word_ariths show_100000)
  show "unat (vcpu_count (machine (configuration_of t jid kern rootfs injected))) = unat (t_vcpus t)"
    using assms by (simp add: configuration_of_def unsigned_ucast_eq take_bit_eq_mod)
  have "unat (t_memory_mib t) < 4294967296"
    using unsigned_less[of "t_memory_mib t", where 'a = nat] by simp
  then show "memory_max (t_memory_mib t) = show_nat (unat (t_memory_mib t) * 1048576)"
    by (simp add: memory_max_def unat_word_ariths unsigned_ucast_eq take_bit_eq_mod mult.commute)
  show "cpu_max 42950 = show_nat 32704 @ '' 100000''"
    by (simp add: cpu_max_def show_100000)
qed (simp add: configuration_of_def)

theorem vm_resources_witness:
  "cpu_max 2 = show_nat 200000 @ '' 100000''"
  using vm_resources[of "(demo_task ''s'')\<lparr>t_vcpus := 2\<rparr>"] by simp

text \<open>
  C38. Session ids as jail ids: an id that the API accepts is a jail id the hypervisor library
  accepts when it has at most 60 characters, different sessions get different jails, and with 61
  to 64 characters every launch fails before anything is created.
\<close>

theorem jail_id_of_session:
  assumes "vmm_id_checks (vh_fctools host)" and "is_valid_session_id (t_session_id t)"
  shows "(length (t_session_id t) \<le> 60 \<longrightarrow>
      vmm_id_new (vh_fctools host) (jail_id_of (t_session_id t)) = Inr (jail_id_of (t_session_id t)))
    \<and> (60 < length (t_session_id t) \<longrightarrow> launch_vm host t w =
        (Inl ''invalid session_id for VmmId'', vh_remove_file host (api_socket_path (t_session_id t)) w))
    \<and> (\<forall>other. is_valid_session_id other \<and> jail_id_of other = jail_id_of (t_session_id t)
        \<longrightarrow> other = t_session_id t)"
proof -
  have "length (jail_id_of (t_session_id t)) = length (t_session_id t)" by (simp add: jail_id_of_map)
  then have "vmm_id_new (vh_fctools host) (jail_id_of (t_session_id t)) =
      (if length (t_session_id t) \<le> 60 then Inr (jail_id_of (t_session_id t)) else Inl ''invalid id'')"
    using assms(1) jail_id_chars[OF assms(2)] valid_id_length[OF assms(2)] by (auto simp: vmm_id_checks_def)
  then show ?thesis
    using jail_id_inj[OF _ assms(2)] by (simp add: launch_vm_def Let_def)
qed

theorem jail_id_of_session_witness:
  "fst (launch_vm demo_vm_host (demo_task (replicate 64 (CHR ''a''))) ()) = Inl ''invalid session_id for VmmId''"
proof -
  have "vmm_id_checks (vh_fctools demo_vm_host)"
    by (simp add: vmm_id_checks_def demo_vm_host_def demo_fctools_def)
  moreover have "is_valid_session_id (t_session_id (demo_task (replicate 64 (CHR ''a''))))"
    by (simp add: demo_task_def is_valid_session_id_def session_char_def list_all_iff)
  ultimately show ?thesis
    using jail_id_of_session[of demo_vm_host "demo_task (replicate 64 (CHR ''a''))" "()"]
    by (simp add: demo_task_def)
qed

end
