(* ===== verification/Vm_Api.thy ===== *)
theory Vm_Api
  imports Vm_Lifecycle Proxy_Api
begin

text \<open>
  The REST API of the VM manager (\<open>crates/vm-manager/src/api.rs\<close>). Each handler is a task
  (\<open>prog\<close>); its pieces follow the source from one lock or await to the next. \<open>c\<close> names the
  oneshot channel that a create handler opens. Reading and parsing the request body, the
  clock and the image path checks are functions of the host; log lines are left out.
\<close>

section \<open>Creating an environment\<close>

type_synonym 'w handler = "('w, vm_response option) prog"

definition reply :: "vm_response \<Rightarrow> 'w handler" where
  "reply r = Done (Some r)"

definition tap_interface_of :: "string \<Rightarrow> string" where
  "tap_interface_of sid = ''tap-'' @ take 12 sid"

definition ip_parts :: "string \<Rightarrow> u8 list" where
  "ip_parts ip = map of_nat (List.map_filter (parse_uint (2 ^ 8)) (split_char (CHR ''.'') ip))"

definition host_tap_ip_of :: "u8 list \<Rightarrow> string" where
  "host_tap_ip_of ps = dotted (unat (ps ! 0)) (unat (ps ! 1)) (unat (ps ! 2)) (unat (ps ! 3 - 1))"

text \<open>\<open>checked_add(0)\<close> never fails.\<close>

definition expiry_of :: "u64 \<Rightarrow> u32 \<Rightarrow> u64 option" where
  "expiry_of now timeout = Some (now + ucast timeout)"

definition proxy_entry_of :: "egress_entry \<Rightarrow> proxy_allowlist_entry" where
  "proxy_entry_of e = \<lparr>pa_domain = egress_domain e,
     pa_mode = (if inject_key e then ''mitm'' else ''tunnel''),
     pa_credential_ref = egress_credential_ref e\<rparr>"

definition expiry_text :: "('w, 'dt) vm_host \<Rightarrow> u64 option \<Rightarrow> string option" where
  "expiry_text host e = Option.bind e (env_format_iso8601 (vh_time host))"

definition start_text :: "('w, 'dt) vm_host \<Rightarrow> u64 \<Rightarrow> string" where
  "start_text host ts = (case env_format_iso8601 (vh_time host) ts of Some s \<Rightarrow> s | None \<Rightarrow> [])"

definition task_of :: "nat \<Rightarrow> create_environment_request \<Rightarrow> string \<Rightarrow> string \<Rightarrow> string \<Rightarrow> vm_task" where
  "task_of c req rootfs ip host_ip =
     \<lparr>t_chan = c, t_session_id = ce_session_id req, t_kernel_path = KERNEL_PATH, t_rootfs_path = rootfs,
      t_vm_ip = ip, t_host_tap_ip = host_ip, t_tap_interface = tap_interface_of (ce_session_id req),
      t_vcpus = vcpus req, t_memory_mib = memory_mib req, t_files = files req\<rparr>"

definition environment_of ::
  "create_environment_request \<Rightarrow> string \<Rightarrow> u64 \<Rightarrow> (string, string) hashmap \<Rightarrow> environment" where
  "environment_of req ip now keys =
     \<lparr>env_session_id = ce_session_id req, env_status = Running, env_vm_ip = ip,
      env_tap_interface = tap_interface_of (ce_session_id req), env_started_at = now,
      env_expires_at = expiry_of now (timeout_secs req), env_dummy_keys = keys\<rparr>"

definition created_body ::
  "('w, 'dt) vm_host \<Rightarrow> create_environment_request \<Rightarrow> string \<Rightarrow> string \<Rightarrow> u64
     \<Rightarrow> (string, string) hashmap \<Rightarrow> environment_response" where
  "created_body host req ip host_ip now keys =
     \<lparr>er_session_id = ce_session_id req, er_status = state_as_str Running, er_vm_ip = ip,
      er_tap_interface = tap_interface_of (ce_session_id req),
      er_proxy_session = \<lparr>ps_id = ce_session_id req,
        ps_proxy_url = ''http://'' @ host_ip @ '':'' @ show_nat PROXY_PORT\<rparr>,
      er_dummy_keys = keys,
      er_serial_output_url = ''/v1/environments/'' @ ce_session_id req @ ''/serial'',
      er_started_at = start_text host now,
      er_expires_at = expiry_text host (expiry_of now (timeout_secs req))\<rparr>"

text \<open>Channels, background task, record and answer.\<close>

definition create_launched ::
  "('w, 'dt) vm_host \<Rightarrow> nat \<Rightarrow> create_environment_request \<Rightarrow> string \<Rightarrow> string \<Rightarrow> string \<Rightarrow> u64
     \<Rightarrow> (string, string) hashmap \<Rightarrow> 'w handler" where
  "create_launched host c req rootfs ip host_ip now keys =
     locked (\<lambda>st. st\<lparr>serial_txs := hm_insert (ce_session_id req) c (serial_txs st)\<rparr>)
     (locked (\<lambda>st. st\<lparr>shutdown_txs := hm_insert (ce_session_id req) c (shutdown_txs st)\<rparr>)
     (Spawn (task_of c req rootfs ip host_ip)
     (locked (\<lambda>st. st\<lparr>environments :=
          hm_insert (ce_session_id req) (environment_of req ip now keys) (environments st)\<rparr>)
     (reply (json_ok 201 (EnvironmentBody (created_body host req ip host_ip now keys)))))))"

definition create_network ::
  "('w, 'dt) vm_host \<Rightarrow> nat \<Rightarrow> create_environment_request \<Rightarrow> string \<Rightarrow> string \<Rightarrow> string \<Rightarrow> u64
     \<Rightarrow> (string, string) hashmap \<Rightarrow> 'w handler" where
  "create_network host c req rootfs ip host_ip now keys =
     (let sid = ce_session_id req; tap = tap_interface_of sid in
      awaited (setup_tap_interface (vh_exec host) tap host_ip) (\<lambda>r.
        case r of
          Inl e \<Rightarrow>
            released ip (drop_proxy_session host sid
              (reply (json_error_with_detail 500 VmLaunchFailed ''failed to set up TAP interface'' e)))
        | Inr _ \<Rightarrow>
            awaited (add_dnat_rule (vh_exec host) tap host_ip) (\<lambda>r.
              case r of
                Inl e \<Rightarrow>
                  released ip (drop_tap host tap (drop_proxy_session host sid
                    (reply (json_error_with_detail 500 VmLaunchFailed
                       ''failed to set up nftables DNAT rule'' e))))
              | Inr _ \<Rightarrow> create_launched host c req rootfs ip host_ip now keys)))"

definition create_registered ::
  "('w, 'dt) vm_host \<Rightarrow> nat \<Rightarrow> create_environment_request \<Rightarrow> string \<Rightarrow> string \<Rightarrow> string \<Rightarrow> u64
     \<Rightarrow> (string, raw_http_response) result \<Rightarrow> 'w handler" where
  "create_registered host c req rootfs ip host_ip now proxy_result =
     (case proxy_result of
        Inl e \<Rightarrow>
          released ip (reply (json_error_with_detail 502 ProxyUnavailable
            ''failed to register proxy session'' e))
      | Inr proxy_resp \<Rightarrow>
          if rr_status proxy_resp = 422 then
            released ip (reply (json_error_with_detail 422 CredentialRefInvalid
              ''credential reference could not be resolved'' (rr_body proxy_resp)))
          else if rr_status proxy_resp = 409 then
            released ip (reply (json_error 409 SessionExists ''proxy session already exists''))
          else if rr_status proxy_resp \<noteq> 201 then
            released ip (reply (json_error_with_detail 502 ProxyUnavailable
              (''proxy returned status '' @ show_nat (rr_status proxy_resp)) (rr_body proxy_resp)))
          else
            create_network host c req rootfs ip host_ip now
              (parse_dummy_keys (vh_json host) (rr_body proxy_resp)))"

definition create_with_ip ::
  "('w, 'dt) vm_host \<Rightarrow> nat \<Rightarrow> create_environment_request \<Rightarrow> string \<Rightarrow> string \<Rightarrow> 'w handler" where
  "create_with_ip host c req rootfs ip =
     (let parts = ip_parts ip in
      if length parts \<noteq> 4 then reply (json_error 500 InternalError ''invalid allocated IP'')
      else
        (let host_ip = host_tap_ip_of parts in
         awaited (\<lambda>w. (vh_now host w, w)) (\<lambda>now.
         On_state (\<lambda>st.
           (awaited (register_proxy_session (vh_json host) (vh_unix host) (proxy_socket st)
              (ce_session_id req) ip (map proxy_entry_of (ec_allowlist (egress req)))
              (expiry_text host (expiry_of now (timeout_secs req))))
              (create_registered host c req rootfs ip host_ip now), st)))))"

definition create_with_image ::
  "('w, 'dt) vm_host \<Rightarrow> nat \<Rightarrow> create_environment_request \<Rightarrow> string \<Rightarrow> 'w handler" where
  "create_with_image host c req rootfs =
     On_state (\<lambda>st.
       case allocate_ip (allocated_ips st) of
         (Inr ip, ips) \<Rightarrow> (create_with_ip host c req rootfs ip, st\<lparr>allocated_ips := ips\<rparr>)
       | (Inl e, ips) \<Rightarrow>
           (reply (json_error 500 InternalError (''failed to allocate IP: '' @ e)),
            st\<lparr>allocated_ips := ips\<rparr>))"

definition create_new ::
  "('w, 'dt) vm_host \<Rightarrow> nat \<Rightarrow> create_environment_request \<Rightarrow> 'w handler" where
  "create_new host c req =
     awaited (\<lambda>w. (vh_exists host (image req) w, w)) (\<lambda>present.
       if \<not> present then
         reply (json_error 404 ImageNotFound (''image not found: '' @ image req))
       else
         awaited (\<lambda>w. (vh_canonicalize host (image req) w, w)) (\<lambda>r.
           case r of
             Inl e \<Rightarrow> reply (json_error 500 InternalError (''failed to canonicalize image path: '' @ e))
           | Inr rootfs \<Rightarrow> create_with_image host c req rootfs))"

definition handle_create_environment ::
  "('w, 'dt) vm_host \<Rightarrow> nat \<Rightarrow> (string, string) result \<Rightarrow> 'w handler" where
  "handle_create_environment host c body_read =
     (case body_read of
        Inl e \<Rightarrow> reply (json_error 400 InvalidRequest ''failed to read request body'')
      | Inr body_bytes \<Rightarrow>
          (case vh_parse_create host body_bytes of
             Inl e \<Rightarrow> reply (json_error 400 InvalidRequest (''malformed JSON: '' @ e))
           | Inr req \<Rightarrow>
               if \<not> is_valid_session_id (ce_session_id req) then
                 reply (json_error 400 InvalidRequest ''session_id must match ^[a-z0-9_]{8,64}$'')
               else
                 On_state (\<lambda>st.
                   (if hm_contains_key (environments st) (ce_session_id req) then
                      reply (json_error 409 SessionExists
                        (''session already exists: '' @ ce_session_id req))
                    else create_new host c req, st))))"

section \<open>The other handlers\<close>

definition not_found :: "string \<Rightarrow> vm_response" where
  "not_found sid = json_error 404 InvalidRequest (''environment not found: '' @ sid)"

definition status_body :: "('w, 'dt) vm_host \<Rightarrow> u64 \<Rightarrow> environment \<Rightarrow> environment_status_response" where
  "status_body host now env =
     \<lparr>es_session_id = env_session_id env, es_status = state_as_str (env_status env),
      es_vm_ip = env_vm_ip env, es_tap_interface = env_tap_interface env,
      es_proxy_session_id = env_session_id env, es_started_at = start_text host (env_started_at env),
      es_expires_at = expiry_text host (env_expires_at env),
      es_uptime_secs = saturating_sub now (env_started_at env)\<rparr>"

definition handle_get_environment :: "('w, 'dt) vm_host \<Rightarrow> string \<Rightarrow> 'w handler" where
  "handle_get_environment host sid =
     On_state (\<lambda>st.
       (case hm_get (environments st) sid of
          None \<Rightarrow> reply (not_found sid)
        | Some env \<Rightarrow>
            awaited (\<lambda>w. (vh_now host w, w)) (\<lambda>now. reply (json_ok 200 (StatusBody (status_body host now env)))),
        st))"

text \<open>The sender is taken out of the map and its message is sent in one step.\<close>

definition handle_delete_environment :: "string \<Rightarrow> 'w handler" where
  "handle_delete_environment sid =
     On_state (\<lambda>st.
       (case hm_get (environments st) sid of
          None \<Rightarrow> (reply (not_found sid), st)
        | Some env \<Rightarrow>
            (locked (remove_shutdown_tx sid)
              (reply (json_ok 202 (DeleteBody
                 \<lparr>dr_session_id = sid, dr_status = state_as_str ShuttingDown\<rparr>))),
             set_env_status sid ShuttingDown st)))"

definition summary_of :: "('w, 'dt) vm_host \<Rightarrow> u64 \<Rightarrow> environment \<Rightarrow> environment_summary" where
  "summary_of host now env =
     \<lparr>el_session_id = env_session_id env, el_status = state_as_str (env_status env),
      el_vm_ip = env_vm_ip env, el_started_at = start_text host (env_started_at env),
      el_uptime_secs = saturating_sub now (env_started_at env)\<rparr>"

definition handle_list_environments :: "('w, 'dt) vm_host \<Rightarrow> 'w handler" where
  "handle_list_environments host =
     On_state (\<lambda>st.
       (awaited (\<lambda>w. (vh_now host w, w)) (\<lambda>now.
          reply (json_ok 200 (EnvironmentsBody
            \<lparr>el_environments = map (summary_of host now) (hm_values (environments st))\<rparr>))), st))"

definition sse_headers :: "(string \<times> string) list" where
  "sse_headers = [(''content-type'', ''text/event-stream''), (''cache-control'', ''no-cache'')]"

definition sse_done :: string where
  "sse_done = ''data: [DONE]'' @ [LF, LF]"

definition handle_serial :: "string \<Rightarrow> 'w handler" where
  "handle_serial sid =
     On_state (\<lambda>st.
       (case hm_get (environments st) sid of
          None \<Rightarrow> reply (not_found sid)
        | Some env \<Rightarrow>
            reply \<lparr>vm_status = 200, vm_headers = sse_headers,
              vm_body = SseBody (if env_status env = Exited \<or> env_status env = Failed then sse_done
                else ''data: Serial output stream for '' @ sid @ [LF, LF] @ sse_done)\<rparr>, st))"

section \<open>The router\<close>

definition vm_unknown_route :: vm_response where
  "vm_unknown_route = json_error 404 InvalidRequest ''unknown route''"

definition handle_request ::
  "('w, 'dt) vm_host \<Rightarrow> nat \<Rightarrow> string \<Rightarrow> string \<Rightarrow> (string, string) result \<Rightarrow> 'w handler" where
  "handle_request host c meth path body_read =
     (if path = ''/v1/environments'' \<and> meth = ''POST'' then handle_create_environment host c body_read
      else if path = ''/v1/environments'' \<and> meth = ''GET'' then handle_list_environments host
      else
        (case (extract_session_id_and_suffix path ''/serial'', meth = ''GET'') of
           (Some sid, True) \<Rightarrow> handle_serial sid
         | _ \<Rightarrow>
        (case (extract_session_id path, meth = ''DELETE'') of
           (Some sid, True) \<Rightarrow> handle_delete_environment sid
         | _ \<Rightarrow>
        (case (extract_session_id path, meth = ''GET'') of
           (Some sid, True) \<Rightarrow> handle_get_environment host sid
         | _ \<Rightarrow> reply vm_unknown_route))))"

section \<open>The gateway of an address\<close>

lemma parse_digits: "n < 256 \<Longrightarrow> parse_uint (2 ^ 8) (show_nat n) = Some n"
  by (rule parse_show_nat) simp

lemma ip_parts_pool: "n < 256 \<Longrightarrow> ip_parts (pool_ip n) = [10, 0, 1, of_nat n]"
  by (simp add: ip_parts_def pool_ip_def IP_POOL_BASE_def dotted_parts List.map_filter_simps
      parse_digits[simplified])

lemma pool_gateway:
  assumes "i < 64"
  shows "length (ip_parts (pool_ip (2 + i * 4))) = 4"
    and "host_tap_ip_of (ip_parts (pool_ip (2 + i * 4))) = pool_ip (1 + i * 4)"
proof -
  have parts: "ip_parts (pool_ip (2 + i * 4)) = [10, 0, 1, of_nat (2 + i * 4)]"
    using assms by (intro ip_parts_pool) simp
  then show "length (ip_parts (pool_ip (2 + i * 4))) = 4" by simp
  have "of_nat (2 + i * 4) - 1 = (of_nat (1 + i * 4) :: u8)" by simp
  moreover have "unat (of_nat (1 + i * 4) :: u8) = 1 + i * 4"
    using assms by (simp only: unat_of_nat) simp
  ultimately show "host_tap_ip_of (ip_parts (pool_ip (2 + i * 4))) = pool_ip (1 + i * 4)"
    unfolding parts by (simp add: host_tap_ip_of_def pool_ip_def IP_POOL_BASE_def)
qed

section \<open>Answers\<close>

text \<open>The statuses that belong to the bodies of the API. An error carries the status of its
  code, except that a missing environment or route is 404 with \<open>INVALID_REQUEST\<close>.\<close>

definition typed_error :: "vm_response \<Rightarrow> bool" where
  "typed_error r \<longleftrightarrow> vm_headers r = json_headers \<and>
     (\<exists>d ec. vm_body r = ErrorBody d \<and> err_code d = code_as_str ec
        \<and> (vm_status r = code_status ec \<or> (vm_status r = 404 \<and> ec = InvalidRequest)))"

fun body_status :: "vm_body \<Rightarrow> nat" where
  "body_status (ErrorBody d) = 0"
| "body_status (EnvironmentBody b) = 201"
| "body_status (StatusBody b) = 200"
| "body_status (EnvironmentsBody b) = 200"
| "body_status (DeleteBody b) = 202"
| "body_status (SseBody b) = 200"

definition typed_reply :: "vm_response \<Rightarrow> bool" where
  "typed_reply r \<longleftrightarrow> typed_error r \<or> vm_status r = body_status (vm_body r)"

lemma typed_json_error [simp]:
  "k = code_status ec \<or> (k = 404 \<and> ec = InvalidRequest) \<Longrightarrow> typed_error (json_error k ec m)"
  "k = code_status ec \<or> (k = 404 \<and> ec = InvalidRequest) \<Longrightarrow> typed_error (json_error_with_detail k ec m dt)"
  by (auto simp: typed_error_def json_error_def json_error_with_detail_def error_response_new_def
      error_response_with_def)

lemma typed_json_ok [simp]: "k = body_status bd \<Longrightarrow> typed_reply (json_ok k bd)"
  by (simp add: typed_reply_def json_ok_def)

lemma typed_error_status: "typed_error r \<Longrightarrow> 400 \<le> vm_status r"
proof -
  have "400 \<le> code_status ec" for ec by (cases ec) simp_all
  then show "typed_error r \<Longrightarrow> 400 \<le> vm_status r" by (auto simp: typed_error_def)
qed

section \<open>Outcomes of creation\<close>

definition launched_state ::
  "nat \<Rightarrow> create_environment_request \<Rightarrow> string \<Rightarrow> u64 \<Rightarrow> (string, string) hashmap \<Rightarrow> vm_state \<Rightarrow> vm_state" where
  "launched_state c req ip now keys st =
     st\<lparr>environments := hm_insert (ce_session_id req) (environment_of req ip now keys) (environments st),
        shutdown_txs := hm_insert (ce_session_id req) c (shutdown_txs st),
        serial_txs := hm_insert (ce_session_id req) c (serial_txs st)\<rparr>"

definition refused_state :: "string \<Rightarrow> vm_state \<Rightarrow> vm_state" where
  "refused_state ip st = st\<lparr>allocated_ips := release_ip ip (allocated_ips st)\<rparr>"

lemma run_launched:
  "run_prog (create_launched host c req rootfs ip host_ip now keys) st w =
     (Done (Some (json_ok 201 (EnvironmentBody (created_body host req ip host_ip now keys)))),
      launched_state c req ip now keys st, w, [task_of c req rootfs ip host_ip])"
  by (simp add: create_launched_def reply_def launched_state_def)

text \<open>How a registered creation ends: refused with the address given back, or launched.\<close>

inductive create_ends ::
  "('w, 'dt) vm_host \<Rightarrow> nat \<Rightarrow> create_environment_request \<Rightarrow> string \<Rightarrow> string \<Rightarrow> string \<Rightarrow> u64 \<Rightarrow> vm_state
     \<Rightarrow> 'w \<Rightarrow> ('w, vm_response option) prog \<times> vm_state \<times> 'w \<times> vm_task list \<Rightarrow> bool"
  for host c req rootfs ip host_ip now st w where
  refused: "typed_error r \<Longrightarrow>
    create_ends host c req rootfs ip host_ip now st w (Done (Some r), refused_state ip st, w', [])"
| launched: "register_proxy_session (vh_json host) (vh_unix host) (proxy_socket st) (ce_session_id req) ip
      (map proxy_entry_of (ec_allowlist (egress req))) (expiry_text host (expiry_of now (timeout_secs req))) w
      = (Inr pr, w1) \<Longrightarrow> rr_status pr = 201 \<Longrightarrow>
    setup_tap_interface (vh_exec host) (tap_interface_of (ce_session_id req)) host_ip w1 = (Inr (), w2) \<Longrightarrow>
    add_dnat_rule (vh_exec host) (tap_interface_of (ce_session_id req)) host_ip w2 = (Inr (), w3) \<Longrightarrow>
    keys = parse_dummy_keys (vh_json host) (rr_body pr) \<Longrightarrow>
    create_ends host c req rootfs ip host_ip now st w
      (Done (Some (json_ok 201 (EnvironmentBody (created_body host req ip host_ip now keys)))),
       launched_state c req ip now keys st, w3, [task_of c req rootfs ip host_ip])"

lemma refused_error:
  assumes "k = code_status ec"
  shows "create_ends host c req rootfs ip host_ip now st w
      (Done (Some (json_error k ec m)), refused_state ip st, w', [])"
    and "create_ends host c req rootfs ip host_ip now st w
      (Done (Some (json_error_with_detail k ec m dt)), refused_state ip st, w', [])"
  using assms by (simp_all add: create_ends.refused)

lemma run_created:
  assumes "register_proxy_session (vh_json host) (vh_unix host) (proxy_socket st) (ce_session_id req) ip
      (map proxy_entry_of (ec_allowlist (egress req))) (expiry_text host (expiry_of now (timeout_secs req))) w
      = (pr, w1)"
  shows "create_ends host c req rootfs ip host_ip now st w
     (run_prog (create_registered host c req rootfs ip host_ip now pr) st w1)"
proof (cases pr)
  case (Inl e)
  then show ?thesis
    by (simp add: create_registered_def reply_def refused_error flip: refused_state_def)
next
  case (Inr resp)
  show ?thesis
  proof (cases "rr_status resp = 201")
    case False
    then show ?thesis
      using Inr by (simp add: create_registered_def reply_def refused_error flip: refused_state_def)
  next
    case True
    let ?tap = "tap_interface_of (ce_session_id req)"
    obtain r2 w2 where r2: "setup_tap_interface (vh_exec host) ?tap host_ip w1 = (r2, w2)" by fastforce
    obtain r3 w3 where r3: "add_dnat_rule (vh_exec host) ?tap host_ip w2 = (r3, w3)" by fastforce
    show ?thesis
    proof (cases "isl r2 \<or> isl r3")
      case True
      then show ?thesis
        using Inr \<open>rr_status resp = 201\<close> r2 r3
        by (cases r2; cases r3)
          (simp_all add: create_registered_def create_network_def Let_def reply_def refused_error flip: refused_state_def)
    next
      case False
      then have "r2 = Inr ()" "r3 = Inr ()" by (cases r2; simp; cases r3; simp)+
      with Inr True r2 r3 assms show ?thesis
        by (simp add: create_registered_def create_network_def Let_def run_launched create_ends.launched)
    qed
  qed
qed

lemma refused_allocated:
  assumes "ip \<notin> set (allocated_ips st)"
  shows "refused_state ip (st\<lparr>allocated_ips := allocated_ips st @ [ip]\<rparr>) = st"
proof -
  have "filter (\<lambda>x. x \<noteq> ip) (allocated_ips st) = allocated_ips st"
    using assms by (intro filter_True) auto
  then show ?thesis by (simp add: refused_state_def release_ip_def)
qed

lemma registering_socket [simp]:
  "proxy_socket (st\<lparr>allocated_ips := ips\<rparr>) = proxy_socket st"
  by simp

definition refuse :: "vm_state \<Rightarrow> 'w \<Rightarrow> nat \<Rightarrow> error_code \<Rightarrow> string
    \<Rightarrow> ('w, vm_response option) prog \<times> vm_state \<times> 'w \<times> vm_task list" where
  "refuse st w k ec m = (Done (Some (json_error k ec m)), st, w, [])"

lemma run_refuse [simp]: "run_prog (reply (json_error k ec m)) st w = refuse st w k ec m"
  by (simp add: reply_def refuse_def)

lemma run_handle_create:
  "run_prog (handle_create_environment host c (Inr bytes)) st w =
    (case vh_parse_create host bytes of
       Inl e \<Rightarrow> refuse st w 400 InvalidRequest (''malformed JSON: '' @ e)
     | Inr req \<Rightarrow>
         if \<not> is_valid_session_id (ce_session_id req) then
           refuse st w 400 InvalidRequest ''session_id must match ^[a-z0-9_]{8,64}$''
         else if hm_get (environments st) (ce_session_id req) \<noteq> None then
           refuse st w 409 SessionExists (''session already exists: '' @ ce_session_id req)
         else if \<not> vh_exists host (image req) w then
           refuse st w 404 ImageNotFound (''image not found: '' @ image req)
         else (case vh_canonicalize host (image req) w of
             Inl e \<Rightarrow> refuse st w 500 InternalError (''failed to canonicalize image path: '' @ e)
           | Inr rootfs \<Rightarrow> run_prog (create_with_image host c req rootfs) st w))"
  by (simp add: handle_create_environment_def create_new_def hm_contains_key_def split: sum.split)

lemma create_accepted:
  obtains (early) r where "run_prog (handle_create_environment host c body_read) st w = (Done (Some r), st, w, [])" "typed_error r"
  | (run) bytes req rootfs where "body_read = Inr bytes" "vh_parse_create host bytes = Inr req"
      "is_valid_session_id (ce_session_id req)" "hm_get (environments st) (ce_session_id req) = None"
      "vh_exists host (image req) w" "vh_canonicalize host (image req) w = Inr rootfs"
      "run_prog (handle_create_environment host c body_read) st w
        = run_prog (create_with_image host c req rootfs) st w"
proof (cases body_read)
  case (Inl e)
  then show ?thesis
    by (intro early[of "json_error 400 InvalidRequest ''failed to read request body''"])
      (simp_all add: handle_create_environment_def refuse_def)
next
  case (Inr bytes)
  note eq = run_handle_create[of host c bytes st w]
  have stop: thesis if "run_prog (handle_create_environment host c (Inr bytes)) st w = refuse st w k ec m"
    "typed_error (json_error k ec m)" for k ec m
    using early[of "json_error k ec m"] that Inr by (simp add: refuse_def)
  show ?thesis
  proof (cases "vh_parse_create host bytes")
    case (Inl e)
    with stop eq show ?thesis by simp
  next
    case req: (Inr req)
    consider (id) "\<not> is_valid_session_id (ce_session_id req)"
      | (dup) "is_valid_session_id (ce_session_id req)" "hm_get (environments st) (ce_session_id req) \<noteq> None"
      | (img) "is_valid_session_id (ce_session_id req)" "hm_get (environments st) (ce_session_id req) = None"
          "\<not> vh_exists host (image req) w"
      | (path) e where "is_valid_session_id (ce_session_id req)" "hm_get (environments st) (ce_session_id req) = None"
          "vh_exists host (image req) w" "vh_canonicalize host (image req) w = Inl e"
      | (go) rootfs where "is_valid_session_id (ce_session_id req)"
          "hm_get (environments st) (ce_session_id req) = None"
          "vh_exists host (image req) w" "vh_canonicalize host (image req) w = Inr rootfs"
      by (cases "vh_canonicalize host (image req) w") blast+
    then show ?thesis
    proof cases
      case go
      with req Inr eq show ?thesis by (intro run[of bytes req rootfs]) simp_all
    qed (use stop eq req in simp_all)
  qed
qed

text \<open>A creation is an error that changes nothing, or launches a task.\<close>

lemma create_outcome:
  assumes "run_prog (handle_create_environment host c body_read) st w = (q, st', w', ts)"
  obtains (error) r where "q = Done (Some r)" "typed_error r" "st' = st" "ts = []"
  | (made) bytes req rootfs i pr w1 w2 keys where
      "body_read = Inr bytes" "vh_parse_create host bytes = Inr req"
      "is_valid_session_id (ce_session_id req)" "hm_get (environments st) (ce_session_id req) = None"
      "vh_exists host (image req) w" "vh_canonicalize host (image req) w = Inr rootfs"
      "i < 64" "pool_ip (2 + i * 4) \<notin> set (allocated_ips st)"
      "\<forall>j<i. pool_ip (2 + j * 4) \<in> set (allocated_ips st)"
      "register_proxy_session (vh_json host) (vh_unix host) (proxy_socket st) (ce_session_id req)
         (pool_ip (2 + i * 4)) (map proxy_entry_of (ec_allowlist (egress req)))
         (expiry_text host (expiry_of (vh_now host w) (timeout_secs req))) w = (Inr pr, w1)"
      "rr_status pr = 201" "keys = parse_dummy_keys (vh_json host) (rr_body pr)"
      "setup_tap_interface (vh_exec host) (tap_interface_of (ce_session_id req)) (pool_ip (1 + i * 4)) w1
         = (Inr (), w2)"
      "add_dnat_rule (vh_exec host) (tap_interface_of (ce_session_id req)) (pool_ip (1 + i * 4)) w2
         = (Inr (), w')"
      "q = Done (Some (json_ok 201 (EnvironmentBody
         (created_body host req (pool_ip (2 + i * 4)) (pool_ip (1 + i * 4)) (vh_now host w) keys))))"
      "st' = launched_state c req (pool_ip (2 + i * 4)) (vh_now host w) keys
         (st\<lparr>allocated_ips := allocated_ips st @ [pool_ip (2 + i * 4)]\<rparr>)"
      "ts = [task_of c req rootfs (pool_ip (2 + i * 4)) (pool_ip (1 + i * 4))]"
proof -
  show thesis
  proof (cases rule: create_accepted[of host c body_read st w])
    case (early r)
    with assms show ?thesis by (intro error[of r]) auto
  next
    case (run bytes req rootfs)
    show ?thesis
    proof (cases rule: allocate_ip_cases[of "allocated_ips st"])
      case full
      then show ?thesis
        using run(7) assms
        by (intro error[of "json_error 500 InternalError (''failed to allocate IP: '' @ pool_exhausted)"])
          (auto simp: create_with_image_def refuse_def)
    next
      case (ok i)
      let ?st = "st\<lparr>allocated_ips := allocated_ips st @ [pool_ip (2 + i * 4)]\<rparr>"
      obtain pr w1 where pr: "register_proxy_session (vh_json host) (vh_unix host) (proxy_socket ?st)
          (ce_session_id req) (pool_ip (2 + i * 4)) (map proxy_entry_of (ec_allowlist (egress req)))
          (expiry_text host (expiry_of (vh_now host w) (timeout_secs req))) w = (pr, w1)" by fastforce
      have "run_prog (create_with_image host c req rootfs) st w =
          run_prog (create_registered host c req rootfs (pool_ip (2 + i * 4)) (pool_ip (1 + i * 4))
            (vh_now host w) pr) ?st w1"
        using ok(4) pr pool_gateway[OF ok(1)]
        by (simp add: create_with_image_def create_with_ip_def Let_def)
      with run_created[OF pr, of c rootfs "pool_ip (1 + i * 4)"] run(7) assms
      have "create_ends host c req rootfs (pool_ip (2 + i * 4)) (pool_ip (1 + i * 4)) (vh_now host w) ?st w
          (q, st', w', ts)" by simp
      then show ?thesis
      proof (cases rule: create_ends.cases)
        case (refused r)
        with refused_allocated[OF ok(2)] show ?thesis by (intro error[of r]) auto
      next
        case (launched pr w1 w2 keys)
        with run(1-6) ok(1-3) show ?thesis by (intro made[of bytes req rootfs i pr w1 keys w2]) simp_all
      qed
    qed
  qed
qed

section \<open>The route table\<close>

text \<open>The routes by the segments of the path, as the API document lists them.\<close>

datatype route = R_create | R_list | R_serial string | R_delete string | R_get string | R_unknown

definition route_of :: "string \<Rightarrow> string \<Rightarrow> route" where
  "route_of meth path =
     (case split_char (CHR ''/'') path of
        [[], v, e] \<Rightarrow>
          if v = ''v1'' \<and> e = ''environments'' then
            (if meth = ''POST'' then R_create else if meth = ''GET'' then R_list else R_unknown)
          else R_unknown
      | [[], v, e, sid] \<Rightarrow>
          if v = ''v1'' \<and> e = ''environments'' \<and> sid \<noteq> [] then
            (if meth = ''DELETE'' then R_delete sid else if meth = ''GET'' then R_get sid else R_unknown)
          else R_unknown
      | [[], v, e, sid, s] \<Rightarrow>
          if v = ''v1'' \<and> e = ''environments'' \<and> sid \<noteq> [] \<and> s = ''serial'' \<and> meth = ''GET'' then R_serial sid
          else R_unknown
      | _ \<Rightarrow> R_unknown)"

fun dispatch :: "('w, 'dt) vm_host \<Rightarrow> nat \<Rightarrow> (string, string) result \<Rightarrow> route \<Rightarrow> 'w handler" where
  "dispatch host c b R_create = handle_create_environment host c b"
| "dispatch host c b R_list = handle_list_environments host"
| "dispatch host c b (R_serial sid) = handle_serial sid"
| "dispatch host c b (R_delete sid) = handle_delete_environment sid"
| "dispatch host c b (R_get sid) = handle_get_environment host sid"
| "dispatch host c b R_unknown = reply vm_unknown_route"

lemma split_char_pieces: "x \<in> set (split_char c s) \<Longrightarrow> c \<notin> set x"
  by (induction s arbitrary: x) (auto split: list.splits if_splits)

lemma split_char_eq_iff:
  assumes "ps \<noteq> []" and "\<forall>x\<in>set ps. c \<notin> set x"
  shows "split_char c s = ps \<longleftrightarrow> s = join [c] ps"
proof
  assume "split_char c s = ps"
  then show "s = join [c] ps" using join_split_char by metis
next
  have "split_char c (join [c] ps) = ps"
    using assms
  proof (induction ps rule: induct_list012)
    case (3 x y zs)
    then show ?case using split_char_append[of c x "join [c] (y # zs)"] by simp
  qed (simp_all add: split_char_none)
  then show "s = join [c] ps \<Longrightarrow> split_char c s = ps" by simp
qed

lemma path_segments:
  "path = ''/v1/environments'' \<longleftrightarrow> split_char (CHR ''/'') path = [[], ''v1'', ''environments'']"
  "extract_session_id path = Some sid \<longleftrightarrow>
     split_char (CHR ''/'') path = [[], ''v1'', ''environments'', sid] \<and> sid \<noteq> []"
  "extract_session_id_and_suffix path ''/serial'' = Some sid \<longleftrightarrow>
     split_char (CHR ''/'') path = [[], ''v1'', ''environments'', sid, ''serial''] \<and> sid \<noteq> []"
proof -
  let ?c = "CHR ''/''"
  show "path = ''/v1/environments'' \<longleftrightarrow> split_char ?c path = [[], ''v1'', ''environments'']"
    by (subst split_char_eq_iff) simp_all
  show "extract_session_id path = Some sid \<longleftrightarrow>
     split_char ?c path = [[], ''v1'', ''environments'', sid] \<and> sid \<noteq> []"
  proof (cases "?c \<in> set sid")
    case True
    then show ?thesis
      using split_char_pieces[of sid ?c path] by (auto simp: extract_session_id_iff)
  next
    case False
    then show ?thesis
      by (subst split_char_eq_iff) (auto simp: extract_session_id_iff env_prefix_def)
  qed
  show "extract_session_id_and_suffix path ''/serial'' = Some sid \<longleftrightarrow>
     split_char ?c path = [[], ''v1'', ''environments'', sid, ''serial''] \<and> sid \<noteq> []"
  proof (cases "?c \<in> set sid")
    case True
    then show ?thesis
      using split_char_pieces[of sid ?c path] by (auto simp: extract_suffix_iff)
  next
    case False
    then show ?thesis
      by (subst split_char_eq_iff) (auto simp: extract_suffix_iff env_prefix_def)
  qed
qed

lemma handle_request_routes:
  "handle_request host c meth path b = dispatch host c b (route_of meth path)"
proof -
  let ?seg = "split_char (CHR ''/'') path"
  consider (base) "?seg = [[], ''v1'', ''environments'']"
    | (one) sid where "?seg = [[], ''v1'', ''environments'', sid]" "sid \<noteq> []"
    | (serial) sid where "?seg = [[], ''v1'', ''environments'', sid, ''serial'']" "sid \<noteq> []"
    | (other) "?seg \<noteq> [[], ''v1'', ''environments'']"
        "\<And>sid. \<not> (?seg = [[], ''v1'', ''environments'', sid] \<and> sid \<noteq> [])"
        "\<And>sid. \<not> (?seg = [[], ''v1'', ''environments'', sid, ''serial''] \<and> sid \<noteq> [])"
    by blast
  then show ?thesis
  proof cases
    case base
    then have "extract_session_id path = None" "extract_session_id_and_suffix path ''/serial'' = None"
      using path_segments(2)[of path] path_segments(3)[of path]
      by (cases "extract_session_id path"; simp; cases "extract_session_id_and_suffix path ''/serial''"; simp)+
    with base show ?thesis by (simp add: handle_request_def route_of_def path_segments(1))
  next
    case (one sid)
    then have "extract_session_id path = Some sid" "path \<noteq> ''/v1/environments''"
      by (simp_all add: path_segments)
    moreover from one have "extract_session_id_and_suffix path ''/serial'' = None"
      using path_segments(3)[of path] by (cases "extract_session_id_and_suffix path ''/serial''") auto
    ultimately show ?thesis using one by (simp add: handle_request_def route_of_def)
  next
    case (serial sid)
    then have "extract_session_id_and_suffix path ''/serial'' = Some sid" "path \<noteq> ''/v1/environments''"
      by (simp_all add: path_segments)
    moreover from serial have "extract_session_id path = None"
      using path_segments(2)[of path] by (cases "extract_session_id path") auto
    ultimately show ?thesis using serial by (simp add: handle_request_def route_of_def)
  next
    case other
    then have "extract_session_id path = None" "extract_session_id_and_suffix path ''/serial'' = None"
      "path \<noteq> ''/v1/environments''"
      using path_segments[of path] by (metis not_None_eq)+
    moreover have "route_of meth path = R_unknown"
      using other unfolding route_of_def by (auto split: list.splits)
    ultimately show ?thesis by (simp add: handle_request_def)
  qed
qed

section \<open>Runs of the other handlers\<close>

lemma run_other_handlers:
  "run_prog (handle_list_environments host) st w = (Done (Some (json_ok 200 (EnvironmentsBody
     \<lparr>el_environments = map (summary_of host (vh_now host w)) (hm_values (environments st))\<rparr>))), st, w, [])"
  "run_prog (handle_get_environment host sid) st w =
     (Done (Some (case hm_get (environments st) sid of
        None \<Rightarrow> not_found sid | Some env \<Rightarrow> json_ok 200 (StatusBody (status_body host (vh_now host w) env)))), st, w, [])"
  "run_prog (handle_delete_environment sid) st w =
     (case hm_get (environments st) sid of
        None \<Rightarrow> (Done (Some (not_found sid)), st, w, [])
      | Some env \<Rightarrow> (Done (Some (json_ok 202 (DeleteBody
          \<lparr>dr_session_id = sid, dr_status = state_as_str ShuttingDown\<rparr>))),
          remove_shutdown_tx sid (set_env_status sid ShuttingDown st), w, []))"
  by (auto simp: handle_list_environments_def handle_get_environment_def handle_delete_environment_def
      reply_def split: option.splits)

lemma run_serial:
  "\<exists>r. run_prog (handle_serial sid) st w = (Done (Some r), st, w, []) \<and> typed_reply r"
  by (auto simp: handle_serial_def reply_def typed_reply_def not_found_def split: option.splits)

lemma typed_not_found: "typed_error (not_found sid)"
  by (simp add: not_found_def)

lemma run_create_typed:
  "\<exists>r st' w' ts. run_prog (handle_create_environment host c b) st w = (Done (Some r), st', w', ts)
     \<and> typed_reply r \<and> (vm_status r = 201 \<or> typed_error r \<and> st' = st \<and> ts = [])"
proof -
  obtain q st' w' ts where run: "run_prog (handle_create_environment host c b) st w = (q, st', w', ts)"
    by (metis prod_cases4)
  from run show ?thesis
  proof (cases rule: create_outcome)
    case (error r)
    then show ?thesis unfolding run by (simp add: typed_reply_def)
  next
    case made
    from made(15) show ?thesis unfolding run by simp
  qed
qed

section \<open>A run to evaluate\<close>

definition demo_create :: create_environment_request where
  "demo_create = request_defaults ''sess_001'' ''img'' None None None \<lparr>ec_allowlist = []\<rparr> None"

lemma allocate_first: "allocate_ip [] = (Inr (pool_ip 2), [pool_ip 2])"
proof (cases rule: allocate_ip_cases[of "[]"])
  case (ok i)
  then have "i = 0" by (metis empty_iff list.set(1) neq0_conv)
  with ok show ?thesis by simp
next
  case full
  then show ?thesis by (simp add: pool_def)
qed

lemma demo_sid: "is_valid_session_id ''sess_001''"
  by (simp add: is_valid_session_id_def session_char_def is_digit_def)

lemma demo_register:
  "register_proxy_session (vh_json demo_vm_host) (vh_unix demo_vm_host) p sid ip al e ()
     = (Inr \<lparr>rr_status = 201, rr_body = ''{}''\<rparr>, ())"
proof -
  let ?m = "http_wire 201 ''Created'' [] ''{}''"
  have m: "?m = ''HTTP/1.1 201 Created'' @ header_terminator @ ''{}''"
    by (simp add: http_wire_def show_nat.simps digit_char_def char_of_eq_iff)
  have "\<forall>c\<in>set ?m. byte c < 128" unfolding m by (simp add: header_terminator_def)
  then have "utf8_valid ?m" by (rule utf8_valid_ascii)
  then have "parse_raw_response ?m = Inr \<lparr>rr_status = 201, rr_body = ''{}''\<rparr>"
    by (intro parse_http_wire) simp_all
  moreover have "?m \<noteq> []" unfolding m by simp
  ultimately show ?thesis
    by (simp add: register_proxy_session_def demo_vm_host_def http_over_unix_def read_to_end_clean)
qed

lemma demo_network:
  "setup_tap_interface (vh_exec demo_vm_host) tap ip () = (Inr (), ())"
  "add_dnat_rule (vh_exec demo_vm_host) tap ip () = (Inr (), ())"
  by (simp_all add: demo_vm_host_def setup_tap_interface_def add_dnat_rule_def try_then_def ignore_then_def
      run_cmd_def)

lemma demo_env_created:
  "run_prog (handle_create_environment demo_vm_host 0 (Inr ''sess_001'')) vm_state_new () =
     (Done (Some (json_ok 201 (EnvironmentBody (created_body demo_vm_host demo_create (pool_ip 2) (pool_ip 1) 1000 [])))),
      launched_state 0 demo_create (pool_ip 2) 1000 [] (vm_state_new\<lparr>allocated_ips := [pool_ip 2]\<rparr>), (),
      [task_of 0 demo_create ''img'' (pool_ip 2) (pool_ip 1)])"
proof -
  have req: "vh_parse_create demo_vm_host ''sess_001'' = Inr demo_create"
    by (simp add: demo_vm_host_def demo_create_def)
  have host: "vh_exists demo_vm_host p ()" "vh_canonicalize demo_vm_host p () = Inr p"
    "vh_now demo_vm_host () = 1000" "parse_dummy_keys (vh_json demo_vm_host) s = []" for p s
    by (simp_all add: demo_vm_host_def parse_dummy_keys_def)
  have fields: "ce_session_id demo_create = ''sess_001''" "image demo_create = ''img''"
    by (simp_all add: demo_create_def request_defaults_def)
  have new: "environments vm_state_new = []" "allocated_ips vm_state_new = []"
    by (simp_all add: vm_state_new_def with_proxy_socket_def)
  have gate: "host_tap_ip_of (ip_parts (pool_ip 2)) = pool_ip 1" "length (ip_parts (pool_ip 2)) = 4"
    using pool_gateway[of 0] by simp_all
  show ?thesis
    unfolding run_handle_create req
    by (simp add: fields new demo_sid host create_with_image_def allocate_first create_with_ip_def gate Let_def
        demo_register create_registered_def create_network_def demo_network run_launched)
qed

section \<open>Properties\<close>

text \<open>
  C29. The router is the route table: a request is dispatched by its method and the segments of
  its path, and every other request gets the 404 answer.
\<close>

theorem router_is_table:
  "handle_request host c meth path b = dispatch host c b (route_of meth path)"
  by (rule handle_request_routes)


text \<open>
  C25. A refused creation leaves nothing behind in the manager: the state is the one before the
  request, address pool included, and no task was started, on every error path.
\<close>

theorem refused_create_restores:
  "case run_prog (handle_create_environment host c b) st w of (q, st', w', ts) \<Rightarrow>
     \<exists>r. q = Done (Some r) \<and> (vm_status r = 201 \<or> typed_error r \<and> st' = st \<and> ts = [])"
  using run_create_typed[of host c b st w] by auto

text \<open>
  C24. What a 201 means: the id was valid and new, the environment got the lowest free address
  of the pool, the proxy was asked to register the session for exactly that address (and
  answered 201), the interface and the rules were set up on the gateway below it, one background
  task was started with these parameters, and the record, the channel and the answer
  carry them.
\<close>

theorem create_environment_effect:
  assumes "run_prog (handle_create_environment host c b) st w = (Done (Some r), st', w', ts)"
    and "vm_status r = 201"
  shows "\<exists>req rootfs i keys pr w1 w2. is_valid_session_id (ce_session_id req)
    \<and> hm_get (environments st) (ce_session_id req) = None
    \<and> i < 64 \<and> pool_ip (2 + i * 4) \<notin> set (allocated_ips st)
    \<and> (\<forall>j<i. pool_ip (2 + j * 4) \<in> set (allocated_ips st))
    \<and> register_proxy_session (vh_json host) (vh_unix host) (proxy_socket st) (ce_session_id req)
        (pool_ip (2 + i * 4)) (map proxy_entry_of (ec_allowlist (egress req)))
        (expiry_text host (expiry_of (vh_now host w) (timeout_secs req))) w = (Inr pr, w1)
    \<and> rr_status pr = 201 \<and> keys = parse_dummy_keys (vh_json host) (rr_body pr)
    \<and> setup_tap_interface (vh_exec host) (tap_interface_of (ce_session_id req)) (pool_ip (1 + i * 4)) w1
        = (Inr (), w2)
    \<and> add_dnat_rule (vh_exec host) (tap_interface_of (ce_session_id req)) (pool_ip (1 + i * 4)) w2
        = (Inr (), w')
    \<and> ts = [task_of c req rootfs (pool_ip (2 + i * 4)) (pool_ip (1 + i * 4))]
    \<and> vm_body r = EnvironmentBody
        (created_body host req (pool_ip (2 + i * 4)) (pool_ip (1 + i * 4)) (vh_now host w) keys)
    \<and> hm_get (environments st') = (hm_get (environments st))(ce_session_id req \<mapsto>
        environment_of req (pool_ip (2 + i * 4)) (vh_now host w) keys)
    \<and> hm_get (shutdown_txs st') (ce_session_id req) = Some c
    \<and> allocated_ips st' = allocated_ips st @ [pool_ip (2 + i * 4)]"
  using assms(1)
proof (cases rule: create_outcome)
  case (error r')
  with assms(2) typed_error_status[of r'] show ?thesis by simp
next
  case (made bytes req rootfs i pr w1 w2 keys)
  from made(15,16) have "vm_body r = EnvironmentBody
      (created_body host req (pool_ip (2 + i * 4)) (pool_ip (1 + i * 4)) (vh_now host w) keys)"
    by (simp add: json_ok_def)
  moreover from made(16) have "hm_get (environments st') = (hm_get (environments st))(ce_session_id req \<mapsto>
        environment_of req (pool_ip (2 + i * 4)) (vh_now host w) keys)"
    "hm_get (shutdown_txs st') (ce_session_id req) = Some c"
    "allocated_ips st' = allocated_ips st @ [pool_ip (2 + i * 4)]"
    by (simp_all add: launched_state_def hm_simps)
  ultimately show ?thesis using made(3,4,7-14,17) by blast
qed

theorem create_environment_effect_witness:
  "\<exists>i<64. allocated_ips (fst (snd (run_prog (handle_create_environment demo_vm_host 0 (Inr ''sess_001''))
     vm_state_new ()))) = [pool_ip (2 + i * 4)]"
proof -
  have "vm_status (json_ok 201 (EnvironmentBody (created_body demo_vm_host demo_create (pool_ip 2) (pool_ip 1) 1000 []))) = 201"
    by simp
  from create_environment_effect[OF demo_env_created this] obtain i where "i < 64"
    "allocated_ips (launched_state 0 demo_create (pool_ip 2) 1000 [] (vm_state_new\<lparr>allocated_ips := [pool_ip 2]\<rparr>))
       = allocated_ips vm_state_new @ [pool_ip (2 + i * 4)]" by blast
  moreover have "allocated_ips vm_state_new = []" by (simp add: vm_state_new_def with_proxy_socket_def)
  ultimately show ?thesis unfolding demo_env_created by (intro exI[of _ i]) simp
qed

text \<open>
  C26. A deletion ends the VM: until then the task waits; the deletion answers 202 and marks
  the environment, and the task then stops the VM, deletes the proxy session, the rules and the
  interface, gives the address back, marks the environment exited and drops its handles.
\<close>

theorem delete_ends_vm:
  assumes "hm_get (environments st) sid = Some env" and "hm_ok (shutdown_txs st)"
    and "hm_get (shutdown_txs st) sid = Some (t_chan t)" and "t_session_id t = sid"
    and "\<forall>(k, c)\<in>set (shutdown_txs st). c = t_chan t \<longrightarrow> k = sid"
    and "running = waiting_vm host vm t"
  shows "run_prog running st w = (running, st, w, [])
    \<and> (\<exists>st1 st2. run_prog (handle_delete_environment sid) st w1 = (Done (Some (json_ok 202 (DeleteBody
          \<lparr>dr_session_id = sid, dr_status = ''shutting_down''\<rparr>))), st1, w1, [])
      \<and> hm_get (environments st1) sid = Some (env\<lparr>env_status := ShuttingDown\<rparr>)
      \<and> run_prog running st1 w = (Done None, st2, cleaned_world host (proxy_socket st) t (snd (stop_vm host vm w)), [])
      \<and> hm_get (environments st2) sid = Some (env\<lparr>env_status := Exited\<rparr>)
      \<and> set (allocated_ips st2) = set (allocated_ips st) - {t_vm_ip t}
      \<and> hm_get (shutdown_txs st2) sid = None \<and> hm_get (serial_txs st2) sid = None)"
proof -
  let ?st1 = "remove_shutdown_tx sid (set_env_status sid ShuttingDown st)"
  have "(sid, t_chan t) \<in> set (shutdown_txs st)" using assms(3) by (rule hm_get_Some_in)
  then have wait: "\<not> sender_gone (t_chan t) st" by (force simp: sender_gone_def)
  have go: "sender_gone (t_chan t) ?st1"
    using assms(5) by (auto simp: sender_gone_def remove_shutdown_tx_def set_hm_remove)
  have env1: "hm_get (environments ?st1) sid = Some (env\<lparr>env_status := ShuttingDown\<rparr>)"
    "proxy_socket ?st1 = proxy_socket st" "allocated_ips ?st1 = allocated_ips st"
    using assms(1) by (simp_all add: remove_shutdown_tx_def set_env_status_get)
  have del: "run_prog (handle_delete_environment sid) st w1 = (Done (Some (json_ok 202 (DeleteBody
      \<lparr>dr_session_id = sid, dr_status = ''shutting_down''\<rparr>))), ?st1, w1, [])"
    using assms(1) by (simp add: run_other_handlers)
  have fin: "run_prog running ?st1 w = (Done None, ended_state t Exited ?st1,
      cleaned_world host (proxy_socket st) t (snd (stop_vm host vm w)), [])"
    using go env1(2) unfolding assms(6) by (simp add: waiting_vm_def run_finish case_prod_unfold)
  have "set (release_ip (t_vm_ip t) (allocated_ips st)) = set (allocated_ips st) - {t_vm_ip t}"
    by (auto simp: release_ip_def)
  then show ?thesis
    using wait del fin env1 assms(4)
    by (intro conjI exI[of _ ?st1] exI[of _ "ended_state t Exited ?st1"])
      (simp_all add: assms(6) waiting_vm_def ended_state_get hm_simps)
qed

theorem delete_ends_vm_witness:
  "fst (run_prog (waiting_vm demo_vm_host 0 (task_of 0 demo_create ''img'' (pool_ip 2) (pool_ip 1)))
     (fst (snd (run_prog (handle_delete_environment ''sess_001'')
       (launched_state 0 demo_create (pool_ip 2) 1000 [] (vm_state_new\<lparr>allocated_ips := [pool_ip 2]\<rparr>)) ()))) ())
   = Done (None :: unit option)"
proof -
  let ?st = "launched_state 0 demo_create (pool_ip 2) 1000 [] (vm_state_new\<lparr>allocated_ips := [pool_ip 2]\<rparr>)"
  have st: "hm_get (environments ?st) ''sess_001'' = Some (environment_of demo_create (pool_ip 2) 1000 [])"
    "shutdown_txs ?st = [(''sess_001'', 0)]"
    by (simp_all add: launched_state_def demo_create_def request_defaults_def vm_state_new_def
        with_proxy_socket_def hm_get_def hm_insert_def)
  have t: "t_chan (task_of 0 demo_create ''img'' ip h) = 0"
    "t_session_id (task_of 0 demo_create ''img'' ip h) = ''sess_001''" for ip h
    by (simp_all add: task_of_def demo_create_def request_defaults_def)
  let ?t = "task_of 0 demo_create ''img'' (pool_ip 2) (pool_ip 1)"
  have h: "hm_ok (shutdown_txs ?st)" "hm_get (shutdown_txs ?st) ''sess_001'' = Some (t_chan ?t)"
    "\<forall>(k, c)\<in>set (shutdown_txs ?st). c = t_chan ?t \<longrightarrow> k = ''sess_001''"
    by (simp_all add: st(2) t hm_ok_def hm_get_def)
  define r :: "(unit, unit option) prog" where
    "r = waiting_vm demo_vm_host 0 ?t"
  from delete_ends_vm[OF st(1) h(1,2) t(2) h(3) r_def, of "()" "()"] obtain st1 st2 where
    "run_prog (handle_delete_environment ''sess_001'') ?st () = (Done (Some (json_ok 202 (DeleteBody
       \<lparr>dr_session_id = ''sess_001'', dr_status = ''shutting_down''\<rparr>))), st1, (), [])"
    "fst (run_prog r st1 ()) = Done None" by auto
  then show ?thesis by (simp only: r_def fst_conv snd_conv)
qed

end
