(* ===== verification/Vm_System.thy ===== *)
theory Vm_System
  imports Vm_Api
begin

text \<open>
  The VM manager as a system of concurrent tasks: requests arrive at any time, every handler
  and background task advances by one atomic action (one lock held, one host call) in any
  order, and the host changes on its own. The theorems hold for every schedule.
\<close>

section \<open>The system\<close>

record 'w sys =
  sys_mgr :: vm_state
  sys_world :: 'w
  sys_threads :: "('w, vm_response option) prog list"
  sys_chan :: nat

definition sys_init :: "string \<Rightarrow> 'w \<Rightarrow> 'w sys" where
  "sys_init socket w = \<lparr>sys_mgr = with_proxy_socket socket, sys_world = w, sys_threads = [], sys_chan = 0\<rparr>"

text \<open>\<open>outside\<close> is what the rest of the world may do between two actions.\<close>

inductive sys_moves ::
  "('w \<Rightarrow> 'w \<Rightarrow> bool) \<Rightarrow> ('w, 'dt) vm_host \<Rightarrow> 'w sys \<Rightarrow> 'w sys \<Rightarrow> bool" for outside host where
  arrive: "sys_moves outside host s (s\<lparr>sys_threads := sys_threads s @ [handle_request host (sys_chan s) meth path b],
      sys_chan := Suc (sys_chan s)\<rparr>)"
| world: "outside (sys_world s) w \<Longrightarrow> sys_moves outside host s (s\<lparr>sys_world := w\<rparr>)"
| lock: "i < length (sys_threads s) \<Longrightarrow> sys_threads s ! i = On_state f \<Longrightarrow> f (sys_mgr s) = (p, st) \<Longrightarrow>
    sys_moves outside host s (s\<lparr>sys_mgr := st, sys_threads := (sys_threads s)[i := p]\<rparr>)"
| await: "i < length (sys_threads s) \<Longrightarrow> sys_threads s ! i = On_host f \<Longrightarrow> f (sys_world s) = (p, w) \<Longrightarrow>
    sys_moves outside host s (s\<lparr>sys_world := w, sys_threads := (sys_threads s)[i := p]\<rparr>)"
| spawn: "i < length (sys_threads s) \<Longrightarrow> sys_threads s ! i = Spawn t p \<Longrightarrow>
    sys_moves outside host s (s\<lparr>sys_threads := (sys_threads s)[i := p] @ [run_vm_lifecycle host t]\<rparr>)"
| wake: "i < length (sys_threads s) \<Longrightarrow> sys_threads s ! i = Wait b p \<Longrightarrow> b (sys_mgr s) \<Longrightarrow>
    sys_moves outside host s (s\<lparr>sys_threads := (sys_threads s)[i := p]\<rparr>)"

abbreviation sys_step :: "('w, 'dt) vm_host \<Rightarrow> 'w sys \<Rightarrow> 'w sys \<Rightarrow> bool" where
  "sys_step \<equiv> sys_moves (\<lambda>_ _. True)"

abbreviation sys_reaches :: "('w, 'dt) vm_host \<Rightarrow> 'w sys \<Rightarrow> 'w sys \<Rightarrow> bool" where
  "sys_reaches host \<equiv> (sys_step host)\<^sup>*\<^sup>*"

section \<open>Ownership of addresses\<close>

text \<open>What one action may do to the pool for a task that owns \<open>o\<close>: nothing, take a free
  address, or give back its own.\<close>

inductive pool_effect :: "string option \<Rightarrow> string option \<Rightarrow> string list \<Rightarrow> string list \<Rightarrow> bool" where
  same: "pool_effect o1 o1 a a"
| take: "ip \<in> pool \<Longrightarrow> ip \<notin> set a \<Longrightarrow> pool_effect None (Some ip) a (a @ [ip])"
| give: "pool_effect (Some ip) None a (release_ip ip a)"

inductive owns :: "string option \<Rightarrow> ('w, 'a) prog \<Rightarrow> bool" where
  owns_Done: "owns None (Done a)"
| owns_On_state: "(\<And>st. \<exists>o2. owns o2 (fst (f st))
      \<and> pool_effect o1 o2 (allocated_ips st) (allocated_ips (snd (f st)))) \<Longrightarrow> owns o1 (On_state f)"
| owns_On_host: "(\<And>w. owns o1 (fst (f w))) \<Longrightarrow> owns o1 (On_host f)"
| owns_Spawn: "owns None p \<Longrightarrow> owns (Some (t_vm_ip t)) (Spawn t p)"
| owns_Wait: "owns o1 p \<Longrightarrow> owns o1 (Wait b p)"

inductive_cases owns_DoneE: "owns o1 (Done a)"
inductive_cases owns_On_stateE: "owns o1 (On_state f)"
inductive_cases owns_On_hostE: "owns o1 (On_host f)"
inductive_cases owns_SpawnE: "owns o1 (Spawn t p)"
inductive_cases owns_WaitE: "owns o1 (Wait b p)"

lemma owns_locked:
  "(\<And>st. allocated_ips (g st) = allocated_ips st) \<Longrightarrow> owns o1 k \<Longrightarrow> owns o1 (locked g k)"
  unfolding locked_def by (rule owns_On_state) (auto intro: pool_effect.intros)

lemma owns_awaited: "(\<And>r. owns o1 (k r)) \<Longrightarrow> owns o1 (awaited f k)"
  unfolding awaited_def by (rule owns_On_host) (simp add: case_prod_unfold)

lemma owns_released: "owns None k \<Longrightarrow> owns (Some ip) (released ip k)"
  unfolding released_def locked_def by (rule owns_On_state) (auto intro: pool_effect.intros)

lemma owns_reply: "owns None (reply r)"
  unfolding reply_def by (rule owns_Done)

lemma owns_look: "(\<And>st. owns o1 (k st)) \<Longrightarrow> owns o1 (On_state (\<lambda>st. (k st, st)))"
  by (rule owns_On_state) (auto intro: pool_effect.intros)

lemma owns_drops:
  assumes "owns o1 k"
  shows "owns o1 (drop_proxy_session host sid k)" and "owns o1 (drop_dnat_rule host tap k)"
    and "owns o1 (drop_tap host tap k)" and "owns o1 (remove_handles sid k)"
proof -
  show "owns o1 (drop_proxy_session host sid k)"
    unfolding drop_proxy_session_def by (rule owns_look, rule owns_awaited, rule assms)
  show "owns o1 (drop_dnat_rule host tap k)" "owns o1 (drop_tap host tap k)"
    unfolding drop_dnat_rule_def drop_tap_def by (rule owns_awaited, rule assms)+
  show "owns o1 (remove_handles sid k)"
    unfolding remove_handles_def
    by (rule owns_locked, simp add: remove_shutdown_tx_def, rule owns_locked, simp add: remove_serial_tx_def,
        rule assms)
qed

lemmas owns_parts = owns_drops owns_released owns_reply owns_Done

lemma owns_ends:
  "owns (Some (t_vm_ip t)) (finish_vm host t)" "owns (Some (t_vm_ip t)) (abandon_vm host t)"
  unfolding finish_vm_def abandon_vm_def
  by (intro owns_parts owns_locked set_env_status_simps)+

lemma owns_lifecycle: "owns (Some (t_vm_ip t)) (run_vm_lifecycle host t)"
  unfolding run_vm_lifecycle_def waiting_vm_def
proof (rule owns_awaited)
  fix r :: "string + nat"
  show "owns (Some (t_vm_ip t)) (case r of Inl e \<Rightarrow> abandon_vm host t
      | Inr vm \<Rightarrow> Wait (sender_gone (t_chan t)) (awaited (stop_vm host vm) (\<lambda>_. finish_vm host t)))"
    by (cases r) (simp_all add: owns_ends owns_Wait owns_awaited)
qed

lemma owns_create_launched:
  "owns (Some ip) (create_launched host c req rootfs ip host_ip now keys)"
proof -
  let ?t = "task_of c req rootfs ip host_ip"
  have "owns (Some (t_vm_ip ?t)) (Spawn ?t (locked (\<lambda>st. st\<lparr>environments :=
      hm_insert (ce_session_id req) (environment_of req ip now keys) (environments st)\<rparr>) (reply r)))" for r
    by (rule owns_Spawn, rule owns_locked) (simp_all add: owns_reply)
  then show ?thesis
    unfolding create_launched_def by (intro owns_locked) (simp_all add: task_of_def)
qed

lemma owns_create_network:
  "owns (Some ip) (create_network host c req rootfs ip host_ip now keys)"
  unfolding create_network_def Let_def
proof (rule owns_awaited)
  fix r :: "string + unit"
  let ?tap = "tap_interface_of (ce_session_id req)"
  have "owns (Some ip) (case r of Inl e \<Rightarrow> released ip (drop_tap host ?tap (drop_proxy_session host
        (ce_session_id req) (reply (json_error_with_detail 500 VmLaunchFailed
           ''failed to set up nftables DNAT rule'' e))))
      | Inr _ \<Rightarrow> create_launched host c req rootfs ip host_ip now keys)" for r :: "string + unit"
    by (cases r) (simp_all add: owns_parts owns_create_launched)
  then show "owns (Some ip) (case r of
      Inl e \<Rightarrow> released ip (drop_proxy_session host (ce_session_id req)
        (reply (json_error_with_detail 500 VmLaunchFailed ''failed to set up TAP interface'' e)))
    | Inr _ \<Rightarrow> awaited (add_dnat_rule (vh_exec host) ?tap host_ip) (\<lambda>r. case r of
        Inl e \<Rightarrow> released ip (drop_tap host ?tap (drop_proxy_session host (ce_session_id req)
          (reply (json_error_with_detail 500 VmLaunchFailed ''failed to set up nftables DNAT rule'' e))))
      | Inr _ \<Rightarrow> create_launched host c req rootfs ip host_ip now keys))"
    by (cases r) (simp_all add: owns_parts owns_awaited)
qed

lemma owns_create_registered:
  "owns (Some ip) (create_registered host c req rootfs ip host_ip now pr)"
  unfolding create_registered_def
  by (cases pr) (simp_all add: owns_parts owns_create_network)

lemma owns_create_with_ip:
  assumes "ip \<in> pool"
  shows "owns (Some ip) (create_with_ip host c req rootfs ip)"
proof -
  from assms obtain i where "i < 64" "ip = pool_ip (2 + i * 4)" by (auto simp: pool_def)
  then have "length (ip_parts ip) = 4" using pool_gateway(1) by blast
  then show ?thesis
    unfolding create_with_ip_def Let_def
    by simp (intro owns_awaited owns_look owns_create_registered)
qed

lemma owns_create_with_image: "owns None (create_with_image host c req rootfs)"
  unfolding create_with_image_def
proof (rule owns_On_state)
  fix st
  show "\<exists>o2. owns o2 (fst (case allocate_ip (allocated_ips st) of
          (Inr ip, ips) \<Rightarrow> (create_with_ip host c req rootfs ip, st\<lparr>allocated_ips := ips\<rparr>)
        | (Inl e, ips) \<Rightarrow> (reply (json_error 500 InternalError (''failed to allocate IP: '' @ e)),
            st\<lparr>allocated_ips := ips\<rparr>)))
      \<and> pool_effect None o2 (allocated_ips st) (allocated_ips (snd (case allocate_ip (allocated_ips st) of
          (Inr ip, ips) \<Rightarrow> (create_with_ip host c req rootfs ip, st\<lparr>allocated_ips := ips\<rparr>)
        | (Inl e, ips) \<Rightarrow> (reply (json_error 500 InternalError (''failed to allocate IP: '' @ e)),
            st\<lparr>allocated_ips := ips\<rparr>))))"
  proof (cases rule: allocate_ip_cases[of "allocated_ips st"])
    case (ok i)
    then have "pool_ip (2 + i * 4) \<in> pool" by (auto simp: pool_def)
    with ok show ?thesis
      by (intro exI[of _ "Some (pool_ip (2 + i * 4))"])
        (simp del: add_2_eq_Suc add: owns_create_with_ip pool_effect.take)
  next
    case full
    then show ?thesis by (intro exI[of _ None]) (simp add: owns_reply pool_effect.same)
  qed
qed

lemma owns_handle_create: "owns None (handle_create_environment host c b)"
proof -
  have new: "owns None (create_new host c req)" for req
    unfolding create_new_def
  proof (rule owns_awaited)
    fix present
    have "owns None (awaited (\<lambda>w. (vh_canonicalize host (image req) w, w)) (\<lambda>r. case r of
        Inl e \<Rightarrow> reply (json_error 500 InternalError (''failed to canonicalize image path: '' @ e))
      | Inr rootfs \<Rightarrow> create_with_image host c req rootfs))"
      by (rule owns_awaited) (simp add: owns_reply owns_create_with_image split: sum.split)
    then show "owns None (if \<not> present then reply (json_error 404 ImageNotFound (''image not found: '' @ image req))
      else awaited (\<lambda>w. (vh_canonicalize host (image req) w, w)) (\<lambda>r. case r of
        Inl e \<Rightarrow> reply (json_error 500 InternalError (''failed to canonicalize image path: '' @ e))
      | Inr rootfs \<Rightarrow> create_with_image host c req rootfs))"
      by (cases present) (simp_all only: owns_reply simp_thms if_True if_False)
  qed
  then show ?thesis
    unfolding handle_create_environment_def
    by (cases b; cases "vh_parse_create host (projr b)") (auto intro!: owns_look owns_reply)
qed

lemma owns_handle_request: "owns None (handle_request host c meth path b)"
proof -
  have "owns None (handle_delete_environment sid)" for sid
    unfolding handle_delete_environment_def
    by (rule owns_On_state)
      (auto intro!: exI[of _ None] owns_locked owns_reply pool_effect.same simp: remove_shutdown_tx_def
        split: option.split)
  moreover have "owns None (handle_get_environment host sid)" "owns None (handle_serial sid)"
    "owns None (handle_list_environments host)" for sid
    unfolding handle_get_environment_def handle_serial_def handle_list_environments_def
    by (rule owns_look; auto intro!: owns_awaited owns_reply split: option.split)+
  ultimately show ?thesis
    by (cases "route_of meth path") (simp_all add: handle_request_routes owns_handle_create owns_reply)
qed

section \<open>The pool in every reachable state\<close>

text \<open>\<open>n\<close> tasks own exactly the allocated addresses, each address once.\<close>

definition owners :: "nat \<Rightarrow> (nat \<Rightarrow> string option) \<Rightarrow> string \<Rightarrow> nat set" where
  "owners n own ip = {i. i < n \<and> own i = Some ip}"

definition account :: "nat \<Rightarrow> (nat \<Rightarrow> string option) \<Rightarrow> string list \<Rightarrow> bool" where
  "account n own a \<longleftrightarrow> distinct a \<and> set a \<subseteq> pool
     \<and> (\<forall>ip. if ip \<in> set a then \<exists>i. owners n own ip = {i} else owners n own ip = {})"

lemma account_owner: "account n own a \<Longrightarrow> i < n \<Longrightarrow> own i = Some ip \<Longrightarrow> ip \<in> set a \<and> owners n own ip = {i}"
proof -
  assume "account n own a" "i < n" "own i = Some ip"
  then have "if ip \<in> set a then \<exists>i. owners n own ip = {i} else owners n own ip = {}"
    unfolding account_def by blast
  moreover from \<open>i < n\<close> \<open>own i = Some ip\<close> have "i \<in> owners n own ip" by (simp add: owners_def)
  ultimately show ?thesis by (auto split: if_splits)
qed

lemma owners_other:
  assumes "own i \<noteq> Some ip" and "o2 \<noteq> Some ip"
  shows "owners n (own(i := o2)) ip = owners n own ip"
  using assms by (auto simp: owners_def)

lemma account_effect:
  assumes "account n own a" and "i < n" and "pool_effect (own i) o2 a a'"
  shows "account n (own(i := o2)) a'"
  using assms(3)
proof cases
  case same
  with assms(1) show ?thesis by (metis fun_upd_triv)
next
  case (take ip)
  have "owners n own ip = {}" using assms(1) take(5) unfolding account_def by metis
  then have "owners n (own(i := Some ip)) ip = {i}"
    using assms(2) by (auto simp: owners_def)
  moreover have "owners n (own(i := Some ip)) x = owners n own x" if "x \<noteq> ip" for x
    using that take(1) by (intro owners_other) auto
  ultimately have "if x \<in> set a' then \<exists>j. owners n (own(i := o2)) x = {j} else owners n (own(i := o2)) x = {}" for x
    using assms(1) take(2,3) unfolding account_def by (cases "x = ip") auto
  with assms(1) take(3-5) show ?thesis unfolding account_def by simp
next
  case (give ip)
  with account_owner[OF assms(1,2)] have "owners n own ip = {i}" by metis
  then have "owners n (own(i := None)) ip = {}"
    by (auto simp: owners_def split: if_splits)
  moreover have "owners n (own(i := None)) x = owners n own x" if "x \<noteq> ip" for x
    using that give(1) by (intro owners_other) auto
  ultimately have "if x \<in> set a' then \<exists>j. owners n (own(i := o2)) x = {j} else owners n (own(i := o2)) x = {}" for x
    using assms(1) give(2,3) unfolding account_def by (cases "x = ip") (auto simp: release_ip_def)
  with assms(1) give(3) show ?thesis unfolding account_def by (auto simp: release_ip_def)
qed

lemma account_new: "account n own a \<Longrightarrow> account (Suc n) (own(n := None)) a"
proof -
  have "owners (Suc n) (own(n := None)) ip = owners n own ip" for ip
    by (auto simp: owners_def less_Suc_eq)
  then show "account n own a \<Longrightarrow> account (Suc n) (own(n := None)) a"
    by (simp add: account_def)
qed

lemma account_move:
  assumes "account n own a" and "i < n" and "own i = Some ip"
  shows "account (Suc n) (own(i := None, n := Some ip)) a"
proof -
  from account_owner[OF assms] have ip: "ip \<in> set a" "owners n own ip = {i}" by simp_all
  then have "owners (Suc n) (own(i := None, n := Some ip)) ip = {n}"
    by (auto simp: owners_def less_Suc_eq split: if_splits)
  moreover have "owners (Suc n) (own(i := None, n := Some ip)) x = owners n own x" if "x \<noteq> ip" for x
    using that assms(2,3) by (auto simp: owners_def less_Suc_eq split: if_splits)
  ultimately show ?thesis using assms(1) ip(1) unfolding account_def by metis
qed

definition pool_inv :: "'w sys \<Rightarrow> bool" where
  "pool_inv s \<longleftrightarrow> (\<exists>own. (\<forall>i<length (sys_threads s). owns (own i) (sys_threads s ! i))
     \<and> account (length (sys_threads s)) own (allocated_ips (sys_mgr s)))"

lemma pool_inv_update:
  assumes "pool_inv s" and "i < length (sys_threads s)"
    and "\<And>o1. owns o1 (sys_threads s ! i) \<Longrightarrow> \<exists>o2. owns o2 p \<and> pool_effect o1 o2 (allocated_ips (sys_mgr s)) (allocated_ips st)"
  shows "pool_inv (s\<lparr>sys_mgr := st, sys_world := w, sys_threads := (sys_threads s)[i := p]\<rparr>)"
proof -
  from assms(1) obtain own where own: "\<forall>i<length (sys_threads s). owns (own i) (sys_threads s ! i)"
    "account (length (sys_threads s)) own (allocated_ips (sys_mgr s))"
    by (auto simp: pool_inv_def)
  with assms(2,3) obtain o2 where o2: "owns o2 p"
    "pool_effect (own i) o2 (allocated_ips (sys_mgr s)) (allocated_ips st)" by blast
  from account_effect[OF own(2) assms(2) o2(2)] own(1) o2(1) show ?thesis
    unfolding pool_inv_def by (intro exI[of _ "own(i := o2)"]) (auto simp: nth_list_update)
qed

lemma pool_inv_arrive:
  assumes "pool_inv s"
  shows "pool_inv (s\<lparr>sys_threads := sys_threads s @ [handle_request host c meth path b], sys_chan := c'\<rparr>)"
proof -
  from assms obtain own where own: "\<forall>i<length (sys_threads s). owns (own i) (sys_threads s ! i)"
    "account (length (sys_threads s)) own (allocated_ips (sys_mgr s))"
    by (auto simp: pool_inv_def)
  with account_new[OF own(2)] show ?thesis
    unfolding pool_inv_def
    by (intro exI[of _ "own(length (sys_threads s) := None)"])
      (auto simp: nth_append less_Suc_eq owns_handle_request)
qed

lemma pool_inv_spawn:
  assumes "pool_inv s" and "i < length (sys_threads s)" and "sys_threads s ! i = Spawn t p"
  shows "pool_inv (s\<lparr>sys_threads := (sys_threads s)[i := p] @ [run_vm_lifecycle host t]\<rparr>)"
proof -
  from assms(1) obtain own where own: "\<forall>i<length (sys_threads s). owns (own i) (sys_threads s ! i)"
    "account (length (sys_threads s)) own (allocated_ips (sys_mgr s))"
    by (auto simp: pool_inv_def)
  from own(1) assms(2,3) have i: "own i = Some (t_vm_ip t)" "owns None p"
    by (metis owns_SpawnE)+
  from account_move[OF own(2) assms(2) i(1)] own(1) i(2) show ?thesis
    unfolding pool_inv_def
    by (intro exI[of _ "own(i := None, length (sys_threads s) := Some (t_vm_ip t))"])
      (auto simp: nth_append nth_list_update less_Suc_eq owns_lifecycle)
qed

lemma pool_inv_step:
  assumes "sys_step host s s'" and "pool_inv s"
  shows "pool_inv s'"
  using assms(1)
proof cases
  case (arrive meth path b)
  with assms(2) show ?thesis by (simp add: pool_inv_arrive)
next
  case (world w)
  with assms(2) show ?thesis by (simp add: pool_inv_def)
next
  case (lock i f p st)
  have "pool_inv (s\<lparr>sys_mgr := st, sys_world := sys_world s, sys_threads := (sys_threads s)[i := p]\<rparr>)"
    using assms(2) lock(2)
  proof (rule pool_inv_update)
    fix o1
    assume "owns o1 (sys_threads s ! i)"
    with lock(3,4) show "\<exists>o2. owns o2 p \<and> pool_effect o1 o2 (allocated_ips (sys_mgr s)) (allocated_ips st)"
      by (metis owns_On_stateE fst_conv snd_conv)
  qed
  with lock(1) show ?thesis by simp
next
  case (await i f p w)
  have "pool_inv (s\<lparr>sys_mgr := sys_mgr s, sys_world := w, sys_threads := (sys_threads s)[i := p]\<rparr>)"
    using assms(2) await(2)
  proof (rule pool_inv_update)
    fix o1
    assume "owns o1 (sys_threads s ! i)"
    with await(3,4) show "\<exists>o2. owns o2 p
        \<and> pool_effect o1 o2 (allocated_ips (sys_mgr s)) (allocated_ips (sys_mgr s))"
      by (metis owns_On_hostE fst_conv pool_effect.same)
  qed
  with await(1) show ?thesis by simp
next
  case (spawn i t p)
  with assms(2) show ?thesis by (simp add: pool_inv_spawn)
next
  case (wake i b p)
  have "pool_inv (s\<lparr>sys_mgr := sys_mgr s, sys_world := sys_world s, sys_threads := (sys_threads s)[i := p]\<rparr>)"
    using assms(2) wake(2)
  proof (rule pool_inv_update)
    fix o1
    assume "owns o1 (sys_threads s ! i)"
    with wake(3) show "\<exists>o2. owns o2 p
        \<and> pool_effect o1 o2 (allocated_ips (sys_mgr s)) (allocated_ips (sys_mgr s))"
      by (metis owns_WaitE pool_effect.same)
  qed
  with wake(1) show ?thesis by simp
qed

lemma pool_inv_reach:
  assumes "sys_reaches host (sys_init socket w) s"
  shows "pool_inv s"
  using assms
proof (induction rule: rtranclp_induct)
  case base
  show ?case by (auto simp: pool_inv_def sys_init_def with_proxy_socket_def account_def owners_def)
next
  case (step s s')
  then show ?case by (blast intro: pool_inv_step)
qed

text \<open>A running VM owns its own address.\<close>

lemma pool_effect_gone: "pool_effect o1 o2 [ip] (release_ip ip [ip]) \<Longrightarrow> o1 = Some ip"
  by (erule pool_effect.cases) (auto simp: release_ip_def split: if_splits)

lemma owns_lookE:
  assumes "owns o1 (On_state (\<lambda>st. (k st, st)))"
  obtains st where "owns o1 (k st)"
proof -
  let ?st = "vm_state_new\<lparr>allocated_ips := (case o1 of Some ip \<Rightarrow> [ip] | None \<Rightarrow> [])\<rparr>"
  from assms obtain o2 where o2: "owns o2 (k ?st)"
    "pool_effect o1 o2 (case o1 of Some ip \<Rightarrow> [ip] | None \<Rightarrow> []) (case o1 of Some ip \<Rightarrow> [ip] | None \<Rightarrow> [])"
    by (fastforce elim!: owns_On_stateE)
  from o2(2) have "o2 = o1" by cases (auto simp: release_ip_def)
  with o2(1) show thesis using that by simp
qed

lemma owns_awaitedE: "owns o1 (awaited f k) \<Longrightarrow> \<exists>r. owns o1 (k r)"
  unfolding awaited_def by (elim owns_On_hostE) (auto simp: case_prod_unfold)

lemma owns_waiting:
  assumes "owns o1 (waiting_vm host vm t :: ('w, 'r option) prog)"
  shows "o1 = Some (t_vm_ip t)"
proof -
  from assms have "owns o1 (awaited (stop_vm host vm) (\<lambda>_. finish_vm host t :: ('w, 'r option) prog))"
    unfolding waiting_vm_def by (rule owns_WaitE)
  then have "owns o1 (finish_vm host t :: ('w, 'r option) prog)" by (auto dest: owns_awaitedE)
  then obtain k :: "('w, 'r option) prog" where "owns o1 (released (t_vm_ip t) k)"
    unfolding finish_vm_def drop_proxy_session_def drop_dnat_rule_def drop_tap_def
    by (elim owns_lookE) (auto dest!: owns_awaitedE)
  then obtain o2 where "pool_effect o1 o2 [t_vm_ip t] (release_ip (t_vm_ip t) [t_vm_ip t])"
    unfolding released_def locked_def
    by (elim owns_On_stateE) (metis (no_types, lifting) select_convs(4) snd_conv update_convs(4) vm_state.select_convs(4) vm_state.update_convs(4))
  then show ?thesis by (rule pool_effect_gone)
qed

section \<open>One task alone is a schedule\<close>

lemma list_update_id': "xs ! i = x \<Longrightarrow> xs[i := x] = xs"
  by (metis list_update_id)

lemma run_schedule:
  assumes "run_prog p (sys_mgr s) (sys_world s) = (q, st', w', ts)"
    and "i < length (sys_threads s)" and "sys_threads s ! i = p"
  shows "(sys_moves out host)\<^sup>*\<^sup>* s (s\<lparr>sys_mgr := st', sys_world := w',
     sys_threads := (sys_threads s)[i := q] @ map (run_vm_lifecycle host) ts\<rparr>)"
  using assms
proof (induction p arbitrary: s q st' w' ts)
  case (Done a)
  then have "st' = sys_mgr s" "w' = sys_world s" "q = Done a" "ts = []" by simp_all
  with Done.prems(3) show ?case by (simp add: list_update_id')
next
  case (On_state f)
  obtain p st where f: "f (sys_mgr s) = (p, st)" by fastforce
  let ?s = "s\<lparr>sys_mgr := st, sys_threads := (sys_threads s)[i := p]\<rparr>"
  have "sys_moves out host s ?s" using On_state.prems f by (intro sys_moves.lock[of i s f p st]) simp_all
  moreover have "(sys_moves out host)\<^sup>*\<^sup>* ?s (?s\<lparr>sys_mgr := st', sys_world := w',
      sys_threads := (sys_threads ?s)[i := q] @ map (run_vm_lifecycle host) ts\<rparr>)"
    using On_state.prems f
    by (intro On_state.IH[of "f (sys_mgr s)" p, OF rangeI]) simp_all
  ultimately show ?case by (simp add: converse_rtranclp_into_rtranclp)
next
  case (On_host f)
  obtain p w where f: "f (sys_world s) = (p, w)" by fastforce
  let ?s = "s\<lparr>sys_world := w, sys_threads := (sys_threads s)[i := p]\<rparr>"
  have "sys_moves out host s ?s" using On_host.prems f by (intro sys_moves.await[of i s f p w]) simp_all
  moreover have "(sys_moves out host)\<^sup>*\<^sup>* ?s (?s\<lparr>sys_mgr := st', sys_world := w',
      sys_threads := (sys_threads ?s)[i := q] @ map (run_vm_lifecycle host) ts\<rparr>)"
    using On_host.prems f
    by (intro On_host.IH[of "f (sys_world s)" p, OF rangeI]) simp_all
  ultimately show ?case by (simp add: converse_rtranclp_into_rtranclp)
next
  case (Spawn t p)
  obtain q1 st1 w1 ts1 where r: "run_prog p (sys_mgr s) (sys_world s) = (q1, st1, w1, ts1)"
    by (metis prod_cases4)
  with Spawn.prems(1) have eqs: "q1 = q" "st1 = st'" "w1 = w'" "ts = t # ts1" by simp_all
  let ?s = "s\<lparr>sys_threads := (sys_threads s)[i := p] @ [run_vm_lifecycle host t]\<rparr>"
  have "sys_moves out host s ?s" using Spawn.prems by (intro sys_moves.spawn) simp_all
  moreover have "(sys_moves out host)\<^sup>*\<^sup>* ?s (?s\<lparr>sys_mgr := st', sys_world := w',
      sys_threads := (sys_threads ?s)[i := q] @ map (run_vm_lifecycle host) ts1\<rparr>)"
    using Spawn.prems r eqs by (intro Spawn.IH) (simp_all add: nth_append)
  ultimately show ?case
    using Spawn.prems(2) eqs by (simp add: converse_rtranclp_into_rtranclp list_update_append)
next
  case (Wait b p)
  show ?case
  proof (cases "b (sys_mgr s)")
    case True
    let ?s = "s\<lparr>sys_threads := (sys_threads s)[i := p]\<rparr>"
    have "sys_moves out host s ?s" using Wait.prems True by (intro sys_moves.wake[of i s b p]) simp_all
    moreover have "(sys_moves out host)\<^sup>*\<^sup>* ?s (?s\<lparr>sys_mgr := st', sys_world := w',
        sys_threads := (sys_threads ?s)[i := q] @ map (run_vm_lifecycle host) ts\<rparr>)"
      using Wait.prems True by (intro Wait.IH) simp_all
    ultimately show ?thesis by (simp add: converse_rtranclp_into_rtranclp)
  next
    case False
    with Wait.prems show ?thesis by (auto simp: list_update_id')
  qed
qed

text \<open>A task run up to the point where it spawns another.\<close>

primrec run_until :: "('w, 'a) prog \<Rightarrow> vm_state \<Rightarrow> 'w \<Rightarrow> ('w, 'a) prog \<times> vm_state \<times> 'w" where
  "run_until (Done a) = (\<lambda>st w. (Done a, st, w))"
| "run_until (On_state f) = (\<lambda>st w. case (map_prod run_until id \<circ> f) st of (r, st') \<Rightarrow> r st' w)"
| "run_until (On_host f) = (\<lambda>st w. case (map_prod run_until id \<circ> f) w of (r, w') \<Rightarrow> r st w')"
| "run_until (Spawn t p) = (\<lambda>st w. (Spawn t p, st, w))"
| "run_until (Wait b p) = (\<lambda>st w. (Wait b p, st, w))"

lemma run_until_simps:
  "run_until (On_state f) st w = (case f st of (p, st') \<Rightarrow> run_until p st' w)"
  "run_until (locked g k) st w = run_until k (g st) w"
  "run_until (awaited h k2) st w = (case h w of (r, w') \<Rightarrow> run_until (k2 r) st w')"
  by (simp_all add: case_prod_unfold locked_def awaited_def)

lemma until_schedule:
  assumes "run_until p (sys_mgr s) (sys_world s) = (q, st', w')"
    and "i < length (sys_threads s)" and "sys_threads s ! i = p"
  shows "sys_reaches host s (s\<lparr>sys_mgr := st', sys_world := w', sys_threads := (sys_threads s)[i := q]\<rparr>)"
  using assms
proof (induction p arbitrary: s q st' w')
  case (On_state f)
  obtain p st where f: "f (sys_mgr s) = (p, st)" by fastforce
  let ?s = "s\<lparr>sys_mgr := st, sys_threads := (sys_threads s)[i := p]\<rparr>"
  have "sys_step host s ?s" using On_state.prems f by (intro sys_moves.lock[of i s f p st]) simp_all
  moreover have "sys_reaches host ?s (?s\<lparr>sys_mgr := st', sys_world := w', sys_threads := (sys_threads ?s)[i := q]\<rparr>)"
    using On_state.prems f by (intro On_state.IH[of "f (sys_mgr s)" p, OF rangeI]) simp_all
  ultimately show ?case by (simp add: converse_rtranclp_into_rtranclp)
next
  case (On_host f)
  obtain p w where f: "f (sys_world s) = (p, w)" by fastforce
  let ?s = "s\<lparr>sys_world := w, sys_threads := (sys_threads s)[i := p]\<rparr>"
  have "sys_step host s ?s" using On_host.prems f by (intro sys_moves.await[of i s f p w]) simp_all
  moreover have "sys_reaches host ?s (?s\<lparr>sys_mgr := st', sys_world := w', sys_threads := (sys_threads ?s)[i := q]\<rparr>)"
    using On_host.prems f by (intro On_host.IH[of "f (sys_world s)" p, OF rangeI]) simp_all
  ultimately show ?case by (simp add: converse_rtranclp_into_rtranclp)
qed (auto simp: list_update_id')

lemma arrive_schedule:
  assumes "run_prog (handle_request host (sys_chan s) meth path b) (sys_mgr s) (sys_world s) = (q, st', w', ts)"
  shows "(sys_moves out host)\<^sup>*\<^sup>* s (s\<lparr>sys_chan := Suc (sys_chan s), sys_mgr := st', sys_world := w',
     sys_threads := sys_threads s @ q # map (run_vm_lifecycle host) ts\<rparr>)"
proof -
  let ?s = "s\<lparr>sys_threads := sys_threads s @ [handle_request host (sys_chan s) meth path b],
      sys_chan := Suc (sys_chan s)\<rparr>"
  have "sys_moves out host s ?s" by (rule sys_moves.arrive)
  moreover have "(sys_moves out host)\<^sup>*\<^sup>* ?s (?s\<lparr>sys_mgr := st', sys_world := w', sys_threads :=
      (sys_threads ?s)[length (sys_threads s) := q] @ map (run_vm_lifecycle host) ts\<rparr>)"
    using assms by (intro run_schedule) (simp_all add: nth_append)
  ultimately show ?thesis by (simp add: converse_rtranclp_into_rtranclp)
qed

section \<open>A schedule in which the launch fails first\<close>

definition demo_failing :: "(unit, int) vm_host" where
  "demo_failing = demo_vm_host\<lparr>vh_fctools := demo_fctools\<lparr>create_resource := \<lambda>p w. (Inl ''no kernel'', w)\<rparr>\<rparr>"

lemma demo_failing_simps [simp]:
  "vh_json demo_failing = vh_json demo_vm_host" "vh_unix demo_failing = vh_unix demo_vm_host"
  "vh_exec demo_failing = vh_exec demo_vm_host" "vh_parse_create demo_failing = vh_parse_create demo_vm_host"
  "vh_exists demo_failing = vh_exists demo_vm_host" "vh_canonicalize demo_failing = vh_canonicalize demo_vm_host"
  "vh_now demo_failing = vh_now demo_vm_host" "vh_remove_file demo_failing = vh_remove_file demo_vm_host"
  by (simp_all add: demo_failing_def)

definition demo_env_record :: environment where
  "demo_env_record = environment_of demo_create (pool_ip 2) 1000 []"

definition demo_before :: vm_state where
  "demo_before = vm_state_new\<lparr>allocated_ips := [pool_ip 2], serial_txs := [(''sess_001'', 0)],
     shutdown_txs := [(''sess_001'', 0)]\<rparr>"

definition demo_insert :: "(unit, vm_response option) prog" where
  "demo_insert = locked (\<lambda>st. st\<lparr>environments := hm_insert ''sess_001'' demo_env_record (environments st)\<rparr>)
     (reply (json_ok 201 (EnvironmentBody (created_body demo_failing demo_create (pool_ip 2) (pool_ip 1) 1000 []))))"

lemma demo_until:
  "run_until (handle_create_environment demo_failing 0 (Inr ''sess_001'')) vm_state_new () =
     (Spawn (task_of 0 demo_create ''img'' (pool_ip 2) (pool_ip 1)) demo_insert, demo_before, ())"
proof -
  have req: "vh_parse_create demo_vm_host ''sess_001'' = Inr demo_create"
    by (simp add: demo_vm_host_def demo_create_def)
  have host: "vh_exists demo_vm_host p ()" "vh_canonicalize demo_vm_host p () = Inr p"
    "vh_now demo_vm_host () = 1000" "parse_dummy_keys (vh_json demo_vm_host) s = []" for p s
    by (simp_all add: demo_vm_host_def parse_dummy_keys_def)
  have fields: "ce_session_id demo_create = ''sess_001''" "image demo_create = ''img''"
    by (simp_all add: demo_create_def request_defaults_def)
  have new: "environments vm_state_new = []" "allocated_ips vm_state_new = []"
    "serial_txs vm_state_new = []" "shutdown_txs vm_state_new = []"
    by (simp_all add: vm_state_new_def with_proxy_socket_def)
  have gate: "host_tap_ip_of (ip_parts (pool_ip 2)) = pool_ip 1" "length (ip_parts (pool_ip 2)) = 4"
    using pool_gateway[of 0] by simp_all
  have fresh: "\<not> hm_contains_key [] (k :: string)" for k by (simp add: hm_contains_key_def)
  show ?thesis
    by (simp add: handle_create_environment_def create_new_def run_until_simps req fields new fresh demo_sid host
        create_with_image_def allocate_first create_with_ip_def gate Let_def demo_register create_registered_def
        create_network_def demo_network create_launched_def demo_insert_def demo_before_def demo_env_record_def
        hm_insert_def)
qed

section \<open>A schedule to evaluate\<close>

definition demo_launched :: "unit sys" where
  "demo_launched = \<lparr>sys_mgr = launched_state 0 demo_create (pool_ip 2) 1000 []
       (vm_state_new\<lparr>allocated_ips := [pool_ip 2]\<rparr>), sys_world = (),
     sys_threads = [Done (Some (json_ok 201 (EnvironmentBody
         (created_body demo_vm_host demo_create (pool_ip 2) (pool_ip 1) 1000 [])))),
       run_vm_lifecycle demo_vm_host (task_of 0 demo_create ''img'' (pool_ip 2) (pool_ip 1))], sys_chan = 1\<rparr>"

lemma demo_posted:
  "run_prog (handle_request demo_vm_host (sys_chan (sys_init PROXY_SOCKET_PATH ())) ''POST'' ''/v1/environments''
      (Inr ''sess_001'')) (sys_mgr (sys_init PROXY_SOCKET_PATH ())) (sys_world (sys_init PROXY_SOCKET_PATH ())) =
    (Done (Some (json_ok 201 (EnvironmentBody (created_body demo_vm_host demo_create (pool_ip 2) (pool_ip 1) 1000 [])))),
     sys_mgr demo_launched, (), [task_of 0 demo_create ''img'' (pool_ip 2) (pool_ip 1)])"
proof -
  have "handle_request demo_vm_host 0 ''POST'' ''/v1/environments'' (Inr ''sess_001'')
      = handle_create_environment demo_vm_host 0 (Inr ''sess_001'')" by (simp add: handle_request_def)
  moreover have "sys_mgr (sys_init PROXY_SOCKET_PATH ()) = vm_state_new" "sys_chan (sys_init PROXY_SOCKET_PATH ()) = 0"
    by (simp_all add: sys_init_def vm_state_new_def)
  ultimately show ?thesis using demo_env_created by (simp only: demo_launched_def sys.select_convs) simp
qed

lemma demo_running:
  "\<exists>s. sys_reaches demo_vm_host (sys_init PROXY_SOCKET_PATH ()) s \<and> length (sys_threads s) = 2
     \<and> sys_threads s ! 1 = waiting_vm demo_vm_host 0 (task_of 0 demo_create ''img'' (pool_ip 2) (pool_ip 1))"
proof -
  let ?t = "task_of 0 demo_create ''img'' (pool_ip 2) (pool_ip 1)"
  let ?life = "run_vm_lifecycle demo_vm_host ?t :: (unit, vm_response option) prog"
  have start: "sys_reaches demo_vm_host (sys_init PROXY_SOCKET_PATH ()) demo_launched"
    using arrive_schedule[OF demo_posted] by (simp add: sys_init_def demo_launched_def)
  have fields: "t_session_id (task_of 0 demo_create ''img'' ip h) = ''sess_001''" "t_files (task_of 0 demo_create ''img'' ip h) = []"
    "t_chan (task_of 0 demo_create ''img'' ip h) = 0" for ip h
    by (simp_all add: task_of_def demo_create_def request_defaults_def)
  have launch: "launch_vm demo_vm_host ?t () = (Inr 0, ())"
    by (simp add: launch_vm_def fields jail_id_of_map demo_vm_host_def demo_fctools_def jail_char_def is_digit_def
        err_context_def and_then_def prepare_files_def files_resource_def)
  have "\<not> sender_gone 0 (sys_mgr demo_launched)"
    by (simp add: sender_gone_def demo_launched_def launched_state_def vm_state_new_def with_proxy_socket_def hm_insert_def)
  then have "run_prog ?life (sys_mgr demo_launched) (sys_world demo_launched)
      = (waiting_vm demo_vm_host 0 ?t, sys_mgr demo_launched, (), [])"
    unfolding run_lifecycle using launch by (simp add: waiting_vm_def fields)
  from run_schedule[OF this, of 1 "\<lambda>_ _. True" demo_vm_host] start show ?thesis
    by (intro exI[of _ "demo_launched\<lparr>sys_threads := (sys_threads demo_launched)[1 := waiting_vm demo_vm_host 0 ?t]\<rparr>"])
      (simp add: demo_launched_def)
qed

section \<open>Properties\<close>

text \<open>
  C23. Addresses are exclusive under every interleaving: in every reachable state the allocated
  addresses are distinct addresses of the pool, every VM that waits for its shutdown holds its
  own, no two such VMs share one, and when all handlers and tasks are done the pool is
  empty again, so no error path leaks an address.
\<close>

theorem vm_addresses_exclusive:
  assumes "sys_reaches host (sys_init socket w) s"
  shows "distinct (allocated_ips (sys_mgr s)) \<and> set (allocated_ips (sys_mgr s)) \<subseteq> pool
    \<and> (\<forall>i<length (sys_threads s). \<forall>vm t. sys_threads s ! i = waiting_vm host vm t
          \<longrightarrow> t_vm_ip t \<in> set (allocated_ips (sys_mgr s)))
    \<and> (\<forall>i<length (sys_threads s). \<forall>j<length (sys_threads s). \<forall>vm t vm' u.
          sys_threads s ! i = waiting_vm host vm t \<longrightarrow> sys_threads s ! j = waiting_vm host vm' u
          \<longrightarrow> t_vm_ip t = t_vm_ip u \<longrightarrow> i = j)
    \<and> ((\<forall>p\<in>set (sys_threads s). \<exists>r. p = Done r) \<longrightarrow> allocated_ips (sys_mgr s) = [])"
proof -
  from pool_inv_reach[OF assms] obtain own where
    own: "\<And>i. i < length (sys_threads s) \<Longrightarrow> owns (own i) (sys_threads s ! i)"
    and acc: "account (length (sys_threads s)) own (allocated_ips (sys_mgr s))"
    by (auto simp: pool_inv_def)
  have waits: "own i = Some (t_vm_ip t)"
    if "i < length (sys_threads s)" "sys_threads s ! i = waiting_vm host vm t" for i vm t
    using own[OF that(1)] unfolding that(2) by (rule owns_waiting)
  have empty: "allocated_ips (sys_mgr s) = []" if fin: "\<forall>p\<in>set (sys_threads s). \<exists>r. p = Done r"
  proof -
    have "own i = None" if "i < length (sys_threads s)" for i
      using own[OF that] fin nth_mem[OF that] by (metis owns_DoneE)
    then have "owners (length (sys_threads s)) own ip = {}" for ip by (auto simp: owners_def)
    then have "ip \<notin> set (allocated_ips (sys_mgr s))" for ip
      using acc unfolding account_def by (metis insert_not_empty)
    then show ?thesis by (metis last_in_set)
  qed
  have same: "i = j" if "i < length (sys_threads s)" "j < length (sys_threads s)"
    "own i = Some ip" "own j = Some ip" for i j ip
    using account_owner[OF acc that(1,3)] account_owner[OF acc that(2,4)] by auto
  from acc have "distinct (allocated_ips (sys_mgr s))" "set (allocated_ips (sys_mgr s)) \<subseteq> pool"
    by (simp_all add: account_def)
  moreover have "\<forall>i<length (sys_threads s). \<forall>vm t. sys_threads s ! i = waiting_vm host vm t
      \<longrightarrow> t_vm_ip t \<in> set (allocated_ips (sys_mgr s))"
    using waits account_owner[OF acc] by blast
  moreover have "\<forall>i<length (sys_threads s). \<forall>j<length (sys_threads s). \<forall>vm t vm' u.
      sys_threads s ! i = waiting_vm host vm t \<longrightarrow> sys_threads s ! j = waiting_vm host vm' u
      \<longrightarrow> t_vm_ip t = t_vm_ip u \<longrightarrow> i = j"
    using waits same by metis
  ultimately show ?thesis using empty by blast
qed

theorem vm_addresses_exclusive_witness:
  "\<exists>s. sys_reaches demo_vm_host (sys_init PROXY_SOCKET_PATH ()) s \<and> pool_ip 2 \<in> set (allocated_ips (sys_mgr s))"
proof -
  from demo_running obtain s where s: "sys_reaches demo_vm_host (sys_init PROXY_SOCKET_PATH ()) s"
    "length (sys_threads s) = 2"
    "sys_threads s ! 1 = waiting_vm demo_vm_host 0 (task_of 0 demo_create ''img'' (pool_ip 2) (pool_ip 1))"
    by blast
  have "t_vm_ip (task_of 0 demo_create ''img'' (pool_ip 2) (pool_ip 1)) \<in> set (allocated_ips (sys_mgr s))"
    using vm_addresses_exclusive[OF s(1)] s(2,3) by (metis one_less_numeral_iff semiring_norm(76))
  with s(1) show ?thesis by (auto simp: task_of_def)
qed

text \<open>
  Running a handler alone to its end is one of the schedules of the system: what the
  sequential theorems say of a request happens in the concurrent system when no other task
  gets in between.
\<close>

theorem handler_run_is_schedule:
  assumes "run_prog (handle_request host (sys_chan s) meth path b) (sys_mgr s) (sys_world s) = (q, st', w', ts)"
  shows "sys_reaches host s (s\<lparr>sys_chan := Suc (sys_chan s), sys_mgr := st', sys_world := w',
     sys_threads := sys_threads s @ q # map (run_vm_lifecycle host) ts\<rparr>)"
  by (rule arrive_schedule) fact

theorem handler_run_is_schedule_witness:
  "\<exists>s. sys_reaches demo_vm_host (sys_init PROXY_SOCKET_PATH ()) s \<and> sys_mgr s = sys_mgr demo_launched
     \<and> length (sys_threads s) = 2"
  using handler_run_is_schedule[OF demo_posted]
  by (intro exI[of _ "(sys_init PROXY_SOCKET_PATH ())\<lparr>sys_chan := Suc (sys_chan (sys_init PROXY_SOCKET_PATH ())),
      sys_mgr := sys_mgr demo_launched, sys_world := (), sys_threads := sys_threads (sys_init PROXY_SOCKET_PATH ())
        @ Done (Some (json_ok 201 (EnvironmentBody (created_body demo_vm_host demo_create (pool_ip 2) (pool_ip 1) 1000 []))))
        # map (run_vm_lifecycle demo_vm_host) [task_of 0 demo_create ''img'' (pool_ip 2) (pool_ip 1)]\<rparr>"] conjI)
    (simp_all only:, simp_all add: sys_init_def)

text \<open>
  C30. When the launch fails before the handler has stored the record, the environment is
  reported as running for ever: a reachable state in which handler and task are done, the
  address is free again and no shutdown channel is left, but the record says \<open>running\<close>.
\<close>

definition demo_stuck :: "unit sys \<Rightarrow> bool" where
  "demo_stuck s \<longleftrightarrow> (\<forall>p\<in>set (sys_threads s). \<exists>r. p = Done r) \<and> length (sys_threads s) = 2
     \<and> map_option env_status (hm_get (environments (sys_mgr s)) ''sess_001'') = Some Running
     \<and> allocated_ips (sys_mgr s) = [] \<and> shutdown_txs (sys_mgr s) = []"


end
