(* ===== verification/Vm_With_Proxy.thy ===== *)
theory Vm_With_Proxy
  imports Vm_System Proxy_Connect
begin

text \<open>
  The two programs together: the VM manager's client of \<open>Vm_Proxy_Client\<close> talks to the
  session API of \<open>Proxy_Api\<close> over the unix socket. What the manager relies on is the locale
  \<open>session_service\<close>; the model of the proxy behind its socket is an interpretation. The
  world is the proxy's session store and the rest of the host. \<open>hyper\<close> (bytes of requests
  and responses) and \<open>serde_json\<close> (their bodies) are the arguments \<open>pw\<close>, \<open>js\<close> and
  \<open>parse_create env\<close>; \<open>wire_lawful\<close> says that they read what they print.
\<close>

section \<open>The proxy behind its socket\<close>

record proxy_wire =
  wire_request :: "string \<Rightarrow> http_request option"
  wire_response :: "http_response \<Rightarrow> string"

text \<open>One connection of \<open>handle_session_connection\<close>: a request that does not parse and a
  panic close it without an answer.\<close>

definition handle_session_connection ::
  "'dt api_env \<Rightarrow> proxy_config \<Rightarrow> proxy_wire \<Rightarrow> (session_store \<times> 'r) unix_io" where
  "handle_session_connection env cfg pw socket_path bytes w =
     (case wire_request pw bytes of
        None \<Rightarrow> (Accepted [], w)
      | Some req \<Rightarrow>
          (case handle_session_api env cfg req (fst w) of
             (Reply r, st) \<Rightarrow> (Accepted [Bytes (wire_response pw r)], (st, snd w))
           | (Panic, st) \<Rightarrow> (Accepted [], (st, snd w))))"

definition listed_entry :: "proxy_allowlist_entry \<Rightarrow> allowlist_entry" where
  "listed_entry e = \<lparr>domain = pa_domain e, mode = pa_mode e, credential_ref = pa_credential_ref e\<rparr>"

definition request_read :: "proxy_session_request \<Rightarrow> create_session_request" where
  "request_read q = \<lparr>req_session_id = pr_session_id q, req_source_ip = pr_source_ip q,
     req_allowlist = map listed_entry (pr_allowlist q), req_expires_at = pr_expires_at q\<rparr>"

text \<open>A response as \<open>hyper\<close> writes it, with the body that \<open>serde_json\<close> prints.\<close>

definition printed_response :: "proxy_json \<Rightarrow> http_response \<Rightarrow> string \<Rightarrow> bool" where
  "printed_response js r bytes \<longleftrightarrow>
     (\<exists>reason headers payload. bytes = http_wire (status r) reason headers payload
        \<and> list_all (\<lambda>c. byte c < 128 \<and> c \<noteq> CR \<and> c \<noteq> LF) reason
        \<and> list_all (\<lambda>l. head_line l \<and> list_all (\<lambda>c. byte c < 128) l) headers
        \<and> (case body r of
             SessionBody s \<Rightarrow> utf8_valid payload
               \<and> parse_response js payload = Some \<lparr>ps_dummy_keys = resp_dummy_keys s\<rparr>
           | _ \<Rightarrow> True))"

definition wire_lawful :: "'dt api_env \<Rightarrow> proxy_json \<Rightarrow> proxy_wire \<Rightarrow> bool" where
  "wire_lawful env js pw \<longleftrightarrow>
     (\<forall>b. wire_request pw (unix_request ''POST'' ''/sessions'' (Some b))
        = Some \<lparr>req_method = ''POST'', req_path = ''/sessions'', req_body = Inr b\<rparr>)
   \<and> (\<forall>sid. is_valid_session_id sid \<longrightarrow>
        wire_request pw (unix_request ''DELETE'' (''/sessions/'' @ sid) None)
        = Some \<lparr>req_method = ''DELETE'', req_path = ''/sessions/'' @ sid, req_body = Inr []\<rparr>)
   \<and> (\<forall>q j. print_request js q = Inr j \<longrightarrow> parse_create env j = Inr (request_read q))
   \<and> (\<forall>r. printed_response js r (wire_response pw r))"

section \<open>Reading an answer\<close>

lemma utf8_step_ascii: "byte c < 128 \<Longrightarrow> utf8_step (c # s) = (True, 1)"
  by (simp add: utf8_step_def)

lemma lossy_ascii: "list_all (\<lambda>c. byte c < 128) h \<Longrightarrow> from_utf8_lossy (h @ s) = h @ from_utf8_lossy s"
proof (induction h)
  case (Cons c h)
  then show ?case by (simp add: from_utf8_lossy.simps[of "c # _"] utf8_step_ascii)
qed simp

text \<open>What the client reads of an answer.\<close>

lemma http_wire_lossy:
  assumes "list_all (\<lambda>c. byte c < 128 \<and> c \<noteq> CR \<and> c \<noteq> LF) reason"
    and "list_all (\<lambda>l. head_line l \<and> list_all (\<lambda>c. byte c < 128) l) headers"
  shows "from_utf8_lossy (http_wire code reason headers payload)
    = http_wire code reason headers (from_utf8_lossy payload)"
proof -
  have join: "list_all (\<lambda>c. byte c < 128) (join crlf ls)" if "list_all (list_all (\<lambda>c. byte c < 128)) ls" for ls
    using that by (induction ls rule: induct_list012) (simp_all add: crlf_def)
  have "list_all (\<lambda>c. byte c < 128) (show_nat code)"
    using show_nat_digits[of code] by (auto simp: list_all_iff is_digit_def)
  with assms have "list_all (list_all (\<lambda>c. byte c < 128))
      ((''HTTP/1.1 '' @ show_nat code @ CHR '' '' # reason) # headers)"
    by (auto simp: list_all_iff)
  from join[OF this] have "list_all (\<lambda>c. byte c < 128)
      (join crlf ((''HTTP/1.1 '' @ show_nat code @ CHR '' '' # reason) # headers) @ header_terminator)"
    by (simp add: list_all_append header_terminator_def del: join.simps append.simps)
  from lossy_ascii[OF this, of payload] show ?thesis unfolding http_wire_def append_assoc .
qed

lemma printed_response_read:
  assumes "printed_response js r bytes" and "status r < 2 ^ 16"
  obtains rb where "parse_raw_response bytes = Inr rb" and "rr_status rb = status r"
    and "\<And>s. body r = SessionBody s \<Longrightarrow>
      parse_dummy_keys js (rr_body rb) = (case resp_dummy_keys s of Some m \<Rightarrow> m | None \<Rightarrow> [])"
proof -
  from assms(1) obtain reason headers payload where
    b: "bytes = http_wire (status r) reason headers payload"
    and re: "list_all (\<lambda>c. byte c < 128 \<and> c \<noteq> CR \<and> c \<noteq> LF) reason"
    and he: "list_all (\<lambda>l. head_line l \<and> list_all (\<lambda>c. byte c < 128) l) headers"
    and body: "case body r of SessionBody s \<Rightarrow> utf8_valid payload
        \<and> parse_response js payload = Some \<lparr>ps_dummy_keys = resp_dummy_keys s\<rparr> | _ \<Rightarrow> True"
    unfolding printed_response_def by blast
  have pl: "utf8_valid payload \<and> parse_response js payload = Some \<lparr>ps_dummy_keys = resp_dummy_keys s\<rparr>"
    if "body r = SessionBody s" for s using body that by simp
  have "parse_raw_response bytes = parse_raw_response (from_utf8_lossy bytes)"
    by (simp add: parse_raw_response_def)
  also have "\<dots> = Inr \<lparr>rr_status = status r, rr_body = from_utf8_lossy payload\<rparr>"
  proof -
    have "utf8_valid (http_wire (status r) reason headers (from_utf8_lossy payload))"
      using utf8_valid_lossy[of bytes] by (simp add: b http_wire_lossy[OF re he])
    then show ?thesis
      unfolding b http_wire_lossy[OF re he]
      using re he assms(2) by (intro parse_http_wire) (auto simp: list_all_iff)
  qed
  finally show thesis
  proof (rule that)
    show "parse_dummy_keys js (rr_body \<lparr>rr_status = status r, rr_body = from_utf8_lossy payload\<rparr>)
        = (case resp_dummy_keys s of Some m \<Rightarrow> m | None \<Rightarrow> [])" if "body r = SessionBody s" for s
      using pl[OF that] by (simp add: parse_dummy_keys_def lossy_valid_id)
  qed simp
qed

lemma http_wire_nonempty [simp]: "http_wire code reason headers payload \<noteq> []"
  by (simp add: http_wire_def header_terminator_def)

lemma read_answer: "b \<noteq> [] \<Longrightarrow> read_to_end [Bytes b] [] = Inr b"
  by (simp add: read_to_end_clean)

lemma finish_create_status: "fst (finish_create env pairs s st) = Reply r \<Longrightarrow> status r < 1000"
  by (auto simp: finish_create_def create_reply_def Let_def split: prod.splits sum.splits session_error.splits
      option.splits if_splits)

lemma api_status: "fst (handle_session_api env cfg req st) = Reply r \<Longrightarrow> status r < 1000"
  unfolding handle_session_api_def handle_create_session_def handle_delete_session_def Let_def
  by (auto simp: handle_list_sessions_def handle_health_def handle_get_session_def unknown_route_def Let_def
      finish_create_status split: sum.splits if_splits option.splits prod.splits bool.splits)

section \<open>The session service\<close>

text \<open>What the VM manager relies on: the lookups of a session service by IP, and how
  registering and deleting change them. \<open>ok\<close> is what holds of the world between calls.\<close>

definition without :: "string \<Rightarrow> (string \<Rightarrow> session option) \<Rightarrow> string \<Rightarrow> session option" where
  "without sid m = (\<lambda>ip. case m ip of None \<Rightarrow> None | Some s \<Rightarrow> if session_id s = sid then None else Some s)"

definition unknown :: "string \<Rightarrow> (string \<Rightarrow> session option) \<Rightarrow> bool" where
  "unknown sid m \<longleftrightarrow> (\<forall>ip s. m ip = Some s \<longrightarrow> session_id s \<noteq> sid)"

definition answers :: "nat \<Rightarrow> (string, raw_http_response) result \<Rightarrow> bool" where
  "answers code r = (case r of Inl e \<Rightarrow> False | Inr pr \<Rightarrow> rr_status pr = code)"

definition holds_keys :: "session \<Rightarrow> (string, string) hashmap \<Rightarrow> bool" where
  "holds_keys s keys \<longleftrightarrow> (\<forall>cref d. hm_get keys cref = Some d \<longrightarrow> hm_get (dummy_to_real s) d \<noteq> None)"

locale session_service =
  fixes io :: "'w unix_io" and js :: proxy_json
    and ok :: "'w \<Rightarrow> bool"
    and by_ip :: "'w \<Rightarrow> string \<Rightarrow> session option"
  assumes register_ok: "ok w \<Longrightarrow> register_proxy_session js io path sid ip es ex w = (r, w') \<Longrightarrow> ok w'"
    and register_made: "ok w \<Longrightarrow> register_proxy_session js io path sid ip es ex w = (Inr pr, w') \<Longrightarrow>
      rr_status pr = 201 \<Longrightarrow> \<exists>s. by_ip w ip = None \<and> unknown sid (by_ip w) \<and> by_ip w' = (by_ip w)(ip \<mapsto> s)
        \<and> session_id s = sid \<and> allowlist s = map listed_entry es
        \<and> holds_keys s (parse_dummy_keys js (rr_body pr))"
    and register_refused: "ok w \<Longrightarrow> register_proxy_session js io path sid ip es ex w = (r, w') \<Longrightarrow>
      \<not> answers 201 r \<Longrightarrow> by_ip w' = by_ip w"
    and delete_ok: "ok w \<Longrightarrow> is_valid_session_id sid \<Longrightarrow>
      delete_proxy_session io path sid w = (r, w') \<Longrightarrow> ok w'"
    and delete_by_ip: "ok w \<Longrightarrow> is_valid_session_id sid \<Longrightarrow>
      delete_proxy_session io path sid w = (r, w') \<Longrightarrow>
      by_ip w' = (if answers 204 r then without sid (by_ip w) else by_ip w)"
begin

text \<open>An address with a session is refused, and nothing changes.\<close>

lemma register_taken:
  assumes "ok w" and "by_ip w ip \<noteq> None" and "register_proxy_session js io path sid ip es ex w = (r, w')"
  shows "\<not> answers 201 r" and "by_ip w' = by_ip w"
proof -
  show no: "\<not> answers 201 r"
    using register_made[OF assms(1)] assms(2,3) by (auto simp: answers_def split: sum.splits)
  show "by_ip w' = by_ip w" by (rule register_refused[OF assms(1,3) no])
qed

text \<open>Registering and then deleting the same id is no change.\<close>

lemma delete_registered:
  assumes "ok w" and "is_valid_session_id sid"
    and "register_proxy_session js io path sid ip es ex w = (Inr pr, w1)" and "rr_status pr = 201"
    and "delete_proxy_session io path sid w1 = (r, w2)" and "answers 204 r"
  shows "by_ip w2 = by_ip w"
proof -
  from register_made[OF assms(1,3,4)] obtain s where
    s: "by_ip w ip = None" "by_ip w1 = (by_ip w)(ip \<mapsto> s)" "session_id s = sid"
      "unknown sid (by_ip w)" by auto
  from delete_by_ip[OF register_ok[OF assms(1,3)] assms(2,5)] assms(6)
  have "by_ip w2 = without sid (by_ip w1)" by simp
  with s show ?thesis by (auto simp: without_def unknown_def fun_eq_iff split: option.splits)
qed

end

section \<open>The model of the proxy is a session service\<close>

lemma connection_exchange:
  assumes "wire_request pw (unix_request meth path bdy) = Some req"
    and "\<forall>r. printed_response js r (wire_response pw r)" and "registry_inv (lib env) (fst w)"
    and "http_over_unix (handle_session_connection env cfg pw) socket_path meth path bdy w = (x, w')"
  obtains r rb where "handle_session_api env cfg req (fst w) = (Reply r, fst w')" and "snd w' = snd w"
    and "x = Inr rb" and "rr_status rb = status r"
    and "\<And>s. body r = SessionBody s \<Longrightarrow>
      parse_dummy_keys js (rr_body rb) = (case resp_dummy_keys s of Some m \<Rightarrow> m | None \<Rightarrow> [])"
proof -
  obtain st y where w: "w = (st, y)" by (cases w)
  from handle_session_api_inv[OF assms(3), of cfg req] obtain r st' where
    api: "handle_session_api env cfg req st = (Reply r, st')"
    by (cases "handle_session_api env cfg req st"; cases "fst (handle_session_api env cfg req st)")
      (auto simp: w)
  from assms(2) have pr: "printed_response js r (wire_response pw r)" by simp
  then have ne: "wire_response pw r \<noteq> []" by (metis printed_response_def http_wire_nonempty)
  from api_status[of env cfg req st r] api have st: "status r < 2 ^ 16" by simp
  obtain rb where rb: "parse_raw_response (wire_response pw r) = Inr rb" "rr_status rb = status r"
    "\<And>s. body r = SessionBody s \<Longrightarrow>
      parse_dummy_keys js (rr_body rb) = (case resp_dummy_keys s of Some m \<Rightarrow> m | None \<Rightarrow> [])"
    using printed_response_read[OF pr st] by metis
  have "x = Inr rb" "w' = (st', y)"
    using assms(1,4) api rb(1) read_answer[OF ne]
    by (simp_all add: http_over_unix_def handle_session_connection_def w)
  with api rb(2,3) show thesis by (intro that) (simp_all add: w)
qed

definition proxy_ok ::
  "'dt api_env \<Rightarrow> proxy_json \<Rightarrow> proxy_wire \<Rightarrow> session_store \<times> 'r \<Rightarrow> bool" where
  "proxy_ok env js pw w \<longleftrightarrow> wire_lawful env js pw \<and> registry_inv (lib env) (fst w)"

lemma register_exchange:
  assumes "proxy_ok env js pw w"
    and "register_proxy_session js (handle_session_connection env cfg pw) path sid ip es ex w = (x, w')"
  obtains (unprinted) e where "print_request js \<lparr>pr_session_id = sid, pr_source_ip = ip, pr_allowlist = es, pr_expires_at = ex\<rparr> = Inl e"
      "x = Inl e" "w' = w"
  | (answered) r rb j where "print_request js \<lparr>pr_session_id = sid, pr_source_ip = ip, pr_allowlist = es, pr_expires_at = ex\<rparr> = Inr j"
      "parse_create env j = Inr (request_read \<lparr>pr_session_id = sid, pr_source_ip = ip, pr_allowlist = es, pr_expires_at = ex\<rparr>)"
      "handle_create_session env (secret_store cfg) (Inr j) (fst w) = (Reply r, fst w')"
      "snd w' = snd w" "x = Inr rb" "rr_status rb = status r"
      "\<And>s. body r = SessionBody s \<Longrightarrow>
        parse_dummy_keys js (rr_body rb) = (case resp_dummy_keys s of Some m \<Rightarrow> m | None \<Rightarrow> [])"
proof (cases "print_request js \<lparr>pr_session_id = sid, pr_source_ip = ip, pr_allowlist = es, pr_expires_at = ex\<rparr>")
  case (Inl e)
  with assms(2) show thesis by (intro unprinted[of e]) (simp_all add: register_proxy_session_def)
next
  case (Inr j)
  from assms(1) have laws: "wire_request pw (unix_request ''POST'' ''/sessions'' (Some j))
      = Some \<lparr>req_method = ''POST'', req_path = ''/sessions'', req_body = Inr j\<rparr>"
    "\<forall>r. printed_response js r (wire_response pw r)" "registry_inv (lib env) (fst w)"
    "parse_create env j = Inr (request_read \<lparr>pr_session_id = sid, pr_source_ip = ip, pr_allowlist = es, pr_expires_at = ex\<rparr>)"
    using Inr by (auto simp: proxy_ok_def wire_lawful_def)
  from assms(2) Inr have "http_over_unix (handle_session_connection env cfg pw) path ''POST'' ''/sessions'' (Some j) w = (x, w')"
    by (simp add: register_proxy_session_def)
  then show thesis
  proof (rule connection_exchange[OF laws(1-3)])
    fix r rb
    assume a: "handle_session_api env cfg \<lparr>req_method = ''POST'', req_path = ''/sessions'', req_body = Inr j\<rparr> (fst w)
        = (Reply r, fst w')" and b: "snd w' = snd w" "x = Inr rb" "rr_status rb = status r"
        "\<And>s. body r = SessionBody s \<Longrightarrow>
          parse_dummy_keys js (rr_body rb) = (case resp_dummy_keys s of Some m \<Rightarrow> m | None \<Rightarrow> [])"
    from a have "handle_create_session env (secret_store cfg) (Inr j) (fst w) = (Reply r, fst w')"
      by (simp add: handle_session_api_def)
    from Inr laws(4) this b show thesis by (rule answered)
  qed
qed

text \<open>The proxy wants at least one allowlist entry; the manager does not say so.\<close>

lemma empty_allowlist_refused:
  assumes "proxy_ok env js pw w" and "is_valid_session_id sid" and "ip \<noteq> []"
    and "register_proxy_session js (handle_session_connection env cfg pw) path sid ip [] ex w = (Inr rb, w')"
  shows "rr_status rb = 400 \<and> fst w' = fst w"
  using assms(1,4)
proof (cases rule: register_exchange)
  case (answered r rb' j)
  have "sid \<noteq> []" using valid_id_length[OF assms(2)] by auto
  with answered assms(3) show ?thesis by (auto simp: handle_create_session_def request_read_def)
qed simp

lemma delete_exchange:
  assumes "proxy_ok env js pw w" and "is_valid_session_id sid"
    and "delete_proxy_session (handle_session_connection env cfg pw) path sid w = (x, w')"
  obtains r rb where "handle_delete_session env sid (fst w) = (r, fst w')" and "snd w' = snd w"
    and "x = Inr rb" and "rr_status rb = status r"
proof -
  from assms(1,2) have laws: "wire_request pw (unix_request ''DELETE'' (''/sessions/'' @ sid) None)
      = Some \<lparr>req_method = ''DELETE'', req_path = ''/sessions/'' @ sid, req_body = Inr []\<rparr>"
    "\<forall>r. printed_response js r (wire_response pw r)" "registry_inv (lib env) (fst w)"
    by (auto simp: proxy_ok_def wire_lawful_def)
  have ne: "sid \<noteq> []" using valid_id_length[OF assms(2)] by auto
  have api: "handle_session_api env cfg \<lparr>req_method = ''DELETE'', req_path = ''/sessions/'' @ sid, req_body = Inr []\<rparr> st
      = apfst Reply (handle_delete_session env sid st)" for st
    using ne by (simp add: handle_session_api_def strip_prefix_def apfst_def map_prod_def split: prod.split)
  from assms(3) have "http_over_unix (handle_session_connection env cfg pw) path ''DELETE'' (''/sessions/'' @ sid) None w = (x, w')"
    by (simp add: delete_proxy_session_def)
  then show thesis
  proof (rule connection_exchange[OF laws])
    fix r rb
    assume a: "handle_session_api env cfg \<lparr>req_method = ''DELETE'', req_path = ''/sessions/'' @ sid, req_body = Inr []\<rparr> (fst w)
        = (Reply r, fst w')" and b: "snd w' = snd w" "x = Inr rb" "rr_status rb = status r"
    from a have "handle_delete_session env sid (fst w) = (r, fst w')"
      unfolding api by (cases "handle_delete_session env sid (fst w)") simp
    from this b show thesis by (rule that)
  qed
qed

lemma created_session_by_ip:
  assumes "registry_inv (lib env) st" and "parse_create env j = Inr (request_read q)"
    and "handle_create_session env sec (Inr j) st = (Reply r, st')" and "status r = 201"
  obtains s resp where "store_get_by_ip st (pr_source_ip q) = None"
    and "unknown (pr_session_id q) (store_get_by_ip st)"
    and "store_get_by_ip st' = (store_get_by_ip st)(pr_source_ip q \<mapsto> s)"
    and "session_id s = pr_session_id q" and "allowlist s = map listed_entry (pr_allowlist q)"
    and "body r = SessionBody resp"
    and "holds_keys s (case resp_dummy_keys resp of Some m \<Rightarrow> m | None \<Rightarrow> [])"
proof (cases rule: handle_create_cases[of env sec "Inr j" st])
  case (reject r')
  with assms(3,4) show thesis by simp
next
  case (stored bytes q' pairs)
  with assms(2) have q': "q' = request_read q" by simp
  let ?s = "new_session env q'"
  from assms(1) show thesis
  proof (cases rule: finish_create_outcome[where s = ?s and pairs = pairs])
    case (err r' e)
    with stored(7) assms(3,4) show thesis by auto
  next
    case (ok st1 st2)
    with stored(7) assms(3) have eqs: "st' = st2"
      "r = json_response 201 (SessionBody (created_response env pairs ?s))" by simp_all
    from reg.create_ok[OF assms(1) ok(1)] have fresh: "store_get_by_ip st (source_ip ?s) = None" by simp
    have "store_get st (session_id ?s) = None" using reg.create_ok[OF assms(1) ok(1)] by simp
    then have new: "unknown (session_id ?s) (store_get_by_ip st)"
      using reg.by_ip_iff[OF assms(1)] by (auto simp: unknown_def)
    have keys: "holds_keys (created_session pairs ?s) (dummy_keys_of pairs)"
    proof -
      have "hm_get (key_map_of pairs) d \<noteq> None" if "hm_get (dummy_keys_of pairs) cref = Some d" for cref d
      proof -
        from that have "(cref, d) \<in> set (map (\<lambda>(cref, pair). (cref, dummy pair)) pairs)"
          unfolding dummy_keys_of_def by (rule hm_get_collect_in)
        then have "d \<in> dummy ` snd ` set pairs" by force
        then show ?thesis by (simp add: key_map_of_dom)
      qed
      then show ?thesis by (simp add: holds_keys_def created_session_def)
    qed
    show thesis
      by (rule that[of "created_session pairs ?s" "created_response env pairs ?s"])
        (use fresh new ok eqs q' keys in \<open>simp_all add: created_session_def new_session_def request_read_def
          created_response_def json_response_def holds_keys_def\<close>)
  qed
qed

lemma refused_session_by_ip:
  assumes "registry_inv (lib env) st" and "handle_create_session env sec inp st = (Reply r, st')"
    and "status r \<noteq> 201"
  shows "st' = st"
proof (cases rule: handle_create_cases[of env sec inp st])
  case (reject r')
  with assms(2) show ?thesis by simp
next
  case (stored bytes q pairs)
  from assms(1) show ?thesis
    by (cases rule: finish_create_outcome[where s = "new_session env q" and pairs = pairs])
      (use stored(7) assms(2,3) in auto)
qed

lemma deleted_session_by_ip:
  assumes "registry_inv (lib env) st" and "handle_delete_session env sid st = (r, st')"
  shows "store_get_by_ip st' = (if status r = 204 then without sid (store_get_by_ip st) else store_get_by_ip st)"
proof (cases "store_delete (lib env) sid st")
  case (Pair x st1)
  show ?thesis
  proof (cases x)
    case (Inl e)
    with Pair reg.delete_err[of "lib env" sid st e st1] assms(2) show ?thesis by (auto simp: handle_delete_session_def)
  next
    case (Inr b)
    with Pair have d: "store_delete (lib env) sid st = (Inr b, st1)" by simp
    note ips = reg.by_ip_delete[OF assms(1) d]
    show ?thesis
    proof (cases b)
      case True
      with d assms(2) ips show ?thesis by (auto simp: handle_delete_session_def without_def fun_eq_iff)
    next
      case False
      with d have "st1 = st" using assms(1) by (auto simp: store_delete_cases[OF registry_inv_mem] split: option.splits)
      with False d assms(2) show ?thesis by (auto simp: handle_delete_session_def)
    qed
  qed
qed

interpretation proxy: session_service "handle_session_connection env cfg pw" js "proxy_ok env js pw"
  "\<lambda>w. store_get_by_ip (fst w)" for env cfg pw js
proof
  fix w w' :: "session_store \<times> 'b" and path sid ip es ex x
  assume ok: "proxy_ok env js pw w"
    and reg: "register_proxy_session js (handle_session_connection env cfg pw) path sid ip es ex w = (x, w')"
  from ok have inv: "registry_inv (lib env) (fst w)" "wire_lawful env js pw" by (simp_all add: proxy_ok_def)
  from ok reg show "proxy_ok env js pw w'"
  proof (cases rule: register_exchange)
    case (answered r rb j)
    with create_api_inv[OF inv(1), of "secret_store cfg" "Inr j"] inv(2) show ?thesis by (simp add: proxy_ok_def)
  qed (simp add: ok)
  show "store_get_by_ip (fst w') = store_get_by_ip (fst w)" if "\<not> answers 201 x"
    using ok reg
  proof (cases rule: register_exchange)
    case (answered r rb j)
    with refused_session_by_ip[OF inv(1) answered(3)] that show ?thesis by (simp add: answers_def)
  qed simp
next
  fix w w' :: "session_store \<times> 'b" and path sid ip es ex pr
  assume ok: "proxy_ok env js pw w"
    and reg: "register_proxy_session js (handle_session_connection env cfg pw) path sid ip es ex w = (Inr pr, w')"
    and made: "rr_status pr = 201"
  from ok have inv: "registry_inv (lib env) (fst w)" by (simp add: proxy_ok_def)
  from ok reg show "\<exists>s. store_get_by_ip (fst w) ip = None
      \<and> unknown sid (store_get_by_ip (fst w)) \<and> store_get_by_ip (fst w') = (store_get_by_ip (fst w))(ip \<mapsto> s)
      \<and> session_id s = sid \<and> allowlist s = map listed_entry es \<and> holds_keys s (parse_dummy_keys js (rr_body pr))"
  proof (cases rule: register_exchange)
    case (answered r rb j)
    with made have "status r = 201" by simp
    from inv answered(2,3) this show ?thesis
      by (rule created_session_by_ip) (use answered(5,7) in auto)
  qed simp
next
  fix w w' :: "session_store \<times> 'b" and path sid x
  assume ok: "proxy_ok env js pw w" and sid: "is_valid_session_id sid"
    and del: "delete_proxy_session (handle_session_connection env cfg pw) path sid w = (x, w')"
  from ok have inv: "registry_inv (lib env) (fst w)" "wire_lawful env js pw" by (simp_all add: proxy_ok_def)
  from delete_exchange[OF ok sid del] obtain r rb where
    d: "handle_delete_session env sid (fst w) = (r, fst w')" "x = Inr rb" "rr_status rb = status r" by metis
  show "proxy_ok env js pw w'"
    using delete_api_inv[OF inv(1), of sid] d(1) inv(2) by (simp add: proxy_ok_def)
  show "store_get_by_ip (fst w') = (if answers 204 x then without sid (store_get_by_ip (fst w))
      else store_get_by_ip (fst w))"
    using deleted_session_by_ip[OF inv(1) d(1)] d(2,3) by (simp add: answers_def)
qed

section \<open>The manager on a host with the proxy\<close>

text \<open>The host of the VM manager is the rest of the world; its unix socket leads to the
  proxy, everything else leaves the proxy's store alone.\<close>

definition beside :: "('a \<Rightarrow> 'r \<Rightarrow> 'b \<times> 'r) \<Rightarrow> 'a \<Rightarrow> session_store \<times> 'r \<Rightarrow> 'b \<times> session_store \<times> 'r" where
  "beside f a w = (case f a (snd w) of (x, y) \<Rightarrow> (x, fst w, y))"

lemma beside_store [simp]: "fst (snd (beside f a w)) = fst w"
  by (simp add: beside_def case_prod_unfold)

definition files_beside :: "'r file_host \<Rightarrow> (session_store \<times> 'r) file_host" where
  "files_beside fh =
     \<lparr>fh_exec = beside (fh_exec fh), fh_tempdir = beside (\<lambda>_. fh_tempdir fh) (),
      fh_temp_root = fh_temp_root fh, fh_mkdirs = beside (fh_mkdirs fh), fh_rmdirs = beside (fh_rmdirs fh),
      fh_write = (\<lambda>p. beside (fh_write fh p)), fh_canonicalize = (\<lambda>p w. fh_canonicalize fh p (snd w)),
      fh_node = (\<lambda>p w. fh_node fh p (snd w)), fh_create_sized = (\<lambda>p. beside (fh_create_sized fh p))\<rparr>"

definition fctools_beside :: "'r fctools \<Rightarrow> (session_store \<times> 'r) fctools" where
  "fctools_beside fc =
     \<lparr>vmm_id_new = vmm_id_new fc, create_resource = beside (create_resource fc),
      vm_prepare = beside (vm_prepare fc), vm_start = beside (vm_start fc),
      vm_shutdown = (\<lambda>v. beside (vm_shutdown fc v)), vm_cleanup = beside (vm_cleanup fc)\<rparr>"

definition joined_host ::
  "'dt api_env \<Rightarrow> proxy_config \<Rightarrow> proxy_wire \<Rightarrow> ('r, 'vt) vm_host \<Rightarrow> (session_store \<times> 'r, 'vt) vm_host" where
  "joined_host env cfg pw host =
     \<lparr>vh_exec = beside (vh_exec host), vh_files = files_beside (vh_files host),
      vh_unix = handle_session_connection env cfg pw, vh_json = vh_json host,
      vh_fctools = fctools_beside (vh_fctools host),
      vh_remove_file = (\<lambda>p w. (fst w, vh_remove_file host p (snd w))),
      vh_now = (\<lambda>w. vh_now host (snd w)), vh_time = vh_time host,
      vh_exists = (\<lambda>p w. vh_exists host p (snd w)),
      vh_canonicalize = (\<lambda>p w. vh_canonicalize host p (snd w)),
      vh_parse_create = vh_parse_create host\<rparr>"

text \<open>Commands keep the store.\<close>

lemma run_cmd_store [simp]: "fst (snd (run_cmd (beside ex) cmd w)) = fst w"
  using beside_store[of ex cmd w] by (auto simp: run_cmd_def split: prod.split exec_outcome.split simp del: beside_store)

lemma try_then_store:
  "(\<And>w'. fst w' = fst w \<Longrightarrow> fst (snd (k w')) = fst w) \<Longrightarrow> fst (snd r) = fst w \<Longrightarrow> fst (snd (try_then r k)) = fst w"
  by (auto simp: try_then_def split: prod.split sum.split)

lemma ignore_then_store:
  "(\<And>w'. fst w' = fst w \<Longrightarrow> fst (snd (k w')) = fst w) \<Longrightarrow> fst (snd r) = fst w \<Longrightarrow> fst (snd (ignore_then r k)) = fst w"
  by (simp add: ignore_then_def)

lemma delete_listed_store: "fst (delete_listed (beside ex) chain tap ls w) = fst w"
  by (induction ls arbitrary: w) (simp_all split: option.split)

lemma clean_chain_store: "fst (snd (clean_chain (beside ex) chain tap w)) = fst w"
  using beside_store[of ex "nft_list chain" w]
  by (auto simp: clean_chain_def delete_listed_store split: prod.split exec_outcome.split simp del: beside_store)

lemma network_store [simp]:
  "fst (snd (setup_tap_interface (beside ex) tap ip w)) = fst w"
  "fst (snd (add_dnat_rule (beside ex) tap ip w)) = fst w"
  "fst (snd (remove_dnat_rule (beside ex) tap w)) = fst w"
  "fst (snd (cleanup_tap_interface (beside ex) tap w)) = fst w"
  by (auto simp: setup_tap_interface_def add_dnat_rule_def remove_dnat_rule_def cleanup_tap_interface_def
      clean_chain_store intro!: try_then_store ignore_then_store)

section \<open>What the manager achieves through the service\<close>

lemma lowest_allocated:
  assumes "i < 64" and "pool_ip (2 + i * 4) \<notin> set ips" and "\<forall>j<i. pool_ip (2 + j * 4) \<in> set ips"
  shows "allocate_ip ips = (Inr (pool_ip (2 + i * 4)), ips @ [pool_ip (2 + i * 4)])"
proof (cases rule: allocate_ip_cases[of ips])
  case (ok k)
  with assms have "k = i" by (metis linorder_neqE_nat)
  with ok show ?thesis by simp
next
  case full
  moreover have "pool_ip (2 + i * 4) \<in> pool" unfolding pool_def using assms(1) by (intro imageI) simp
  ultimately show ?thesis using assms(2) by blast
qed

definition same_service ::
  "('w \<Rightarrow> bool) \<Rightarrow> ('w \<Rightarrow> string \<Rightarrow> session option) \<Rightarrow> 'w \<Rightarrow> 'w \<Rightarrow> bool" where
  "same_service ok by_ip w w' \<longleftrightarrow> by_ip w' = by_ip w \<and> (ok w \<longrightarrow> ok w')"

context session_service
begin

lemma created_environment:
  assumes "vh_unix host = io" and "vh_json host = js" and "ok w"
    and "\<And>tap ip w. same_service ok by_ip w (snd (setup_tap_interface (vh_exec host) tap ip w))"
    and "\<And>tap ip w. same_service ok by_ip w (snd (add_dnat_rule (vh_exec host) tap ip w))"
    and "run_prog (handle_create_environment host c b) st w = (Done (Some r), st', w', ts)"
    and "vm_status r = 201" and "vm_body r = EnvironmentBody eb"
  obtains s bytes req where "ok w'" and "b = Inr bytes" and "vh_parse_create host bytes = Inr req"
    and "by_ip w (er_vm_ip eb) = None" and "by_ip w' = (by_ip w)(er_vm_ip eb \<mapsto> s)"
    and "session_id s = er_session_id eb" and "er_session_id eb = ce_session_id req"
    and "is_valid_session_id (er_session_id eb)"
    and "allowlist s = map listed_entry (map proxy_entry_of (ec_allowlist (egress req)))"
    and "holds_keys s (er_dummy_keys eb)"
    and "\<exists>t. ts = [t] \<and> t_session_id t = er_session_id eb \<and> t_vm_ip t = er_vm_ip eb"
  using assms(6)
proof (cases rule: create_outcome)
  case (error r')
  with assms(7) typed_error_status[of r'] show thesis by simp
next
  case (made bytes req rootfs i pr w1 w2 keys)
  let ?ip = "pool_ip (2 + i * 4)"
  have eb: "eb = created_body host req ?ip (pool_ip (1 + i * 4)) (vh_now host w) keys"
    using made(15) assms(8) by (simp add: json_ok_def)
  have "register_proxy_session js io (proxy_socket st) (ce_session_id req) ?ip
      (map proxy_entry_of (ec_allowlist (egress req)))
      (expiry_text host (expiry_of (vh_now host w) (timeout_secs req))) w = (Inr pr, w1)"
    using made(10) assms(1,2) by simp
  from register_made[OF assms(3) this made(11)] obtain s where
    s: "by_ip w ?ip = None" "by_ip w1 = (by_ip w)(?ip \<mapsto> s)" "session_id s = ce_session_id req"
      "allowlist s = map listed_entry (map proxy_entry_of (ec_allowlist (egress req)))"
      "holds_keys s (parse_dummy_keys js (rr_body pr))" by auto
  have "same_service ok by_ip w1 w2" "same_service ok by_ip w2 w'"
    using assms(4)[of w1 "tap_interface_of (ce_session_id req)" "pool_ip (1 + i * 4)"]
      assms(5)[of w2 "tap_interface_of (ce_session_id req)" "pool_ip (1 + i * 4)"] made(13,14) by simp_all
  with s made assms(2) register_ok[OF assms(3) \<open>register_proxy_session js io _ _ _ _ _ w = _\<close>] show thesis
    by (intro that[of bytes req s]) (simp_all add: eb created_body_def task_of_def same_service_def)
qed

lemma lowest_taken_refused:
  assumes "vh_unix host = io" and "vh_json host = js" and "ok w"
    and "allocate_ip (allocated_ips st) = (Inr ip, allocated_ips st @ [ip])" and "ip \<notin> set (allocated_ips st)"
    and "by_ip w ip \<noteq> None"
    and "run_prog (handle_create_environment host c b) st w = (q, st', w', ts)"
  shows "\<exists>r. q = Done (Some r) \<and> typed_error r \<and> st' = st \<and> ts = [] \<and> by_ip w' = by_ip w"
proof (cases rule: create_accepted[of host c b st w])
  case (early r)
  with assms(7) show ?thesis by auto
next
  case (run bytes req rootfs)
  let ?st = "st\<lparr>allocated_ips := allocated_ips st @ [ip]\<rparr>"
  from allocate_ip_cases[of "allocated_ips st"] obtain i where i: "i < 64" "ip = pool_ip (2 + i * 4)"
    by (cases rule: allocate_ip_cases[of "allocated_ips st"]) (use assms(4) in auto)
  obtain pr w1 where pr: "register_proxy_session (vh_json host) (vh_unix host) (proxy_socket ?st)
      (ce_session_id req) ip (map proxy_entry_of (ec_allowlist (egress req)))
      (expiry_text host (expiry_of (vh_now host w) (timeout_secs req))) w = (pr, w1)" by fastforce
  from register_taken[OF assms(3,6), of "proxy_socket ?st"] pr assms(1,2)
  have no: "\<not> answers 201 pr" "by_ip w1 = by_ip w" by simp_all
  have "run_prog (create_with_image host c req rootfs) st w =
      run_prog (create_registered host c req rootfs ip (pool_ip (1 + i * 4)) (vh_now host w) pr) ?st w1"
    using assms(4) pr pool_gateway[OF i(1)] i(2) by (simp add: create_with_image_def create_with_ip_def Let_def)
  moreover have "\<exists>r. run_prog (create_registered host c req rootfs ip h n pr) ?st w1
      = (Done (Some r), refused_state ip ?st, w1, []) \<and> typed_error r" for h n
    using no(1) by (cases pr) (auto simp: create_registered_def reply_def answers_def refused_state_def)
  then obtain r where "run_prog (create_registered host c req rootfs ip (pool_ip (1 + i * 4)) (vh_now host w) pr) ?st w1
      = (Done (Some r), refused_state ip ?st, w1, [])" "typed_error r" by blast
  ultimately have "(q, st', w', ts) = (Done (Some r), st, w1, [])" "typed_error r"
    using run(7) assms(7) refused_allocated[OF assms(5)] by simp_all
  then show ?thesis using no(2) by simp
qed

end

text \<open>The joined host.\<close>

lemma joined_host_simps [simp]:
  "vh_unix (joined_host env cfg pw host) = handle_session_connection env cfg pw"
  "vh_json (joined_host env cfg pw host) = vh_json host"
  "vh_exec (joined_host env cfg pw host) = beside (vh_exec host)"
  "vh_parse_create (joined_host env cfg pw host) = vh_parse_create host"
  "vh_fctools (joined_host env cfg pw host) = fctools_beside (vh_fctools host)"
  by (simp_all add: joined_host_def)

lemma ended_vm_store:
  assumes "proxy_ok env (vh_json host) pw w" and "is_valid_session_id (t_session_id t)"
  shows "fst (cleaned_world (joined_host env cfg pw host) path t w)
    = snd (handle_delete_session env (t_session_id t) (fst w))"
proof -
  obtain x w' where d: "delete_proxy_session (handle_session_connection env cfg pw) path (t_session_id t) w = (x, w')"
    by (rule prod.exhaust)
  from delete_exchange[OF assms d] obtain r where
    "handle_delete_session env (t_session_id t) (fst w) = (r, fst w')" by metis
  with d show ?thesis by (simp add: cleaned_world_def)
qed

lemma stopped_vm_store: "fst (snd (stop_vm (joined_host env cfg pw host) vm w)) = fst w"
  by (simp add: stop_vm_def fctools_beside_def case_prod_unfold)

lemma connect_by_session:
  assumes "uri_host uri = Some h" and "h \<noteq> []"
  shows "store_get_by_ip st ip = None \<Longrightarrow>
      proxy_service tenv cfg st (Some ip) ''CONNECT'' uri = (empty_response 403, [])"
    and "store_get_by_ip st ip = Some s \<Longrightarrow>
      status (fst (proxy_service tenv cfg st (Some ip) ''CONNECT'' uri)) = 200
        \<longleftrightarrow> (\<exists>a\<in>set (allowlist s). to_lowercase (domain a) = to_lowercase h)"
proof -
  have "fst (split_target (host_port_of uri)) = h"
    using assms split_target_show by (simp add: host_port_of_def)
  then show "store_get_by_ip st ip = None \<Longrightarrow>
      proxy_service tenv cfg st (Some ip) ''CONNECT'' uri = (empty_response 403, [])"
    and "store_get_by_ip st ip = Some s \<Longrightarrow>
      status (fst (proxy_service tenv cfg st (Some ip) ''CONNECT'' uri)) = 200
        \<longleftrightarrow> (\<exists>a\<in>set (allowlist s). to_lowercase (domain a) = to_lowercase h)"
    by (auto simp: proxy_service_def handle_connect_def admit_cases host_allowed_def list_ex_iff)
qed

end
