(* ===== verification/Joint_System.thy ===== *)
theory Joint_System
  imports Vm_With_Proxy
begin

text \<open>
  Many VMs and one proxy: the interleaved system of \<open>Vm_System\<close> on a host whose unix socket is a
  session service. \<open>serves\<close> types a task with the proxy session it holds (an address and a session
  id); the invariant is that every held session is in the proxy under that address,
  and that no two tasks hold the same id. It is proved in the locale \<open>managed_service\<close> and
  interpreted on the model of the proxy.
\<close>

section \<open>Sessions held by tasks\<close>

type_synonym tenure = "(string \<times> string) option"

text \<open>What one action may do to the lookups of the service, for a task that holds \<open>o\<close>.\<close>

inductive store_effect ::
  "tenure \<Rightarrow> tenure \<Rightarrow> (string \<Rightarrow> session option) \<Rightarrow> (string \<Rightarrow> session option) \<Rightarrow> bool" where
  still: "store_effect o1 o1 m m"
| enter: "m ip = None \<Longrightarrow> unknown (session_id s) m \<Longrightarrow>
    store_effect None (Some (ip, session_id s)) m (m(ip \<mapsto> s))"
| leave: "store_effect (Some (ip, sid)) None m (without sid m)"
| lost: "store_effect (Some (ip, sid)) None m m"

definition tenure_of :: "vm_task \<Rightarrow> tenure" where
  "tenure_of t = Some (t_vm_ip t, t_session_id t)"

inductive serves ::
  "('w, 'dt) vm_host \<Rightarrow> ('w \<Rightarrow> bool) \<Rightarrow> ('w \<Rightarrow> string \<Rightarrow> session option) \<Rightarrow> tenure
     \<Rightarrow> ('w, vm_response option) prog \<Rightarrow> bool" for host ok by_ip where
  serves_Done: "serves host ok by_ip None (Done a)"
| serves_On_state: "(\<And>st. serves host ok by_ip o1 (fst (f st))) \<Longrightarrow> serves host ok by_ip o1 (On_state f)"
| serves_On_host: "(\<And>w. ok w \<Longrightarrow> ok (snd (f w)) \<and> (\<exists>o2. serves host ok by_ip o2 (fst (f w))
      \<and> store_effect o1 o2 (by_ip w) (by_ip (snd (f w))))) \<Longrightarrow> serves host ok by_ip o1 (On_host f)"
| serves_Spawn: "is_valid_session_id (t_session_id t) \<Longrightarrow> serves host ok by_ip None p \<Longrightarrow>
    serves host ok by_ip (tenure_of t) (Spawn t p)"
| serves_Wait: "serves host ok by_ip (tenure_of t) (awaited (stop_vm host vm) (\<lambda>_. finish_vm host t)) \<Longrightarrow>
    serves host ok by_ip (tenure_of t) (waiting_vm host vm t)"

inductive_cases serves_On_stateE: "serves host ok by_ip o1 (On_state f)"
inductive_cases serves_On_hostE: "serves host ok by_ip o1 (On_host f)"
inductive_cases serves_SpawnE: "serves host ok by_ip o1 (Spawn t p)"
inductive_cases serves_WaitE: "serves host ok by_ip o1 (Wait b p)"

lemma waiting_not [simp]:
  "On_state f \<noteq> waiting_vm host vm t" "On_host g \<noteq> waiting_vm host vm t" "Spawn u p \<noteq> waiting_vm host vm t"
  by (simp_all add: waiting_vm_def)

lemma serves_On_stateD: "serves host ok by_ip o1 (On_state f) \<Longrightarrow> serves host ok by_ip o1 (fst (f st))"
  by (elim serves_On_stateE) auto

lemma serves_On_hostD:
  "serves host ok by_ip o1 (On_host f) \<Longrightarrow> ok w \<Longrightarrow> ok (snd (f w))
     \<and> (\<exists>o2. serves host ok by_ip o2 (fst (f w)) \<and> store_effect o1 o2 (by_ip w) (by_ip (snd (f w))))"
  by (elim serves_On_hostE) auto

lemma serves_SpawnD:
  "serves host ok by_ip o1 (Spawn t p) \<Longrightarrow>
     o1 = tenure_of t \<and> serves host ok by_ip None p \<and> is_valid_session_id (t_session_id t)"
  by (elim serves_SpawnE) auto

lemma waiting_vm_inj:
  assumes "(waiting_vm host vm t :: ('w, 'r option) prog) = waiting_vm host' vm' u"
  shows "tenure_of t = tenure_of u"
proof -
  from assms have eq: "(finish_vm host t :: ('w, 'r option) prog) = finish_vm host' u"
    by (auto simp: waiting_vm_def awaited_def fun_eq_iff case_prod_unfold)
  let ?st = "vm_state_new\<lparr>allocated_ips := [t_vm_ip t], shutdown_txs := [(t_session_id t, 0)]\<rparr>"
  have "ended_state t Exited st = ended_state u Exited st" for st
    using arg_cong[OF eq, of "\<lambda>p. fst (snd (run_prog p st w))" for w] by (simp add: run_finish)
  then have "allocated_ips (ended_state t Exited ?st) = allocated_ips (ended_state u Exited ?st)"
    "shutdown_txs (ended_state t Exited ?st) = shutdown_txs (ended_state u Exited ?st)" by simp_all
  then show ?thesis by (auto simp: tenure_of_def release_ip_def hm_remove_filter split: if_splits)
qed

lemma serves_waiting: "serves host ok by_ip o1 (waiting_vm host vm t) \<Longrightarrow> o1 = tenure_of t"
proof -
  assume "serves host ok by_ip o1 (waiting_vm host vm t)"
  then show ?thesis
  proof (cases rule: serves.cases)
    case (serves_Wait u vm')
    from waiting_vm_inj[OF serves_Wait(2)] serves_Wait(1) show ?thesis by simp
  qed (simp_all add: waiting_vm_def)
qed

section \<open>All tenures together\<close>

definition tenures :: "nat \<Rightarrow> (nat \<Rightarrow> tenure) \<Rightarrow> (string \<Rightarrow> session option) \<Rightarrow> bool" where
  "tenures n own m \<longleftrightarrow>
     (\<forall>i<n. \<forall>ip sid. own i = Some (ip, sid) \<longrightarrow> (\<exists>s. m ip = Some s \<and> session_id s = sid))
   \<and> (\<forall>i<n. \<forall>j<n. \<forall>ip ip' sid. own i = Some (ip, sid) \<longrightarrow> own j = Some (ip', sid) \<longrightarrow> i = j)"

lemma tenures_effect:
  assumes "tenures n own m" and "i < n" and "store_effect (own i) o2 m m'"
  shows "tenures n (own(i := o2)) m'"
  using assms(3)
proof cases
  case still
  with assms(1) show ?thesis by (metis fun_upd_triv)
next
  case (enter ip s)
  have other: "\<exists>t. m ip' = Some t \<and> session_id t = sid \<and> sid \<noteq> session_id s \<and> ip' \<noteq> ip"
    if "j < n" "own j = Some (ip', sid)" for j ip' sid
  proof -
    from assms(1) that obtain t where "m ip' = Some t" "session_id t = sid"
      unfolding tenures_def by blast
    with enter(4,5) show ?thesis by (auto simp: unknown_def)
  qed
  have "\<exists>t. m' ip' = Some t \<and> session_id t = sid" if "j < n" "(own(i := o2)) j = Some (ip', sid)" for j ip' sid
    using that enter other[of j ip' sid] by (cases "j = i") auto
  moreover have "j = k" if "j < n" "k < n" "(own(i := o2)) j = Some (ip1, sid)" "(own(i := o2)) k = Some (ip2, sid)"
    for j k ip1 ip2 sid
    using that enter(2) other[of j ip1 sid] other[of k ip2 sid] assms(1)
    unfolding tenures_def by (auto split: if_splits)
  ultimately show ?thesis unfolding tenures_def by blast
next
  case (leave ip sid)
  have "\<exists>t. m' ip' = Some t \<and> session_id t = sid'" if "j < n" "j \<noteq> i" "own j = Some (ip', sid')" for j ip' sid'
  proof -
    from assms(1) that obtain t where "m ip' = Some t" "session_id t = sid'"
      unfolding tenures_def by blast
    moreover have "sid' \<noteq> sid" using assms(1,2) that leave(1) unfolding tenures_def by blast
    ultimately show ?thesis using leave(3) by (simp add: without_def)
  qed
  with assms(1) leave(2) show ?thesis unfolding tenures_def by (auto split: if_splits)
next
  case (lost ip sid)
  with assms(1) show ?thesis unfolding tenures_def by (auto split: if_splits)
qed

lemma tenures_new: "tenures n own m \<Longrightarrow> tenures (Suc n) (own(n := None)) m"
  unfolding tenures_def by (auto simp: less_Suc_eq)

lemma tenures_move:
  "tenures n own m \<Longrightarrow> i < n \<Longrightarrow> own i = x \<Longrightarrow> tenures (Suc n) (own(i := None, n := x)) m"
  unfolding tenures_def by (auto simp: less_Suc_eq split: if_splits)

section \<open>The tasks of the manager\<close>

definition service_inv ::
  "('w, 'dt) vm_host \<Rightarrow> ('w \<Rightarrow> bool) \<Rightarrow> ('w \<Rightarrow> string \<Rightarrow> session option) \<Rightarrow> 'w sys \<Rightarrow> bool" where
  "service_inv host ok by_ip s \<longleftrightarrow> ok (sys_world s)
     \<and> (\<exists>own. (\<forall>i<length (sys_threads s). serves host ok by_ip (own i) (sys_threads s ! i))
          \<and> tenures (length (sys_threads s)) own (by_ip (sys_world s)))"

locale managed_service = session_service +
  fixes host :: "('a, 'dt) vm_host"
  assumes host_unix: "vh_unix host = io" and host_json: "vh_json host = js"
    and host_exec: "same_service ok by_ip w (snd (vh_exec host cmd w))"
    and host_launch: "same_service ok by_ip w (snd (launch_vm host t w))"
    and host_stop: "same_service ok by_ip w (snd (stop_vm host vm w))"
begin

lemma same_refl: "same_service ok by_ip w w"
  by (simp add: same_service_def)

lemma same_trans: "same_service ok by_ip w w' \<Longrightarrow> same_service ok by_ip w' w'' \<Longrightarrow> same_service ok by_ip w w''"
  by (simp add: same_service_def)

lemma serves_awaited:
  assumes "\<And>w. same_service ok by_ip w (snd (f w))" and "\<And>r. serves host ok by_ip o1 (k r)"
  shows "serves host ok by_ip o1 (awaited f k)"
  unfolding awaited_def
proof (rule serves_On_host)
  fix w assume "ok w"
  with assms(1)[of w] have "ok (snd (f w))" "by_ip (snd (f w)) = by_ip w" by (simp_all add: same_service_def)
  with assms(2) show "ok (snd (case f w of (r, w') \<Rightarrow> (k r, w')))
      \<and> (\<exists>o2. serves host ok by_ip o2 (fst (case f w of (r, w') \<Rightarrow> (k r, w')))
        \<and> store_effect o1 o2 (by_ip w) (by_ip (snd (case f w of (r, w') \<Rightarrow> (k r, w')))))"
    by (auto simp: case_prod_unfold intro: store_effect.still)
qed

lemma serves_locked: "serves host ok by_ip o1 k \<Longrightarrow> serves host ok by_ip o1 (locked g k)"
  unfolding locked_def by (rule serves_On_state) simp

lemma serves_released: "serves host ok by_ip o1 k \<Longrightarrow> serves host ok by_ip o1 (released ip k)"
  unfolding released_def by (rule serves_locked)

lemma serves_reply: "serves host ok by_ip None (reply r)"
  unfolding reply_def by (rule serves_Done)

lemma serves_handles: "serves host ok by_ip o1 k \<Longrightarrow> serves host ok by_ip o1 (remove_handles sid k)"
  unfolding remove_handles_def by (intro serves_locked)

lemma serves_drop:
  assumes "is_valid_session_id sid" and "serves host ok by_ip None k"
  shows "serves host ok by_ip (Some (ip, sid)) (drop_proxy_session host sid k)"
  unfolding drop_proxy_session_def awaited_def
proof (intro serves_On_state, unfold fst_conv, rule serves_On_host)
  fix st w assume "ok w"
  obtain r w' where d: "delete_proxy_session io (proxy_socket st) sid w = (r, w')" by (rule prod.exhaust)
  from delete_ok[OF \<open>ok w\<close> assms(1) d] delete_by_ip[OF \<open>ok w\<close> assms(1) d] assms(2) d
  show "ok (snd (case delete_proxy_session (vh_unix host) (proxy_socket st) sid w of (r, w') \<Rightarrow> (k, w')))
      \<and> (\<exists>o2. serves host ok by_ip o2 (fst (case delete_proxy_session (vh_unix host) (proxy_socket st) sid w of (r, w') \<Rightarrow> (k, w')))
        \<and> store_effect (Some (ip, sid)) o2 (by_ip w)
          (by_ip (snd (case delete_proxy_session (vh_unix host) (proxy_socket st) sid w of (r, w') \<Rightarrow> (k, w')))))"
    by (auto simp: host_unix intro!: exI[of _ None] store_effect.leave store_effect.lost)
qed

lemma same_cmd: "same_service ok by_ip w (snd (run_cmd (vh_exec host) cmd w))"
  using host_exec[of w cmd] by (auto simp: run_cmd_def split: prod.split exec_outcome.split)

lemma same_end: "same_service ok by_ip w (snd (r, w))"
  by (simp add: same_refl)

lemma same_try:
  "same_service ok by_ip w (snd r) \<Longrightarrow> (\<And>w'. same_service ok by_ip w' (snd (k w')))
     \<Longrightarrow> same_service ok by_ip w (snd (try_then r k))"
  using same_trans by (fastforce simp: try_then_def split: prod.split sum.split)

lemma same_ignore:
  "same_service ok by_ip w (snd r) \<Longrightarrow> (\<And>w'. same_service ok by_ip w' (snd (k w')))
     \<Longrightarrow> same_service ok by_ip w (snd (ignore_then r k))"
  using same_trans by (simp add: ignore_then_def)

lemma same_listed: "same_service ok by_ip w (delete_listed (vh_exec host) chain tap ls w)"
proof (induction ls arbitrary: w)
  case (Cons l ls)
  show ?case using same_trans[OF same_cmd Cons.IH] Cons.IH[of w] by (simp split: option.split)
qed (simp add: same_refl)

lemma same_chain: "same_service ok by_ip w (snd (clean_chain (vh_exec host) chain tap w))"
  using host_exec[of w "nft_list chain"] same_trans[OF _ same_listed]
  by (auto simp: clean_chain_def split: prod.split exec_outcome.split)

lemma same_network:
  "same_service ok by_ip w (snd (setup_tap_interface (vh_exec host) tap ip w))"
  "same_service ok by_ip w (snd (add_dnat_rule (vh_exec host) tap ip w))"
  "same_service ok by_ip w (snd (remove_dnat_rule (vh_exec host) tap w))"
  "same_service ok by_ip w (snd (cleanup_tap_interface (vh_exec host) tap w))"
  unfolding setup_tap_interface_def add_dnat_rule_def remove_dnat_rule_def cleanup_tap_interface_def
  by (intro same_try same_ignore same_cmd same_chain same_end)+

lemma same_read: "same_service ok by_ip w (snd ((\<lambda>w. (f w, w)) w))"
  by (simp add: same_refl)

text \<open>The background task.\<close>

lemma serves_cleanup:
  assumes "is_valid_session_id sid" and "serves host ok by_ip None k"
  shows "serves host ok by_ip (Some (ip, sid)) (drop_proxy_session host sid (drop_dnat_rule host tap (drop_tap host tap k)))"
  unfolding drop_dnat_rule_def drop_tap_def
  by (intro serves_drop assms serves_awaited same_network)

lemma serves_ends:
  assumes "is_valid_session_id (t_session_id t)"
  shows "serves host ok by_ip (tenure_of t) (finish_vm host t)"
    and "serves host ok by_ip (tenure_of t) (abandon_vm host t)"
  unfolding finish_vm_def abandon_vm_def tenure_of_def
  by (intro serves_cleanup serves_released serves_locked serves_handles serves_Done assms)+

lemma serves_lifecycle:
  assumes "is_valid_session_id (t_session_id t)"
  shows "serves host ok by_ip (tenure_of t) (run_vm_lifecycle host t)"
  unfolding run_vm_lifecycle_def
proof (rule serves_awaited)
  fix r :: "string + nat"
  have "serves host ok by_ip (tenure_of t) (waiting_vm host vm t)" for vm
    by (intro serves_Wait serves_awaited host_stop serves_ends assms)
  then show "serves host ok by_ip (tenure_of t) (case r of Inl e \<Rightarrow> abandon_vm host t | Inr vm \<Rightarrow> waiting_vm host vm t)"
    by (cases r) (simp_all add: serves_ends assms)
qed (rule host_launch)

text \<open>Creation, from its end to its start.\<close>

lemma serves_create_launched:
  assumes "is_valid_session_id (ce_session_id req)"
  shows "serves host ok by_ip (Some (ip, ce_session_id req)) (create_launched host c req rootfs ip host_ip now keys)"
proof -
  let ?t = "task_of c req rootfs ip host_ip"
  have t: "tenure_of ?t = Some (ip, ce_session_id req)" "is_valid_session_id (t_session_id ?t)"
    using assms by (simp_all add: tenure_of_def task_of_def)
  have "serves host ok by_ip (tenure_of ?t) (Spawn ?t (locked g (reply r)))" for g r
    by (intro serves_Spawn t(2) serves_locked serves_reply)
  then show ?thesis unfolding create_launched_def t(1) by (intro serves_locked)
qed

lemma serves_create_network:
  assumes "is_valid_session_id (ce_session_id req)"
  shows "serves host ok by_ip (Some (ip, ce_session_id req)) (create_network host c req rootfs ip host_ip now keys)"
  unfolding create_network_def Let_def
proof (intro serves_awaited same_network)
  fix r :: "string + unit"
  let ?sid = "ce_session_id req" and ?tap = "tap_interface_of (ce_session_id req)"
  have dnat: "serves host ok by_ip (Some (ip, ?sid)) (case r of
      Inl e \<Rightarrow> released ip (drop_tap host ?tap (drop_proxy_session host ?sid
          (reply (json_error_with_detail 500 VmLaunchFailed ''failed to set up nftables DNAT rule'' e))))
    | Inr _ \<Rightarrow> create_launched host c req rootfs ip host_ip now keys)" for r :: "string + unit"
    unfolding drop_tap_def
    by (cases r) (simp_all add: serves_released serves_awaited same_network serves_drop assms serves_reply
        serves_create_launched)
  show "serves host ok by_ip (Some (ip, ?sid)) (case r of
      Inl e \<Rightarrow> released ip (drop_proxy_session host ?sid
        (reply (json_error_with_detail 500 VmLaunchFailed ''failed to set up TAP interface'' e)))
    | Inr _ \<Rightarrow> awaited (add_dnat_rule (vh_exec host) ?tap host_ip) (\<lambda>r. case r of
        Inl e \<Rightarrow> released ip (drop_tap host ?tap (drop_proxy_session host ?sid
          (reply (json_error_with_detail 500 VmLaunchFailed ''failed to set up nftables DNAT rule'' e))))
      | Inr _ \<Rightarrow> create_launched host c req rootfs ip host_ip now keys))"
    by (cases r) (simp_all add: serves_released serves_drop assms serves_reply serves_awaited same_network dnat)
qed

lemma serves_create_registered:
  assumes "is_valid_session_id (ce_session_id req)"
  shows "serves host ok by_ip (if answers 201 pr then Some (ip, ce_session_id req) else None)
    (create_registered host c req rootfs ip host_ip now pr)"
  unfolding create_registered_def
  by (cases pr) (simp_all add: answers_def serves_released serves_reply serves_create_network assms)

lemma serves_register:
  assumes "is_valid_session_id (ce_session_id req)"
  shows "serves host ok by_ip None
    (awaited (register_proxy_session (vh_json host) (vh_unix host) path (ce_session_id req) ip es ex)
      (create_registered host c req rootfs ip host_ip now))"
  unfolding awaited_def
proof (rule serves_On_host)
  fix w assume ok: "ok w"
  obtain r w' where reg: "register_proxy_session js io path (ce_session_id req) ip es ex w = (r, w')"
    by (rule prod.exhaust)
  have eff: "store_effect None (if answers 201 r then Some (ip, ce_session_id req) else None) (by_ip w) (by_ip w')"
  proof (cases "answers 201 r")
    case True
    then obtain pr where pr: "r = Inr pr" "rr_status pr = 201" by (auto simp: answers_def split: sum.splits)
    from register_made[OF ok reg[unfolded pr(1)] pr(2)] obtain s where
      "by_ip w ip = None" "unknown (ce_session_id req) (by_ip w)" "by_ip w' = (by_ip w)(ip \<mapsto> s)"
      "session_id s = ce_session_id req" by auto
    with True show ?thesis by (metis store_effect.enter)
  next
    case False
    with register_refused[OF ok reg] show ?thesis by (simp add: store_effect.still)
  qed
  have "snd (case r of r \<Rightarrow> (create_registered host c req rootfs ip host_ip now r, w')) = w'" by simp
  with register_ok[OF ok reg] eff serves_create_registered[OF assms, of r ip c rootfs host_ip now] reg
  show "ok (snd (case register_proxy_session (vh_json host) (vh_unix host) path (ce_session_id req) ip es ex w of
        (r, w') \<Rightarrow> (create_registered host c req rootfs ip host_ip now r, w')))
    \<and> (\<exists>o2. serves host ok by_ip o2 (fst (case register_proxy_session (vh_json host) (vh_unix host) path (ce_session_id req) ip es ex w of
        (r, w') \<Rightarrow> (create_registered host c req rootfs ip host_ip now r, w')))
      \<and> store_effect None o2 (by_ip w) (by_ip (snd (case register_proxy_session (vh_json host) (vh_unix host) path (ce_session_id req) ip es ex w of
        (r, w') \<Rightarrow> (create_registered host c req rootfs ip host_ip now r, w')))))"
    by (auto simp: host_unix host_json)
qed

lemma serves_look: "(\<And>st. serves host ok by_ip o1 (k st)) \<Longrightarrow> serves host ok by_ip o1 (On_state (\<lambda>st. (k st, g st)))"
  by (rule serves_On_state) simp

lemma serves_create_with_ip:
  assumes "is_valid_session_id (ce_session_id req)"
  shows "serves host ok by_ip None (create_with_ip host c req rootfs ip)"
  unfolding create_with_ip_def Let_def
  by (simp add: serves_reply) (intro impI serves_awaited same_read serves_look serves_register assms)

lemma serves_create_with_image:
  assumes "is_valid_session_id (ce_session_id req)"
  shows "serves host ok by_ip None (create_with_image host c req rootfs)"
  unfolding create_with_image_def
  by (rule serves_On_state) (auto simp: serves_reply serves_create_with_ip[OF assms] split: prod.split sum.split)

lemma serves_create_new:
  assumes "is_valid_session_id (ce_session_id req)"
  shows "serves host ok by_ip None (create_new host c req)"
proof -
  have canon: "serves host ok by_ip None (case r of
      Inl e \<Rightarrow> reply (json_error 500 InternalError (''failed to canonicalize image path: '' @ e))
    | Inr rootfs \<Rightarrow> create_with_image host c req rootfs)" for r
    by (cases r) (simp_all only: sum.case serves_reply serves_create_with_image[OF assms])
  show ?thesis
    unfolding create_new_def
  proof (intro serves_awaited same_read)
    fix present
    show "serves host ok by_ip None (if \<not> present then reply (json_error 404 ImageNotFound (''image not found: '' @ image req))
      else awaited (\<lambda>w. (vh_canonicalize host (image req) w, w)) (\<lambda>r. case r of
        Inl e \<Rightarrow> reply (json_error 500 InternalError (''failed to canonicalize image path: '' @ e))
      | Inr rootfs \<Rightarrow> create_with_image host c req rootfs))"
      by (cases present) (simp_all only: simp_thms if_True if_False serves_reply serves_awaited same_read canon)
  qed
qed

lemma serves_handle_create: "serves host ok by_ip None (handle_create_environment host c b)"
  unfolding handle_create_environment_def
  by (cases b; cases "vh_parse_create host (projr b)") (auto intro!: serves_look serves_reply serves_create_new)

lemma serves_handle_request: "serves host ok by_ip None (handle_request host c meth path b)"
proof -
  have "serves host ok by_ip None (handle_delete_environment sid)" for sid
    unfolding handle_delete_environment_def
    by (rule serves_On_state) (auto intro!: serves_locked serves_reply split: option.split)
  moreover have "serves host ok by_ip None (handle_get_environment host sid)" "serves host ok by_ip None (handle_serial sid)"
    "serves host ok by_ip None (handle_list_environments host)" for sid
    unfolding handle_get_environment_def handle_serial_def handle_list_environments_def
    by (rule serves_look; auto intro!: serves_awaited serves_reply same_read[simplified] split: option.split)+
  ultimately show ?thesis
    by (cases "route_of meth path") (simp_all add: handle_request_routes serves_handle_create serves_reply)
qed

text \<open>The invariant.\<close>

lemma service_inv_update:
  assumes "service_inv host ok by_ip s" and "i < length (sys_threads s)" and "ok w"
    and "\<And>o1. serves host ok by_ip o1 (sys_threads s ! i) \<Longrightarrow>
      \<exists>o2. serves host ok by_ip o2 p \<and> store_effect o1 o2 (by_ip (sys_world s)) (by_ip w)"
  shows "service_inv host ok by_ip (s\<lparr>sys_mgr := st, sys_world := w, sys_threads := (sys_threads s)[i := p]\<rparr>)"
proof -
  from assms(1) obtain own where own: "\<forall>i<length (sys_threads s). serves host ok by_ip (own i) (sys_threads s ! i)"
    "tenures (length (sys_threads s)) own (by_ip (sys_world s))"
    by (auto simp: service_inv_def)
  with assms(2,4) obtain o2 where o2: "serves host ok by_ip o2 p"
    "store_effect (own i) o2 (by_ip (sys_world s)) (by_ip w)" by blast
  from tenures_effect[OF own(2) assms(2) o2(2)] own(1) o2(1) assms(3) show ?thesis
    unfolding service_inv_def by (auto simp: nth_list_update intro!: exI[of _ "own(i := o2)"])
qed

lemma service_inv_arrive:
  assumes "service_inv host ok by_ip s"
  shows "service_inv host ok by_ip
    (s\<lparr>sys_threads := sys_threads s @ [handle_request host c meth path b], sys_chan := c'\<rparr>)"
proof -
  from assms obtain own where own: "\<forall>i<length (sys_threads s). serves host ok by_ip (own i) (sys_threads s ! i)"
    "tenures (length (sys_threads s)) own (by_ip (sys_world s))" and ok: "ok (sys_world s)"
    by (auto simp: service_inv_def)
  with tenures_new[OF own(2)] show ?thesis
    unfolding service_inv_def
    by (auto simp: nth_append less_Suc_eq serves_handle_request intro!: exI[of _ "own(length (sys_threads s) := None)"])
qed

lemma service_inv_spawn:
  assumes "service_inv host ok by_ip s" and "i < length (sys_threads s)" and "sys_threads s ! i = Spawn t p"
  shows "service_inv host ok by_ip (s\<lparr>sys_threads := (sys_threads s)[i := p] @ [run_vm_lifecycle host t]\<rparr>)"
proof -
  from assms(1) obtain own where own: "\<forall>i<length (sys_threads s). serves host ok by_ip (own i) (sys_threads s ! i)"
    "tenures (length (sys_threads s)) own (by_ip (sys_world s))" and ok: "ok (sys_world s)"
    by (auto simp: service_inv_def)
  from own(1) assms(2,3) have i: "own i = tenure_of t" "serves host ok by_ip None p" "is_valid_session_id (t_session_id t)"
    by (metis serves_SpawnD)+
  from tenures_move[OF own(2) assms(2) i(1)] own(1) i(2,3) ok show ?thesis
    unfolding service_inv_def
    by (intro conjI exI[of _ "own(i := None, length (sys_threads s) := tenure_of t)"])
      (auto simp: nth_append nth_list_update less_Suc_eq serves_lifecycle)
qed

lemma service_inv_still:
  assumes "service_inv host ok by_ip s" and "i < length (sys_threads s)"
    and "\<And>o1. serves host ok by_ip o1 (sys_threads s ! i) \<Longrightarrow> serves host ok by_ip o1 p"
  shows "service_inv host ok by_ip (s\<lparr>sys_mgr := st, sys_threads := (sys_threads s)[i := p]\<rparr>)"
proof -
  have "ok (sys_world s)" using assms(1) by (simp add: service_inv_def)
  with assms have "service_inv host ok by_ip (s\<lparr>sys_mgr := st, sys_world := sys_world s, sys_threads := (sys_threads s)[i := p]\<rparr>)"
    by (intro service_inv_update) (auto intro: store_effect.still)
  then show ?thesis by simp
qed

lemma service_inv_step:
  assumes "sys_moves (same_service ok by_ip) host s s'" and "service_inv host ok by_ip s"
  shows "service_inv host ok by_ip s'"
  using assms(1)
proof cases
  case (arrive meth path b)
  with assms(2) show ?thesis by (simp add: service_inv_arrive)
next
  case (world w)
  with assms(2) show ?thesis by (simp add: service_inv_def same_service_def)
next
  case (lock i f p st)
  have "serves host ok by_ip o1 p" if "serves host ok by_ip o1 (sys_threads s ! i)" for o1
    using serves_On_stateD[of host ok by_ip o1 f "sys_mgr s"] that lock(3,4) by simp
  with assms(2) lock(2) have "service_inv host ok by_ip (s\<lparr>sys_mgr := st, sys_threads := (sys_threads s)[i := p]\<rparr>)"
    by (rule service_inv_still)
  with lock(1) show ?thesis by simp
next
  case (await i f p w)
  have ok: "ok (sys_world s)" using assms(2) by (simp add: service_inv_def)
  have run: "ok w \<and> (\<exists>o2. serves host ok by_ip o2 p \<and> store_effect o1 o2 (by_ip (sys_world s)) (by_ip w))"
    if "serves host ok by_ip o1 (sys_threads s ! i)" for o1
  proof -
    from that have "ok (snd (f (sys_world s))) \<and> (\<exists>o2. serves host ok by_ip o2 (fst (f (sys_world s)))
        \<and> store_effect o1 o2 (by_ip (sys_world s)) (by_ip (snd (f (sys_world s)))))"
      unfolding await(3) using ok by (rule serves_On_hostD)
    with await(4) show ?thesis by simp
  qed
  have "ok w" using assms(2) await(2) run unfolding service_inv_def by blast
  with assms(2) await(2) have "service_inv host ok by_ip (s\<lparr>sys_mgr := sys_mgr s, sys_world := w, sys_threads := (sys_threads s)[i := p]\<rparr>)"
    by (rule service_inv_update) (use run in blast)
  with await(1) show ?thesis by simp
next
  case (spawn i t p)
  with assms(2) show ?thesis by (simp add: service_inv_spawn)
next
  case (wake i b p)
  have "serves host ok by_ip o1 p" if "serves host ok by_ip o1 (sys_threads s ! i)" for o1
    using that unfolding wake(3) by (rule serves_WaitE) (auto simp: waiting_vm_def)
  with assms(2) wake(2) have "service_inv host ok by_ip (s\<lparr>sys_mgr := sys_mgr s, sys_threads := (sys_threads s)[i := p]\<rparr>)"
    by (rule service_inv_still)
  with wake(1) show ?thesis by simp
qed

lemma service_inv_reach:
  assumes "(sys_moves (same_service ok by_ip) host)\<^sup>*\<^sup>* (sys_init socket w) s" and "ok w"
  shows "service_inv host ok by_ip s"
  using assms(1)
proof (induction rule: rtranclp_induct)
  case base
  show ?case using assms(2) by (simp add: service_inv_def sys_init_def tenures_def)
next
  case (step s s')
  then show ?case by (blast intro: service_inv_step)
qed

text \<open>Every VM that waits for its deletion has its own session at its own address.\<close>

lemma waiting_vm_served:
  assumes "service_inv host ok by_ip s" and "i < length (sys_threads s)" and "sys_threads s ! i = waiting_vm host vm t"
  shows "\<exists>x. by_ip (sys_world s) (t_vm_ip t) = Some x \<and> session_id x = t_session_id t"
    and "j < length (sys_threads s) \<Longrightarrow> sys_threads s ! j = waiting_vm host vm' u \<Longrightarrow>
      t_session_id u = t_session_id t \<Longrightarrow> j = i"
proof -
  from assms(1) obtain own where own: "\<And>i. i < length (sys_threads s) \<Longrightarrow> serves host ok by_ip (own i) (sys_threads s ! i)"
    "tenures (length (sys_threads s)) own (by_ip (sys_world s))"
    by (auto simp: service_inv_def)
  have waits: "own k = Some (t_vm_ip u, t_session_id u)"
    if "k < length (sys_threads s)" "sys_threads s ! k = waiting_vm host vm u" for k vm u
    using serves_waiting[of host ok by_ip "own k" vm u] own(1)[OF that(1)] that(2) by (simp add: tenure_of_def)
  show "\<exists>x. by_ip (sys_world s) (t_vm_ip t) = Some x \<and> session_id x = t_session_id t"
    using own(2) waits[OF assms(2,3)] assms(2) unfolding tenures_def by blast
  show "j = i" if "j < length (sys_threads s)" "sys_threads s ! j = waiting_vm host vm' u" "t_session_id u = t_session_id t"
    using own(2) waits[OF assms(2,3)] waits[OF that(1,2)] assms(2) that(1,3) unfolding tenures_def by metis
qed

end

section \<open>The joined host keeps the proxy's store\<close>

lemma files_confined: "confined (files_beside fh) (\<lambda>_. True) (\<lambda>w. fst w = st)"
  by (auto simp: confined_def keeps_def files_beside_def)

lemma stage_all_store:
  "fst h = st \<Longrightarrow> keeps (\<lambda>w. fst w = st) (stage_all (files_beside fh) staging fs h)"
proof (induction fs arbitrary: h)
  case (Cons f fs)
  have "keeps (\<lambda>w. fst w = st) (stage_file (files_beside fh) staging f h)"
    by (rule keeps_stage[OF files_confined]) (simp_all add: Cons.prems)
  then show ?case unfolding stage_all.simps by (rule keeps_and_then) (rule Cons.IH)
qed (simp add: keeps_def)

lemma file_cmd_store: "fst h = st \<Longrightarrow> keeps (\<lambda>w. fst w = st) (run_file_cmd (files_beside fh) cmd h)"
  by (simp add: run_file_cmd_def keeps_def files_beside_def)

lemma image_store: "fst h = st \<Longrightarrow> keeps (\<lambda>w. fst w = st) (build_ext4_image (files_beside fh) staging sid h)"
proof -
  assume h: "fst h = st"
  have ops: "keeps (\<lambda>w. fst w = st) (fh_create_sized (files_beside fh) p z h)"
    "fst (snd (fh_mkdirs (files_beside fh) p h)) = st" "fst (snd (fh_rmdirs (files_beside fh) p h)) = st"
    if "fst h = st" for p z h using that by (simp_all add: keeps_def files_beside_def)
  show ?thesis
    unfolding build_ext4_image_def Let_def
    by (intro keeps_and_then file_cmd_store ops h) (simp_all add: keeps_def ops)
qed

lemma prepare_files_store: "fst (snd (prepare_files (files_beside fh) fs sid w)) = fst w"
proof (cases "fs = []")
  case False
  obtain r h where t: "fh_tempdir (files_beside fh) w = (r, h)" by (rule prod.exhaust)
  then have h: "fst h = fst w" by (auto simp: files_beside_def beside_def split: prod.splits)
  have "keeps (\<lambda>x. fst x = fst w) (and_then (stage_all (files_beside fh) d fs h) (\<lambda>_ h.
      and_then (build_ext4_image (files_beside fh) d sid h) (\<lambda>disk_image h. (Inr (Some disk_image), h))))" for d
    by (intro keeps_and_then stage_all_store image_store h) (simp_all add: keeps_def)
  with False t h show ?thesis by (cases r) (simp_all add: prepare_files_def keeps_def)
qed (simp add: prepare_files_def)

lemma err_context_snd [simp]: "snd (err_context msg r) = snd r"
  by (simp add: err_context_def split: prod.split sum.split)

lemma launch_store: "fst (snd (launch_vm (joined_host env cfg pw host) t w)) = fst w"
proof -
  let ?fc = "fctools_beside (vh_fctools host)" and ?good = "\<lambda>x. fst x = fst w"
  have fc: "keeps ?good (create_resource ?fc p x)" "keeps ?good (vm_prepare ?fc c x)" "keeps ?good (vm_start ?fc v x)"
    if "fst x = fst w" for p c v x using that by (simp_all add: keeps_def fctools_beside_def)
  have ctx: "keeps ?good r \<Longrightarrow> keeps ?good (err_context msg r)" for msg r by (simp add: keeps_def)
  have res: "keeps ?good (files_resource (joined_host env cfg pw host) inj x)" if "fst x = fst w" for inj x
  proof (cases inj)
    case (Some p)
    show ?thesis
      unfolding files_resource_def Some option.case joined_host_simps
      by (intro keeps_and_then ctx fc that) (simp add: keeps_def)
  qed (simp add: files_resource_def keeps_def that)
  have prep: "keeps ?good (prepare_files (vh_files (joined_host env cfg pw host)) fs sid x)" if "fst x = fst w" for fs sid x
    using that by (simp add: keeps_def joined_host_def prepare_files_store)
  have rm: "fst (vh_remove_file (joined_host env cfg pw host) p w) = fst w" for p by (simp add: joined_host_def)
  have "keeps ?good (launch_vm (joined_host env cfg pw host) t w)"
  proof (cases "vmm_id_new ?fc (jail_id_of (t_session_id t))")
    case (Inr jid)
    show ?thesis
      unfolding launch_vm_def Let_def joined_host_simps Inr sum.case
      by (intro keeps_and_then ctx fc res prep rm) (simp_all add: keeps_def)
  qed (simp add: launch_vm_def keeps_def rm)
  then show ?thesis by (simp add: keeps_def)
qed

interpretation joint: managed_service "handle_session_connection env cfg pw" "vh_json host"
  "proxy_ok env (vh_json host) pw" "\<lambda>w. store_get_by_ip (fst w)" "joined_host env cfg pw host" for env cfg pw host
  by unfold_locales (simp_all add: same_service_def proxy_ok_def launch_store stopped_vm_store)

text \<open>Other programs leave the proxy alone.\<close>

definition beside_proxy :: "session_store \<times> 'r \<Rightarrow> session_store \<times> 'r \<Rightarrow> bool" where
  "beside_proxy w w' \<longleftrightarrow> fst w' = fst w"

abbreviation joint_reaches ::
  "'dt api_env \<Rightarrow> proxy_config \<Rightarrow> proxy_wire \<Rightarrow> ('r, 'vt) vm_host \<Rightarrow> (session_store \<times> 'r) sys
     \<Rightarrow> (session_store \<times> 'r) sys \<Rightarrow> bool" where
  "joint_reaches env cfg pw host \<equiv> (sys_moves beside_proxy (joined_host env cfg pw host))\<^sup>*\<^sup>*"

lemma sys_moves_mono:
  assumes "sys_moves out host s s'" and "\<And>w w'. out w w' \<Longrightarrow> out' w w'"
  shows "sys_moves out' host s s'"
  using assms(1) by (cases rule: sys_moves.cases) (auto intro: sys_moves.intros assms(2))

lemma joint_inv_reach:
  assumes "joint_reaches env cfg pw host (sys_init socket w) s" and "proxy_ok env (vh_json host) pw w"
  shows "service_inv (joined_host env cfg pw host) (proxy_ok env (vh_json host) pw)
    (\<lambda>w. store_get_by_ip (fst w)) s"
proof -
  let ?same = "same_service (proxy_ok env (vh_json host) pw) (\<lambda>w. store_get_by_ip (fst w))"
  have "sys_moves ?same (joined_host env cfg pw host) a b" if "sys_moves beside_proxy (joined_host env cfg pw host) a b" for a b
    using that by (rule sys_moves_mono) (simp add: same_service_def beside_proxy_def proxy_ok_def)
  then have "sys_moves beside_proxy (joined_host env cfg pw host) \<le> sys_moves ?same (joined_host env cfg pw host)"
    by blast
  from rtranclp_mono[OF this] assms(1)
  have "(sys_moves ?same (joined_host env cfg pw host))\<^sup>*\<^sup>* (sys_init socket w) s" by blast
  from joint.service_inv_reach[OF this assms(2)] show ?thesis .
qed

end
