(* ===== verification/Demo_Codec.thy ===== *)
theory Demo_Codec
  imports Session
begin

text \<open>
  A concrete stand-in for \<open>serde_json\<close>, for the witnesses: a list of strings is printed as text, a
  string as pairs of letters and a semicolon, and an allowlist as a list of strings.
  \<open>demo_session_lib\<close> is the session store's library on it: nothing faults and every
  allowlist is read back.
\<close>

section \<open>Lists of strings\<close>

definition letters_of :: "char \<Rightarrow> string" where
  "letters_of c = [char_of (97 + byte c div 16), char_of (97 + byte c mod 16)]"

fun read_letters :: "string \<Rightarrow> string" where
  "read_letters (a # b # s) = char_of ((byte a - 97) * 16 + (byte b - 97)) # read_letters s"
| "read_letters _ = []"

definition print_strings :: "string list \<Rightarrow> string" where
  "print_strings xs = concat (map (\<lambda>s. concat (map letters_of s) @ '';'') xs)"

definition read_strings :: "string \<Rightarrow> string list" where
  "read_strings t = map read_letters (butlast (split_char (CHR '';'') t))"

lemma byte_char_of: "n < 256 \<Longrightarrow> byte (char_of n) = n"
  by simp

lemma byte_bound: "byte c < 256"
  by (metis mod_less_divisor of_char_mod_256 zero_less_numeral)

lemma byte_nibbles: "byte c div 16 < 16" "byte c mod 16 < 16"
  by (rule less_mult_imp_div_less) (use byte_bound[of c] in simp_all)

lemma letters_bytes: "x \<in> set (letters_of c) \<Longrightarrow> 97 \<le> byte x \<and> byte x < 113"
  using byte_nibbles[of c] by (auto simp: letters_of_def)

lemma read_letters_of: "read_letters (concat (map letters_of s)) = s"
proof (induction s)
  case (Cons c s)
  with byte_nibbles[of c] show ?case by (simp add: letters_of_def)
qed simp

lemma letters_no_semicolon: "CHR '';'' \<notin> set (concat (map letters_of s))"
  using letters_bytes[of "CHR '';''"] by auto

lemma read_print_strings: "read_strings (print_strings xs) = xs"
proof (induction xs)
  case Nil
  show ?case by (simp add: read_strings_def print_strings_def)
next
  case (Cons x xs)
  have "split_char (CHR '';'') (print_strings (x # xs))
      = concat (map letters_of x) # split_char (CHR '';'') (print_strings xs)"
    using split_char_append[OF letters_no_semicolon, of x "print_strings xs"]
    by (simp add: print_strings_def)
  with Cons show ?case by (simp add: read_strings_def read_letters_of)
qed

lemma print_strings_ascii: "\<forall>c\<in>set (print_strings xs). byte c < 128"
proof
  fix c assume "c \<in> set (print_strings xs)"
  then have "c = CHR '';'' \<or> (\<exists>d. c \<in> set (letters_of d))"
    by (auto simp: print_strings_def split: if_splits)
  then show "byte c < 128" using letters_bytes[of c] by fastforce
qed

section \<open>Values\<close>

definition print_opt :: "string option \<Rightarrow> string" where
  "print_opt x = (case x of None \<Rightarrow> [] | Some s \<Rightarrow> CHR ''s'' # s)"

definition read_opt :: "string \<Rightarrow> string option" where
  "read_opt s = (case s of [] \<Rightarrow> None | c # r \<Rightarrow> Some r)"

lemma read_print_opt [simp]: "read_opt (print_opt x) = x"
  by (simp add: read_opt_def print_opt_def split: option.split)

fun print_entries :: "allowlist_entry list \<Rightarrow> string list" where
  "print_entries [] = []"
| "print_entries (e # es) = domain e # mode e # print_opt (credential_ref e) # print_entries es"

fun read_entries :: "string list \<Rightarrow> allowlist_entry list" where
  "read_entries (d # m # c # xs) = \<lparr>domain = d, mode = m, credential_ref = read_opt c\<rparr> # read_entries xs"
| "read_entries _ = []"

lemma read_print_entries [simp]: "read_entries (print_entries es) = es"
  by (induction es) simp_all

section \<open>The library of the session store\<close>

definition demo_session_lib :: session_lib where
  "demo_session_lib = \<lparr>sql_fault = (\<lambda>_. None), unique_msg = ''UNIQUE constraint failed'',
     to_json = (\<lambda>a. Inr (print_strings (print_entries a))),
     from_json = (\<lambda>j. Some (read_entries (read_strings j)))\<rparr>"

lemma demo_session_lawful: "json_lawful demo_session_lib"
  by (simp add: json_lawful_def demo_session_lib_def read_print_strings)

lemma demo_session_faults [simp]: "sql_fault demo_session_lib q = None"
  by (simp add: demo_session_lib_def)

end
