(* ===== verification/Demo_Wire.thy ===== *)
theory Demo_Wire
  imports Joint_System Demo_Codec
begin

text \<open>
  A concrete instance of what the sources take from \<open>hyper\<close> and \<open>serde_json\<close>, to evaluate
  the two programs together, on the codec of \<open>Demo_Codec\<close>. \<open>demo_wire_lawful\<close> shows that the laws
  the theorems assume of the libraries can hold.
\<close>

section \<open>Values\<close>

definition print_session_request :: "proxy_session_request \<Rightarrow> string" where
  "print_session_request q = print_strings (pr_session_id q # pr_source_ip q # print_opt (pr_expires_at q)
     # print_entries (map listed_entry (pr_allowlist q)))"

definition read_session_request :: "string \<Rightarrow> (string, create_session_request) result" where
  "read_session_request j =
     (case read_strings j of
        sid # ip # ex # es \<Rightarrow> Inr \<lparr>req_session_id = sid, req_source_ip = ip,
          req_allowlist = read_entries es, req_expires_at = read_opt ex\<rparr>
      | _ \<Rightarrow> Inl ''malformed'')"

lemma read_print_request: "read_session_request (print_session_request q) = Inr (request_read q)"
  by (simp add: read_session_request_def print_session_request_def read_print_strings request_read_def)

fun print_pairs :: "(string, string) hashmap \<Rightarrow> string list" where
  "print_pairs [] = []"
| "print_pairs ((k, v) # m) = k # v # print_pairs m"

fun read_pairs :: "string list \<Rightarrow> (string, string) hashmap" where
  "read_pairs (k # v # xs) = (k, v) # read_pairs xs"
| "read_pairs _ = []"

lemma read_print_pairs [simp]: "read_pairs (print_pairs m) = m"
  by (induction m rule: print_pairs.induct) simp_all

definition print_keys :: "(string, string) hashmap option \<Rightarrow> string" where
  "print_keys x = print_strings (case x of None \<Rightarrow> [] | Some m \<Rightarrow> [] # print_pairs m)"

definition read_keys :: "string \<Rightarrow> proxy_session_response option" where
  "read_keys t = Some \<lparr>ps_dummy_keys = (case read_strings t of [] \<Rightarrow> None | _ # xs \<Rightarrow> Some (read_pairs xs))\<rparr>"

lemma read_print_keys: "read_keys (print_keys x) = Some \<lparr>ps_dummy_keys = x\<rparr>"
  by (simp add: read_keys_def print_keys_def read_print_strings split: option.split)

section \<open>The libraries\<close>

definition demo_json :: proxy_json where
  "demo_json = \<lparr>print_request = \<lambda>q. Inr (print_session_request q), parse_response = read_keys\<rparr>"

definition demo_wire :: proxy_wire where
  "demo_wire =
     \<lparr>wire_request = (\<lambda>b. map_option (\<lambda>n. \<lparr>req_method = takeWhile (\<lambda>c. c \<noteq> CHR '' '') b,
        req_path = takeWhile (\<lambda>c. c \<noteq> CHR '' '') (drop 1 (dropWhile (\<lambda>c. c \<noteq> CHR '' '') b)),
        req_body = Inr (drop n b)\<rparr>) (find_header_end b)),
      wire_response = (\<lambda>r. http_wire (status r) ''X'' []
        (case body r of SessionBody s \<Rightarrow> print_keys (resp_dummy_keys s) | _ \<Rightarrow> []))\<rparr>"

definition demo_api :: "int api_env" where
  "demo_api = \<lparr>lib = demo_session_lib, clock = demo_time, now_secs = 1000, parse_create = read_session_request\<rparr>"

lemma takeWhile_word: "CHR '' '' \<notin> set w \<Longrightarrow> takeWhile (\<lambda>c. c \<noteq> CHR '' '') (w @ CHR '' '' # s) = w"
  by (induction w) auto

lemma demo_wire_lawful: "wire_lawful demo_api demo_json demo_wire"
  unfolding wire_lawful_def
proof (intro conjI allI impI)
  fix b
  have "find_header_end (unix_request ''POST'' ''/sessions'' (Some b)) = Some (length (join crlf (post_head b)) + 4)"
    unfolding unix_post by (rule head_ends[OF _ post_head_lines]) (simp add: post_head_def)
  moreover have "drop (length (join crlf (post_head b)) + 4) (unix_request ''POST'' ''/sessions'' (Some b)) = b"
    unfolding unix_post by (simp add: header_terminator_def)
  ultimately show "wire_request demo_wire (unix_request ''POST'' ''/sessions'' (Some b))
      = Some \<lparr>req_method = ''POST'', req_path = ''/sessions'', req_body = Inr b\<rparr>"
    by (simp add: demo_wire_def) (simp add: unix_request_def)
next
  fix sid assume sid: "is_valid_session_id sid"
  let ?u = "unix_request ''DELETE'' (''/sessions/'' @ sid) None"
  have "CHR '' '' \<notin> set sid" using valid_id_chars[OF sid, of "CHR '' ''"] by (auto simp: session_char_def is_digit_def)
  note path = takeWhile_word[OF this]
  have "find_header_end ?u = Some (length (join crlf (delete_head sid)) + 4)"
    unfolding unix_delete by (rule head_ends[OF _ delete_head_lines[OF sid]]) (simp add: delete_head_def)
  moreover have "drop (length (join crlf (delete_head sid)) + 4) ?u = []"
    unfolding unix_delete by (simp add: header_terminator_def)
  ultimately show "wire_request demo_wire ?u
      = Some \<lparr>req_method = ''DELETE'', req_path = ''/sessions/'' @ sid, req_body = Inr []\<rparr>"
    using path by (simp add: demo_wire_def) (simp add: unix_request_def)
next
  fix q j assume "print_request demo_json q = Inr j"
  then show "parse_create demo_api j = Inr (request_read q)"
    by (auto simp: demo_json_def demo_api_def read_print_request)
next
  fix r
  have "utf8_valid (print_keys x)" for x
    using utf8_valid_ascii[OF print_strings_ascii] by (simp add: print_keys_def)
  then show "printed_response demo_json r (wire_response demo_wire r)"
    unfolding printed_response_def
    by (intro exI[of _ "''X''"] exI[of _ "[]"] exI[of _ "case body r of SessionBody s \<Rightarrow> print_keys (resp_dummy_keys s) | _ \<Rightarrow> []"])
      (simp add: demo_wire_def demo_json_def read_print_keys split: resp_body.split)
qed

lemma demo_joint_ok: "proxy_ok demo_api demo_json demo_wire (demo_empty, x)"
  using demo_wire_lawful
  by (simp add: proxy_ok_def registry_inv_def json_lawful_def demo_api_def demo_session_lib_def
      read_print_strings store_inv_def demo_empty_def mem_ok_def schema_ok_def synced_def hm_values_def)

section \<open>Both programs on an empty host\<close>

definition joint_request :: create_environment_request where
  "joint_request = request_defaults ''sess_001'' ''img'' None None None
     \<lparr>ec_allowlist = [\<lparr>egress_domain = ''api.openai.com'', inject_key = False, egress_credential_ref = None\<rparr>]\<rparr> None"

definition joint_rest :: "(unit, int) vm_host" where
  "joint_rest = demo_vm_host\<lparr>vh_json := demo_json, vh_parse_create := \<lambda>b. Inr joint_request\<rparr>"

definition joint :: "(session_store \<times> unit, int) vm_host" where
  "joint = joined_host demo_api demo_cfg demo_wire joint_rest"

lemma joint_fields:
  "vh_json joint_rest = demo_json" "vh_exec joint_rest = vh_exec demo_vm_host"
  "vh_parse_create joint_rest b = Inr joint_request"
  by (simp_all add: joint_rest_def)

lemma joint_host_fields:
  "vh_exists joint p w" "vh_canonicalize joint p w = Inr p" "vh_now joint w = 1000"
  "vh_parse_create joint b = Inr joint_request"
  by (simp_all add: joint_def joined_host_def joint_rest_def demo_vm_host_def)

lemma joint_request_fields:
  "ce_session_id joint_request = ''sess_001''" "image joint_request = ''img''"
  "ec_allowlist (egress joint_request)
     = [\<lparr>egress_domain = ''api.openai.com'', inject_key = False, egress_credential_ref = None\<rparr>]"
  by (simp_all add: joint_request_def request_defaults_def)

lemma joint_network:
  "fst (setup_tap_interface (vh_exec joint) tap ip w) = Inr ()"
  "fst (add_dnat_rule (vh_exec joint) tap ip w) = Inr ()"
  by (simp_all add: joint_def joint_fields demo_vm_host_def setup_tap_interface_def add_dnat_rule_def
      try_then_def ignore_then_def run_cmd_def beside_def)

lemma joint_store_create: "\<exists>st1. store_create (lib demo_api) s demo_empty = (Inr (), st1)"
  using demo_joint_ok by (simp add: store_create_cases registry_inv_def proxy_ok_def)
    (simp add: demo_api_def demo_session_lib_def demo_empty_def store_get_def store_get_by_ip_def hm_values_def)

definition joint_query :: "string \<Rightarrow> string option \<Rightarrow> proxy_session_request" where
  "joint_query ip ex = \<lparr>pr_session_id = ''sess_001'', pr_source_ip = ip,
     pr_allowlist = map proxy_entry_of (ec_allowlist (egress joint_request)), pr_expires_at = ex\<rparr>"

lemma joint_session:
  assumes "ip \<noteq> []"
  shows "\<exists>r st'. handle_create_session demo_api sec (Inr (print_session_request
      (joint_query ip ex))) demo_empty
    = (Reply r, st') \<and> status r = 201"
proof -
  let ?q = "request_read (joint_query ip ex)"
  have inv: "registry_inv (lib demo_api) demo_empty"
    using demo_joint_ok by (simp add: proxy_ok_def)
  have "resolve_all sec (req_allowlist ?q) = Inr []"
    by (simp add: resolve_all_def request_read_def joint_query_def joint_request_fields listed_entry_def proxy_entry_of_def
        split: option.split)
  moreover have "?q = \<lparr>req_session_id = ''sess_001'', req_source_ip = ip,
      req_allowlist = [\<lparr>domain = ''api.openai.com'', mode = ''tunnel'', credential_ref = None\<rparr>],
      req_expires_at = ex\<rparr>"
    by (simp add: request_read_def joint_query_def joint_request_fields listed_entry_def proxy_entry_of_def)
  ultimately have h: "handle_create_session demo_api sec (Inr (print_session_request
      (joint_query ip ex))) demo_empty
     = finish_create demo_api [] (new_session demo_api ?q) demo_empty"
    using assms by (simp add: handle_create_session_def demo_api_def read_print_request)
  obtain st1 where "store_create (lib demo_api) (new_session demo_api ?q) demo_empty = (Inr (), st1)"
    using joint_store_create by blast
  from finish_create_ok(1)[OF inv this, of "[]"] h show ?thesis by (simp add: json_response_def)
qed

lemma joint_register:
  assumes "ip \<noteq> []"
  shows "\<exists>pr w'. register_proxy_session (vh_json joint) (vh_unix joint) path ''sess_001'' ip
      (map proxy_entry_of (ec_allowlist (egress joint_request))) ex (demo_empty, ()) = (Inr pr, w')
      \<and> rr_status pr = 201"
proof -
  obtain x w' where reg: "register_proxy_session demo_json (handle_session_connection demo_api demo_cfg demo_wire) path
      ''sess_001'' ip (map proxy_entry_of (ec_allowlist (egress joint_request))) ex (demo_empty, ()) = (x, w')"
    by (rule prod.exhaust)
  from demo_joint_ok reg show ?thesis
  proof (cases rule: register_exchange)
    case (unprinted e)
    then show ?thesis by (simp add: demo_json_def)
  next
    case (answered r rb j)
    then have "j = print_session_request (joint_query ip ex)" by (simp add: demo_json_def joint_query_def)
    with joint_session[OF assms, of "secret_store demo_cfg" ex] answered reg show ?thesis
      by (intro exI[of _ rb] exI[of _ w']) (auto simp: joint_def joint_fields)
  qed
qed

lemma joint_created_run:
  "\<exists>keys store'. run_prog (handle_create_environment joint 0 (Inr ''sess_001'')) vm_state_new (demo_empty, ())
      = (Done (Some (json_ok 201 (EnvironmentBody (created_body joint joint_request (pool_ip 2) (pool_ip 1) 1000 keys)))),
         launched_state 0 joint_request (pool_ip 2) 1000 keys (vm_state_new\<lparr>allocated_ips := [pool_ip 2]\<rparr>),
         (store', ()), [task_of 0 joint_request ''img'' (pool_ip 2) (pool_ip 1)])"
proof -
  let ?st = "vm_state_new\<lparr>allocated_ips := [pool_ip 2]\<rparr>"
  have new: "environments vm_state_new = []" "allocated_ips vm_state_new = []"
    by (simp_all add: vm_state_new_def with_proxy_socket_def)
  have gate: "host_tap_ip_of (ip_parts (pool_ip 2)) = pool_ip 1" "length (ip_parts (pool_ip 2)) = 4"
    using pool_gateway[of 0] by simp_all
  have "pool_ip 2 \<noteq> []" by (simp add: pool_ip_def dotted_def)
  from joint_register[OF this, of "proxy_socket ?st" "expiry_text joint (expiry_of 1000 (timeout_secs joint_request))"]
  obtain pr w1 where reg: "register_proxy_session (vh_json joint) (vh_unix joint) (proxy_socket ?st) ''sess_001''
      (pool_ip 2) (map proxy_entry_of (ec_allowlist (egress joint_request)))
      (expiry_text joint (expiry_of 1000 (timeout_secs joint_request))) (demo_empty, ()) = (Inr pr, w1)"
    "rr_status pr = 201" by blast
  obtain w2 where w2: "setup_tap_interface (vh_exec joint) (tap_interface_of ''sess_001'') (pool_ip 1) w1 = (Inr (), w2)"
    using joint_network(1) by (metis prod.collapse)
  obtain w3 where w3: "add_dnat_rule (vh_exec joint) (tap_interface_of ''sess_001'') (pool_ip 1) w2 = (Inr (), w3)"
    using joint_network(2) by (metis prod.collapse)
  let ?keys = "parse_dummy_keys (vh_json joint) (rr_body pr)"
  have "run_prog (handle_create_environment joint 0 (Inr ''sess_001'')) vm_state_new (demo_empty, ())
      = run_prog (create_registered joint 0 joint_request ''img'' (pool_ip 2) (pool_ip 1) 1000 (Inr pr)) ?st w1"
    unfolding run_handle_create
    by (simp add: joint_request_fields(1,2) new demo_sid joint_host_fields create_with_image_def allocate_first
        create_with_ip_def gate Let_def reg[simplified])
  also have "\<dots> = (Done (Some (json_ok 201 (EnvironmentBody (created_body joint joint_request (pool_ip 2) (pool_ip 1) 1000 ?keys)))),
      launched_state 0 joint_request (pool_ip 2) 1000 ?keys ?st, w3,
      [task_of 0 joint_request ''img'' (pool_ip 2) (pool_ip 1)])"
    using reg(2) w2 w3 by (simp add: create_registered_def create_network_def Let_def joint_request_fields run_launched)
  finally have run: "run_prog (handle_create_environment joint 0 (Inr ''sess_001'')) vm_state_new (demo_empty, ()) = \<dots>" .
  moreover obtain s3 where "w3 = (s3, ())" by (cases w3) auto
  ultimately show ?thesis by blast
qed

lemma joint_created:
  "\<exists>eb st' store' ts. run_prog (handle_create_environment joint 0 (Inr ''sess_001'')) vm_state_new (demo_empty, ())
      = (Done (Some (json_ok 201 (EnvironmentBody eb))), st', (store', ()), ts) \<and> er_vm_ip eb = pool_ip 2"
  using joint_created_run by (fastforce simp: created_body_def)

text \<open>A schedule that ends with a VM waiting for its deletion.\<close>

lemma joint_running:
  "\<exists>s. joint_reaches demo_api demo_cfg demo_wire joint_rest (sys_init PROXY_SOCKET_PATH (demo_empty, ())) s
     \<and> length (sys_threads s) = 2
     \<and> sys_threads s ! 1 = waiting_vm joint 0 (task_of 0 joint_request ''img'' (pool_ip 2) (pool_ip 1))"
proof -
  let ?t = "task_of 0 joint_request ''img'' (pool_ip 2) (pool_ip 1)"
  let ?life = "run_vm_lifecycle joint ?t :: (session_store \<times> unit, vm_response option) prog"
  let ?init = "sys_init PROXY_SOCKET_PATH (demo_empty, ())"
  from joint_created_run obtain q keys store' where run:
    "run_prog (handle_create_environment joint 0 (Inr ''sess_001'')) vm_state_new (demo_empty, ())
      = (q, launched_state 0 joint_request (pool_ip 2) 1000 keys (vm_state_new\<lparr>allocated_ips := [pool_ip 2]\<rparr>),
         (store', ()), [?t])" by blast
  let ?st = "launched_state 0 joint_request (pool_ip 2) 1000 keys (vm_state_new\<lparr>allocated_ips := [pool_ip 2]\<rparr>)"
  define s1 where "s1 = \<lparr>sys_mgr = ?st, sys_world = (store', ()), sys_threads = [q, ?life], sys_chan = 1\<rparr>"
  have "handle_request joint 0 ''POST'' ''/v1/environments'' (Inr ''sess_001'')
      = handle_create_environment joint 0 (Inr ''sess_001'')" by (simp add: handle_request_def)
  then have posted: "run_prog (handle_request joint (sys_chan ?init) ''POST'' ''/v1/environments'' (Inr ''sess_001''))
      (sys_mgr ?init) (sys_world ?init) = (q, ?st, (store', ()), [?t])"
    using run by (simp add: sys_init_def vm_state_new_def)
  have start: "joint_reaches demo_api demo_cfg demo_wire joint_rest ?init s1"
    using arrive_schedule[OF posted, of beside_proxy] by (simp add: s1_def sys_init_def joint_def)
  have fields: "t_session_id (task_of 0 joint_request ''img'' ip h) = ''sess_001''" "t_files (task_of 0 joint_request ''img'' ip h) = []"
    "t_chan (task_of 0 joint_request ''img'' ip h) = 0" for ip h
    by (simp_all add: task_of_def joint_request_def request_defaults_def)
  have launch: "launch_vm joint ?t w = (Inr 0, w)" for w
    by (cases w) (simp add: launch_vm_def fields jail_id_of_map joint_def joined_host_def fctools_beside_def beside_def joint_rest_def
        demo_vm_host_def demo_fctools_def jail_char_def is_digit_def err_context_def and_then_def prepare_files_def
        files_resource_def)
  have "\<not> sender_gone 0 ?st"
    by (simp add: sender_gone_def launched_state_def vm_state_new_def with_proxy_socket_def hm_insert_def)
  then have "run_prog ?life (sys_mgr s1) (sys_world s1) = (waiting_vm joint 0 ?t, sys_mgr s1, sys_world s1, [])"
    unfolding run_lifecycle using launch by (simp add: waiting_vm_def fields s1_def)
  from run_schedule[OF this, of 1 beside_proxy joint] start show ?thesis
    by (intro exI[of _ "s1\<lparr>sys_threads := (sys_threads s1)[1 := waiting_vm joint 0 ?t]\<rparr>"])
      (simp add: s1_def joint_def)
qed

end
