(* ===== verification/Certs.thy ===== *)
theory Certs
  imports Rust_Text
begin

text \<open>
  The certificate authority of the proxy (\<open>crates/proxy/src/certs.rs\<close>): the self-signed CA,
  the leaf certificates it signs, the resolver of server certificates by SNI, and the verifier of
  the upstream side. rcgen, rustls, pem and the arithmetic of the time crate are the fields of
  \<open>tls_lib\<close>; the world holds the clock and the source of keys. A DER encoding is a byte string.
\<close>

section \<open>Errors\<close>

datatype cert_error =
    KeyGen string
  | CaGen string
  | LeafGen string
  | KeyImport string
  | ServerConfigError string

fun cert_error_to_string :: "cert_error \<Rightarrow> string" where
  "cert_error_to_string (KeyGen e) = ''rcgen key generation failed: '' @ e"
| "cert_error_to_string (CaGen e) = ''rcgen CA certificate generation failed: '' @ e"
| "cert_error_to_string (LeafGen e) = ''rcgen leaf certificate generation failed: '' @ e"
| "cert_error_to_string (KeyImport e) = ''rustls key import failed: '' @ e"
| "cert_error_to_string (ServerConfigError e) = ''rustls server config build failed: '' @ e"

text \<open>A subtraction of times that leaves their range panics, and so does \<open>unwrap\<close> on the
  \<open>None\<close> of \<open>checked_add\<close>.\<close>

datatype 'a cert_result = CertOk 'a | CertErr cert_error | CertPanic

type_synonym ('w, 'a) cert_io = "'w \<Rightarrow> 'a cert_result \<times> 'w"

section \<open>The libraries\<close>

datatype dn_type = CommonName | OrganizationName

record cert_params =
  alt_names :: "string list"
  is_ca :: bool
  distinguished_name :: "(dn_type \<times> string) list"
  not_before :: int
  not_after :: int

record 'sk certified_key =
  cert_chain :: "string list"
  signing_key :: 'sk

record ('w, 'key, 'iss, 'sk, 'res) tls_lib =
  generate_key :: "'w \<Rightarrow> (string, 'key) result \<times> 'w"
  now_utc :: "'w \<Rightarrow> int \<times> 'w"
  time_sub :: "int \<Rightarrow> int \<Rightarrow> int option"
  time_add :: "int \<Rightarrow> int \<Rightarrow> int option"
  params_new :: "string list \<Rightarrow> (string, cert_params) result"
  self_signed :: "cert_params \<Rightarrow> 'key \<Rightarrow> (string, 'iss) result"
  issuer_der :: "'iss \<Rightarrow> string"
  signed_by :: "cert_params \<Rightarrow> 'key \<Rightarrow> 'iss \<Rightarrow> (string, string) result"
  serialize_der :: "'key \<Rightarrow> string"
  supported_type :: "string \<Rightarrow> (string, 'sk) result"
  pem_encode :: "string \<Rightarrow> string \<Rightarrow> string"
  resolver_new :: 'res
  resolver_add :: "string \<Rightarrow> 'sk certified_key \<Rightarrow> 'res \<Rightarrow> (string, 'res) result"
  resolver_get :: "'res \<Rightarrow> string \<Rightarrow> 'sk certified_key option"

text \<open>The operator \<open>?\<close> after \<open>map_err\<close>, on a value and on a call that changes the world, and
  \<open>unwrap\<close>.\<close>

definition cert_try :: "(string, 'a) result \<Rightarrow> (string \<Rightarrow> cert_error) \<Rightarrow> ('a \<Rightarrow> ('w, 'b) cert_io) \<Rightarrow> ('w, 'b) cert_io" where
  "cert_try r err k w = (case r of Inl e \<Rightarrow> (CertErr (err e), w) | Inr a \<Rightarrow> k a w)"

definition cert_unwrap :: "'a option \<Rightarrow> ('a \<Rightarrow> ('w, 'b) cert_io) \<Rightarrow> ('w, 'b) cert_io" where
  "cert_unwrap x k w = (case x of None \<Rightarrow> (CertPanic, w) | Some a \<Rightarrow> k a w)"

definition cert_then :: "('w, 'a) cert_io \<Rightarrow> ('a \<Rightarrow> ('w, 'b) cert_io) \<Rightarrow> ('w, 'b) cert_io" where
  "cert_then m k w =
     (case m w of
        (CertOk a, w') \<Rightarrow> k a w'
      | (CertErr e, w') \<Rightarrow> (CertErr e, w')
      | (CertPanic, w') \<Rightarrow> (CertPanic, w'))"

text \<open>\<open>KeyPair::generate_for\<close> with its error, and the two bounds of a validity period.\<close>

definition new_key :: "('w, 'key, 'iss, 'sk, 'res) tls_lib \<Rightarrow> ('w, 'key) cert_io" where
  "new_key lb w =
     (case generate_key lb w of
        (Inl e, w') \<Rightarrow> (CertErr (KeyGen e), w')
      | (Inr key, w') \<Rightarrow> (CertOk key, w'))"

definition validity ::
  "('w, 'key, 'iss, 'sk, 'res) tls_lib \<Rightarrow> int \<Rightarrow> int \<Rightarrow> (int \<times> int \<Rightarrow> ('w, 'b) cert_io) \<Rightarrow> ('w, 'b) cert_io" where
  "validity lb before after k w =
     (case now_utc lb w of (t1, w1) \<Rightarrow>
        cert_unwrap (time_sub lb t1 before) (\<lambda>nb w.
          case now_utc lb w of (t2, w2) \<Rightarrow>
            cert_unwrap (time_add lb t2 after) (\<lambda>na. k (nb, na)) w2) w1)"

section \<open>The authority\<close>

record 'iss ca =
  issuer :: 'iss
  ca_der :: string

definition minutes :: "int \<Rightarrow> int" where "minutes n = n * 60"
definition days :: "int \<Rightarrow> int" where "days n = n * 86400"

definition generate :: "('w, 'key, 'iss, 'sk, 'res) tls_lib \<Rightarrow> ('w, 'iss ca) cert_io" where
  "generate lb =
     cert_then (new_key lb) (\<lambda>key.
     cert_try (params_new lb []) CaGen (\<lambda>params.
     validity lb (days 1) (days 3650) (\<lambda>(nb, na).
       let params = params\<lparr>is_ca := True,
             distinguished_name := [(CommonName, ''ae-poc MITM CA''), (OrganizationName, ''mintybasil'')],
             not_before := nb, not_after := na\<rparr>
       in cert_try (self_signed lb params key) CaGen (\<lambda>iss w.
            (CertOk \<lparr>issuer = iss, ca_der = issuer_der lb iss\<rparr>, w)))))"

definition ca_pem :: "('w, 'key, 'iss, 'sk, 'res) tls_lib \<Rightarrow> 'iss ca \<Rightarrow> string" where
  "ca_pem lb ca = pem_encode lb ''CERTIFICATE'' (ca_der ca)"

definition sign_leaf ::
  "('w, 'key, 'iss, 'sk, 'res) tls_lib \<Rightarrow> 'iss ca \<Rightarrow> string \<Rightarrow> ('w, 'sk certified_key) cert_io" where
  "sign_leaf lb ca hostname =
     cert_then (new_key lb) (\<lambda>leaf_key.
     cert_try (params_new lb [hostname]) LeafGen (\<lambda>params.
     validity lb (minutes 1) (days 7) (\<lambda>(nb, na).
       let params = params\<lparr>distinguished_name := [(CommonName, hostname)],
             not_before := nb, not_after := na\<rparr>
       in cert_try (signed_by lb params leaf_key (issuer ca)) LeafGen (\<lambda>cert_der.
          cert_try (supported_type lb (serialize_der lb leaf_key)) KeyImport (\<lambda>sk w.
            (CertOk \<lparr>cert_chain = [cert_der], signing_key = sk\<rparr>, w))))))"

text \<open>The loop of \<open>server_config\<close>. A server configuration is its resolver; clients are not
  authenticated.\<close>

fun add_hosts ::
  "('w, 'key, 'iss, 'sk, 'res) tls_lib \<Rightarrow> 'iss ca \<Rightarrow> string list \<Rightarrow> 'res \<Rightarrow> ('w, 'res) cert_io" where
  "add_hosts lb ca [] res = (\<lambda>w. (CertOk res, w))"
| "add_hosts lb ca (host # hs) res =
     cert_then (sign_leaf lb ca host) (\<lambda>ck.
     cert_try (resolver_add lb host ck res)
       (\<lambda>e. ServerConfigError (''SNI resolver add '' @ host @ '': '' @ e)) (\<lambda>res.
     add_hosts lb ca hs res))"

definition server_config ::
  "('w, 'key, 'iss, 'sk, 'res) tls_lib \<Rightarrow> 'iss ca \<Rightarrow> string list \<Rightarrow> ('w, 'res) cert_io" where
  "server_config lb ca hosts = add_hosts lb ca hosts (resolver_new lb)"

section \<open>The upstream side\<close>

datatype signature_scheme =
    ECDSA_NISTP256_SHA256 | ECDSA_NISTP384_SHA384 | RSA_PSS_SHA256 | RSA_PSS_SHA384 | ED25519

record cert_verifier =
  verify_server_cert :: "string \<Rightarrow> string list \<Rightarrow> string \<Rightarrow> string \<Rightarrow> u64 \<Rightarrow> (string, unit) result"
  verify_tls12_signature :: "string \<Rightarrow> string \<Rightarrow> string \<Rightarrow> (string, unit) result"
  verify_tls13_signature :: "string \<Rightarrow> string \<Rightarrow> string \<Rightarrow> (string, unit) result"
  supported_verify_schemes :: "signature_scheme list"

definition no_verifier :: cert_verifier where
  "no_verifier =
     \<lparr>verify_server_cert = (\<lambda>end_entity intermediates server ocsp now. Inr ()),
      verify_tls12_signature = (\<lambda>message cert dss. Inr ()),
      verify_tls13_signature = (\<lambda>message cert dss. Inr ()),
      supported_verify_schemes =
        [ECDSA_NISTP256_SHA256, ECDSA_NISTP384_SHA384, RSA_PSS_SHA256, RSA_PSS_SHA384, ED25519]\<rparr>"

text \<open>A client configuration is its verifier; it presents no certificate.\<close>

definition upstream_client_config_no_verify :: "cert_verifier cert_result" where
  "upstream_client_config_no_verify = CertOk no_verifier"

section \<open>Outcomes\<close>

lemma cert_then_CertOk:
  "cert_then m k w = (CertOk b, w') \<longleftrightarrow> (\<exists>a w1. m w = (CertOk a, w1) \<and> k a w1 = (CertOk b, w'))"
  by (auto simp: cert_then_def split: prod.split cert_result.split)

lemma cert_try_CertOk:
  "cert_try r err k w = (CertOk b, w') \<longleftrightarrow> (\<exists>a. r = Inr a \<and> k a w = (CertOk b, w'))"
  by (auto simp: cert_try_def split: sum.split)

lemma cert_unwrap_CertOk:
  "cert_unwrap x k w = (CertOk b, w') \<longleftrightarrow> (\<exists>a. x = Some a \<and> k a w = (CertOk b, w'))"
  by (auto simp: cert_unwrap_def split: option.split)

lemma validity_CertOk:
  "validity lb before after k w = (CertOk b, w') \<longleftrightarrow>
     (\<exists>t1 w1 nb t2 w2 na. now_utc lb w = (t1, w1) \<and> time_sub lb t1 before = Some nb
        \<and> now_utc lb w1 = (t2, w2) \<and> time_add lb t2 after = Some na \<and> k (nb, na) w2 = (CertOk b, w'))"
  by (cases "now_utc lb w"; cases "now_utc lb (snd (now_utc lb w))")
    (auto simp: validity_def cert_unwrap_CertOk)

lemmas cert_ok = cert_then_CertOk cert_try_CertOk cert_unwrap_CertOk validity_CertOk

text \<open>What is known of a leaf certificate for a host.\<close>

definition leaf_for ::
  "('w, 'key, 'iss, 'sk, 'res) tls_lib \<Rightarrow> 'iss ca \<Rightarrow> string \<Rightarrow> 'sk certified_key \<Rightarrow> bool" where
  "leaf_for lb ca host ck \<longleftrightarrow>
     (\<exists>key params t1 nb t2 na der. params_new lb [host] = Inr params
        \<and> time_sub lb t1 (minutes 1) = Some nb \<and> time_add lb t2 (days 7) = Some na
        \<and> signed_by lb (params\<lparr>distinguished_name := [(CommonName, host)], not_before := nb, not_after := na\<rparr>)
             key (issuer ca) = Inr der
        \<and> cert_chain ck = [der] \<and> supported_type lb (serialize_der lb key) = Inr (signing_key ck))"

lemma sign_leaf_for: "sign_leaf lb ca host w = (CertOk ck, w') \<Longrightarrow> leaf_for lb ca host ck"
  by (auto simp: sign_leaf_def cert_ok Let_def leaf_for_def) blast

text \<open>The documented behaviour of \<open>ResolvesServerCertUsingSni\<close>: names are kept in lower case.\<close>

definition sni_lawful :: "('w, 'key, 'iss, 'sk, 'res) tls_lib \<Rightarrow> bool" where
  "sni_lawful lb \<longleftrightarrow> (\<forall>n. resolver_get lb (resolver_new lb) n = None)
     \<and> (\<forall>host ck res res'. resolver_add lb host ck res = Inr res' \<longrightarrow>
          resolver_get lb res' = (resolver_get lb res)(to_lowercase host \<mapsto> ck))"

lemma add_hosts_get:
  assumes "sni_lawful lb"
  shows "add_hosts lb ca hs res w = (CertOk res', w') \<Longrightarrow>
    (resolver_get lb res' n = None \<longleftrightarrow> n \<notin> to_lowercase ` set hs \<and> resolver_get lb res n = None)
    \<and> (\<forall>ck. resolver_get lb res' n = Some ck \<longrightarrow>
         resolver_get lb res n = Some ck \<or> (\<exists>host\<in>set hs. to_lowercase host = n \<and> leaf_for lb ca host ck))"
proof (induction hs arbitrary: res w)
  case (Cons h hs)
  then obtain ck w1 res1 where
    leaf: "sign_leaf lb ca h w = (CertOk ck, w1)" and add: "resolver_add lb h ck res = Inr res1"
    and rest: "add_hosts lb ca hs res1 w1 = (CertOk res', w')" by (auto simp: cert_ok)
  from assms add have "resolver_get lb res1 = (resolver_get lb res)(to_lowercase h \<mapsto> ck)"
    by (simp add: sni_lawful_def)
  with Cons.IH[OF rest] sign_leaf_for[OF leaf] show ?case by (auto split: if_splits)
qed simp

lemma server_config_get:
  assumes "sni_lawful lb" and "server_config lb ca hosts w = (CertOk res, w')"
  shows "resolver_get lb res n = None \<longleftrightarrow> n \<notin> to_lowercase ` set hosts"
    and "resolver_get lb res n = Some ck \<Longrightarrow> \<exists>host\<in>set hosts. to_lowercase host = n \<and> leaf_for lb ca host ck"
  using add_hosts_get[OF assms(1), of ca hosts "resolver_new lb" w res w' n] assms
  by (auto simp: server_config_def sni_lawful_def)

text \<open>Where \<open>server_config\<close> stops.\<close>

lemma add_hosts_error:
  assumes "\<And>w. \<exists>ck w'. sign_leaf lb ca host w = (CertOk ck, w')" and "\<And>ck res. resolver_add lb host ck res = Inl e"
  shows "\<exists>w'. add_hosts lb ca (host # hs) res w = (CertErr (ServerConfigError (''SNI resolver add '' @ host @ '': '' @ e)), w')"
  using assms(1)[of w] by (auto simp: cert_then_def cert_try_def assms(2))

text \<open>The kinds of errors of each operation.\<close>

lemma generate_error: "fst (generate lb w) = CertErr e \<Longrightarrow> \<exists>s. e = KeyGen s \<or> e = CaGen s"
  by (auto simp: generate_def cert_then_def cert_try_def new_key_def validity_def cert_unwrap_def Let_def
      split: prod.splits sum.splits option.splits)

lemma sign_leaf_error: "fst (sign_leaf lb ca h w) = CertErr e \<Longrightarrow> \<exists>s. e = KeyGen s \<or> e = LeafGen s \<or> e = KeyImport s"
  by (auto simp: sign_leaf_def cert_then_def cert_try_def new_key_def validity_def cert_unwrap_def Let_def
      split: prod.splits sum.splits option.splits)

section \<open>Libraries to evaluate on\<close>

text \<open>Keys are numbers drawn from the world, which is also the clock; a certificate is the text of
  its subject.\<close>

definition demo_tls :: "(int, int, int, int, (string, int certified_key) hashmap) tls_lib" where
  "demo_tls =
     \<lparr>generate_key = \<lambda>w. (Inr w, w + 1), now_utc = \<lambda>w. (w, w), time_sub = \<lambda>t d. Some (t - d),
      time_add = \<lambda>t d. Some (t + d),
      params_new = \<lambda>ns. Inr \<lparr>alt_names = ns, is_ca = False, distinguished_name = [], not_before = 0, not_after = 0\<rparr>,
      self_signed = \<lambda>p k. Inr k, issuer_der = \<lambda>i. ''ca'', signed_by = \<lambda>p k i. Inr (concat (alt_names p)),
      serialize_der = \<lambda>k. ''key'', supported_type = \<lambda>d. Inr 0, pem_encode = \<lambda>t d. d,
      resolver_new = [], resolver_add = \<lambda>n ck m. Inr (hm_insert (to_lowercase n) ck m), resolver_get = hm_get\<rparr>"

lemma demo_sni_lawful: "sni_lawful demo_tls"
  by (simp add: sni_lawful_def demo_tls_def hm_simps)

end
