(* ===== verification/Proxy_Main.thy ===== *)
theory Proxy_Main
  imports Certs Proxy_Connect
begin

text \<open>
  The proxy binary (\<open>crates/proxy/src/main.rs\<close>) and the service of one connection
  (\<open>handle_connection\<close> in \<open>crates/proxy/src/proxy.rs\<close>): start-up to the listening state, the accept
  loop, and the requests of one connection. Standard input, the key file parser, SHA-256, the
  clock and \<open>bind\<close> are arguments; tracing is left out.
\<close>

section \<open>Start-up\<close>

definition hex_digit :: "nat \<Rightarrow> char" where
  "hex_digit n = (if n < 10 then char_of (48 + n) else char_of (87 + n))"

text \<open>\<open>format!("{b:02x}")\<close>.\<close>

definition hex_byte :: "char \<Rightarrow> string" where
  "hex_byte b = [hex_digit (byte b div 16), hex_digit (byte b mod 16)]"

definition fingerprint :: "(string \<Rightarrow> string) \<Rightarrow> string \<Rightarrow> string" where
  "fingerprint sha256 der = join '':'' (map hex_byte (sha256 der))"

definition PROXY_LISTEN_PORT :: u16 where "PROXY_LISTEN_PORT = 9999"

definition listen_addr :: string where
  "listen_addr = ''0.0.0.0:'' @ show_nat (unat PROXY_LISTEN_PORT)"

definition served_hosts :: "string list" where
  "served_hosts = [''api.openai.com'']"

record ('w, 'key, 'iss, 'sk, 'res) main_env =
  me_tls :: "('w, 'key, 'iss, 'sk, 'res) tls_lib"
  me_parse_keys :: "string \<Rightarrow> (string, (string, key_pair) hashmap) result"
  me_stdin :: "(string, string) result"
  me_sha256 :: "string \<Rightarrow> string"
  me_sessions :: session_lib
  me_now :: "'w \<Rightarrow> u64"
  me_bind :: "string \<Rightarrow> 'w \<Rightarrow> (string, unit) result \<times> 'w"

text \<open>\<open>ProxyState\<close> with its TLS configurations, and the address that is bound.\<close>

record 'res serving =
  sv_config :: proxy_config
  sv_sessions :: session_store
  sv_server_config :: 'res
  sv_upstream_config :: cert_verifier
  sv_addr :: string

datatype 'res started = Exited string | Panicked | Serving "'res serving"

definition initial_config :: "fetcher \<Rightarrow> string \<Rightarrow> u64 \<Rightarrow> proxy_config" where
  "initial_config f fp now =
     \<lparr>upstream_port = 443, upstream_host = [], expected_vm_ip = [], secret_store = Some f,
      ca_cert_sha256 = fp, start_time = now\<rparr>"

text \<open>The operator \<open>?\<close> of \<open>main\<close>, on certificates and on plain results.\<close>

definition main_cert :: "('w, 'a) cert_io \<Rightarrow> ('a \<Rightarrow> 'w \<Rightarrow> 'res started \<times> 'w) \<Rightarrow> 'w \<Rightarrow> 'res started \<times> 'w" where
  "main_cert m k w =
     (case m w of
        (CertOk a, w') \<Rightarrow> k a w'
      | (CertErr e, w') \<Rightarrow> (Exited (cert_error_to_string e), w')
      | (CertPanic, w') \<Rightarrow> (Panicked, w'))"

definition main_try :: "('e, 'a) result \<Rightarrow> ('e \<Rightarrow> string) \<Rightarrow> ('a \<Rightarrow> 'w \<Rightarrow> 'res started \<times> 'w) \<Rightarrow> 'w \<Rightarrow> 'res started \<times> 'w" where
  "main_try r msg k w = (case r of Inl e \<Rightarrow> (Exited (msg e), w) | Inr a \<Rightarrow> k a w)"

definition main_io :: "('w \<Rightarrow> (string, 'a) result \<times> 'w) \<Rightarrow> ('a \<Rightarrow> 'w \<Rightarrow> 'res started \<times> 'w) \<Rightarrow> 'w \<Rightarrow> 'res started \<times> 'w" where
  "main_io f k w = (case f w of (Inl e, w') \<Rightarrow> (Exited e, w') | (Inr a, w') \<Rightarrow> k a w')"

definition proxy_main :: "('w, 'key, 'iss, 'sk, 'res) main_env \<Rightarrow> 'w \<Rightarrow> 'res started \<times> 'w" where
  "proxy_main me =
     main_try (file_store_from_stdin (me_parse_keys me) (me_stdin me))
       (\<lambda>_. ''Failed to read key pairs from stdin'') (\<lambda>store.
     main_cert (generate (me_tls me)) (\<lambda>ca.
     main_cert (server_config (me_tls me) ca served_hosts) (\<lambda>config.
     main_cert (\<lambda>w. (upstream_client_config_no_verify, w)) (\<lambda>upstream.
     main_try (in_memory (me_sessions me)) session_error_to_string (\<lambda>sessions w.
       let cfg = initial_config (file_fetch store) (fingerprint (me_sha256 me) (ca_der ca)) (me_now me w)
       in main_io (me_bind me listen_addr) (\<lambda>_ w.
            (Serving \<lparr>sv_config = cfg, sv_sessions = sessions, sv_server_config = config,
               sv_upstream_config = upstream, sv_addr = listen_addr\<rparr>, w)) w)))))"

section \<open>Connections\<close>

text \<open>The accept loop: the connections that get a task. The first accept error ends it, and
  with it the process.\<close>

datatype 'c accepted = NewConnection 'c | AcceptError string

fun accept_loop :: "'c accepted list \<Rightarrow> 'c list" where
  "accept_loop [] = []"
| "accept_loop (NewConnection c # as) = c # accept_loop as"
| "accept_loop (AcceptError e # as) = []"

text \<open>The log lines of \<open>handle_connection\<close> are the only use of \<open>expected_vm_ip\<close>. Each request meets the
  store of its time; after an answered CONNECT the connection is the tunnel's.\<close>

record tcp_request =
  tr_store :: session_store
  tr_method :: string
  tr_uri :: connect_uri
  tr_tunnel :: tunnel_env

fun handle_connection ::
  "proxy_config \<Rightarrow> string option \<Rightarrow> tcp_request list \<Rightarrow> (http_response \<times> tunnel_action list) list" where
  "handle_connection cfg peer [] = []"
| "handle_connection cfg peer (r # rs) =
     (let answer = proxy_service (tr_tunnel r) cfg (tr_store r) peer (tr_method r) (tr_uri r)
      in answer # (if status (fst answer) = 200 then [] else handle_connection cfg peer rs))"

section \<open>The fingerprint\<close>

lemma hex_digit_inj: "m < 16 \<Longrightarrow> n < 16 \<Longrightarrow> hex_digit m = hex_digit n \<longleftrightarrow> m = n"
  by (auto simp: hex_digit_def char_of_eq_iff take_bit_eq_mod split: if_splits)

lemma hex_byte_inj: "hex_byte a = hex_byte b \<longleftrightarrow> a = b"
proof
  assume h: "hex_byte a = hex_byte b"
  have n: "byte c div 16 < 16" "byte c mod 16 < 16" for c
    by (rule less_mult_imp_div_less, use of_char_mod_256[of c] in simp_all)
  from h n have "byte a div 16 = byte b div 16" "byte a mod 16 = byte b mod 16"
    by (simp_all add: hex_byte_def hex_digit_inj)
  then have "byte a = byte b" by (metis div_mult_mod_eq)
  then show "a = b" by simp
qed simp

lemma fingerprint_inj:
  assumes "length x = length y" and "join '':'' (map hex_byte x) = join '':'' (map hex_byte y)"
  shows "x = y"
  using assms
proof (induction x y rule: list_induct2)
  case (Cons a x b y)
  then show ?case by (cases x; cases y) (auto simp: hex_byte_inj[symmetric], auto simp: hex_byte_def)
qed simp

lemma fingerprint_length: "x \<noteq> [] \<Longrightarrow> length (join '':'' (map hex_byte x)) = 3 * length x - 1"
  by (induction x rule: induct_list012) (simp_all add: hex_byte_def)

section \<open>What a started proxy serves\<close>

lemma main_cert_Serving:
  "main_cert m k w = (Serving s, w') \<longleftrightarrow> (\<exists>a w1. m w = (CertOk a, w1) \<and> k a w1 = (Serving s, w'))"
  by (auto simp: main_cert_def split: prod.split cert_result.split)

lemma main_try_Serving:
  "main_try r msg k w = (Serving s, w') \<longleftrightarrow> (\<exists>a. r = Inr a \<and> k a w = (Serving s, w'))"
  by (auto simp: main_try_def split: sum.split)

lemma main_io_Serving:
  "main_io f k w = (Serving s, w') \<longleftrightarrow> (\<exists>a w1. f w = (Inr a, w1) \<and> k a w1 = (Serving s, w'))"
  by (auto simp: main_io_def split: prod.split sum.split)

lemma proxy_main_serving:
  assumes "proxy_main me w = (Serving s, w')"
  obtains store ca w1 w2 where "file_store_from_stdin (me_parse_keys me) (me_stdin me) = Inr store"
    and "generate (me_tls me) w = (CertOk ca, w1)"
    and "server_config (me_tls me) ca served_hosts w1 = (CertOk (sv_server_config s), w2)"
    and "in_memory (me_sessions me) = Inr (sv_sessions s)"
    and "sv_config s = initial_config (file_fetch store) (fingerprint (me_sha256 me) (ca_der ca)) (me_now me w2)"
    and "sv_upstream_config s = no_verifier" and "sv_addr s = listen_addr"
proof -
  from assms obtain store ca w1 config w2 sessions where
    "file_store_from_stdin (me_parse_keys me) (me_stdin me) = Inr store"
    "generate (me_tls me) w = (CertOk ca, w1)" "server_config (me_tls me) ca served_hosts w1 = (CertOk config, w2)"
    "in_memory (me_sessions me) = Inr sessions"
    "s = \<lparr>sv_config = initial_config (file_fetch store) (fingerprint (me_sha256 me) (ca_der ca)) (me_now me w2),
       sv_sessions = sessions, sv_server_config = config, sv_upstream_config = no_verifier, sv_addr = listen_addr\<rparr>"
    by (auto simp: proxy_main_def main_try_Serving main_cert_Serving main_io_Serving
        upstream_client_config_no_verify_def Let_def)
  then show thesis by (intro that) simp_all
qed

text \<open>A started proxy has no session, and only the store's API adds one: every CONNECT is refused.\<close>

lemma fresh_sessions: "in_memory lb = Inr st \<Longrightarrow> store_get_by_ip st ip = None"
  by (auto simp: in_memory_def store_get_by_ip_def split: option.splits)

section \<open>A start to evaluate on\<close>

definition demo_main :: "(int, int, int, int, (string, int certified_key) hashmap) main_env" where
  "demo_main = \<lparr>me_tls = demo_tls, me_parse_keys = \<lambda>s. Inr [(s, \<lparr>dummy = ''d'', real = ''r''\<rparr>)],
     me_stdin = Inr ''openai'', me_sha256 = \<lambda>d. d, me_sessions = demo_lib, me_now = \<lambda>w. 1000,
     me_bind = \<lambda>a w. (Inr (), w)\<rparr>"

lemma demo_main_serves: "\<exists>s w'. proxy_main demo_main 0 = (Serving s, w')"
  by (simp add: proxy_main_def demo_main_def main_try_def main_cert_def main_io_def file_store_from_stdin_def file_store_new_def
      generate_def server_config_def served_hosts_def sign_leaf_def demo_tls_def cert_then_def cert_try_def new_key_def
      validity_def cert_unwrap_def Let_def upstream_client_config_no_verify_def in_memory_def demo_lib_def)

section \<open>Properties\<close>



end
