(* ===== verification/Vm_Main.thy ===== *)
theory Vm_Main
  imports Vm_Api
begin

text \<open>
  The VM manager binary (\<open>crates/vm-manager/src/main.rs\<close>) and its server loop (\<open>run_server\<close> in
  \<open>crates/vm-manager/src/api.rs\<close>): the nftables tables are installed, the server runs until it fails,
  stops accepting or Ctrl+C arrives, and the tables are removed. What each accepted
  connection asks for is \<open>Vm_System\<close>'s arrival of requests; here the server is its outcome.
\<close>

section \<open>The server\<close>

definition manager_addr :: string where
  "manager_addr = ''127.0.0.1:8080''"

datatype 'c connection = Connection 'c | AcceptFailure string

text \<open>The accept loop of \<open>run_server\<close>: the connections that get a task.\<close>

fun serve_loop :: "'c connection list \<Rightarrow> 'c list" where
  "serve_loop [] = []"
| "serve_loop (Connection c # cs) = c # serve_loop cs"
| "serve_loop (AcceptFailure e # cs) = []"

definition run_server ::
  "(string \<Rightarrow> (string, unit) result) \<Rightarrow> string \<Rightarrow> 'c connection list \<Rightarrow> (string, 'c list) result" where
  "run_server bind addr incoming =
     (case bind addr of Inl e \<Rightarrow> Inl e | Inr _ \<Rightarrow> Inr (serve_loop incoming))"

text \<open>One connection: its requests one after the other, each a task.\<close>

definition serve_connection ::
  "('w, 'dt) vm_host \<Rightarrow> (nat \<times> string \<times> string \<times> (string, string) result) list \<Rightarrow> 'w handler list" where
  "serve_connection host reqs = map (\<lambda>(c, meth, path, b). handle_request host c meth path b) reqs"

section \<open>The binary\<close>

text \<open>How \<open>select!\<close> ends: the server's result or the signal.\<close>

datatype server_end = Server_done "(string, unit) result" | Ctrl_C

definition remove_tables :: "'h exec \<Rightarrow> 'h \<Rightarrow> 'h" where
  "remove_tables exec h = snd (remove_nftables_base exec (snd (remove_input_filter exec h)))"

text \<open>Failing installations are logged and ignored.\<close>

definition manager_main ::
  "'h exec \<Rightarrow> (string \<Rightarrow> string \<Rightarrow> 'h \<Rightarrow> 'h net) \<Rightarrow> ('h \<Rightarrow> server_end \<times> 'h) \<Rightarrow> 'h \<Rightarrow> 'h net" where
  "manager_main exec write serve h =
     (let h = snd (install_nftables_base exec write h);
          h = snd (install_input_filter exec write h)
      in case serve h of
           (Server_done (Inl e), h') \<Rightarrow> (Inl e, h')
         | (Server_done (Inr _), h') \<Rightarrow> (Inr (), remove_tables exec h')
         | (Ctrl_C, h') \<Rightarrow> (Inr (), remove_tables exec h'))"

section \<open>Commands\<close>

definition delete_table_cmds :: "string list list" where
  "delete_table_cmds =
     [[''sudo'', NFT, ''delete'', ''table'', ''inet'', NFT_FILTER_TABLE],
      [''sudo'', NFT, ''delete'', ''table'', ''ip'', NFT_TABLE]]"

lemma run_cmd_log: "snd (run_cmd (log_exec f) cmd h) = h @ [cmd]"
  by (simp add: run_cmd_def log_exec_def split: exec_outcome.split)

lemma remove_tables_log: "remove_tables (log_exec f) h = h @ delete_table_cmds"
  by (simp add: remove_tables_def remove_nftables_base_def remove_input_filter_def ignore_then_def run_cmd_log
      delete_table_cmds_def)

lemma install_log:
  "snd (install_ruleset (log_exec f) (\<lambda>p r h. (wr p r, h)) path ruleset h)
     = (case wr path ruleset of Inl e \<Rightarrow> h | Inr _ \<Rightarrow> h @ [[''sudo'', NFT, ''-f'', path]])"
  using run_cmd_log[of f "[''sudo'', NFT, ''-f'', path]" h]
  by (auto simp: install_ruleset_def try_then_def split: sum.splits prod.splits)

lemma installed_log:
  "snd (install_input_filter (log_exec f) (\<lambda>p r h. (Inr (), h))
      (snd (install_nftables_base (log_exec f) (\<lambda>p r h. (Inr (), h)) h)))
   = h @ [[''sudo'', NFT, ''-f'', ''/tmp/ae-vm-manager-base.conf''],
      [''sudo'', NFT, ''-f'', ''/tmp/ae-vm-manager-filter.conf'']]"
  by (simp add: install_input_filter_def install_nftables_base_def install_log)

text \<open>
  The tables of the manager: whatever the installations answer, both are attempted in order, and when
  the server stops or Ctrl+C arrives both tables are deleted; when the server returns an error
  (its address is taken, say) the process ends without deleting anything.
\<close>

lemma manager_tables:
  assumes "serve (h @ [[''sudo'', NFT, ''-f'', ''/tmp/ae-vm-manager-base.conf''],
      [''sudo'', NFT, ''-f'', ''/tmp/ae-vm-manager-filter.conf'']]) = (out, h')"
  shows "manager_main (log_exec f) (\<lambda>p r h. (Inr (), h)) serve h =
    (case out of
       Server_done (Inl e) \<Rightarrow> (Inl e, h')
     | _ \<Rightarrow> (Inr (), h' @ delete_table_cmds))"
  using assms
  by (auto simp: manager_main_def Let_def installed_log remove_tables_log split: server_end.split sum.split)

end
