(* ===== verification/Session_Spec.thy ===== *)
theory Session_Spec
  imports Session Demo_Codec
begin

text \<open>
  What the session store promises, without its table, its map by IP or their order: a set of
  sessions and the statistics by id. \<open>call_store\<close> is one method call on the store (or a
  restart on the file it wrote), \<open>spec_call\<close> the same call on the specification; the locale
  \<open>data_refinement\<close> lifts the simulation of one call to runs.
\<close>

section \<open>Functional refinement\<close>

fun run_calls :: "('op \<Rightarrow> 's \<Rightarrow> 'ans \<times> 's) \<Rightarrow> 'op list \<Rightarrow> 's \<Rightarrow> 'ans list \<times> 's" where
  "run_calls call [] s = ([], s)"
| "run_calls call (c # cs) s =
     (case call c s of (a, s1) \<Rightarrow> case run_calls call cs s1 of (as, s2) \<Rightarrow> (a # as, s2))"

locale data_refinement =
  fixes inv :: "'s \<Rightarrow> bool" and abs :: "'s \<Rightarrow> 'a"
    and call :: "'op \<Rightarrow> 's \<Rightarrow> 'ans \<times> 's" and spec :: "'op \<Rightarrow> 'a \<Rightarrow> 'ans \<times> 'a"
  assumes call_inv: "inv s \<Longrightarrow> inv (snd (call c s))"
    and call_spec: "inv s \<Longrightarrow> spec c (abs s) = (fst (call c s), abs (snd (call c s)))"
begin

lemma run_spec:
  "inv s \<Longrightarrow> run_calls spec cs (abs s) = (fst (run_calls call cs s), abs (snd (run_calls call cs s)))"
proof (induction cs arbitrary: s)
  case (Cons c cs)
  from Cons.IH[OF call_inv[OF Cons.prems, of c]] call_spec[OF Cons.prems, of c] show ?case
    by (simp add: case_prod_unfold)
qed simp

lemma run_inv: "inv s \<Longrightarrow> inv (snd (run_calls call cs s))"
  by (induction cs arbitrary: s) (simp_all add: case_prod_unfold call_inv)

end

section \<open>The calls\<close>

datatype store_call =
    Create session | Delete string | Set_keys string "(string, string) hashmap"
  | Record string string u64 u64 | Stats_of string
  | Lookup string | Lookup_ip string | Every | Size | Restart u64

datatype store_answer =
    Created "(session_error, unit) result" | Deleted "(session_error, bool) result" | Keys_set bool
  | Recorded | Stats "session_stats option" | Sessions "session set" | Counted nat
  | Restarted "session_error option"

fun call_store :: "session_lib \<Rightarrow> store_call \<Rightarrow> session_store \<Rightarrow> store_answer \<times> session_store" where
  "call_store lib (Create s) st = apfst Created (store_create lib s st)"
| "call_store lib (Delete sid) st = apfst Deleted (store_delete lib sid st)"
| "call_store lib (Set_keys sid keys) st = apfst Keys_set (set_key_map sid keys st)"
| "call_store lib (Record sid kind up down) st = (Recorded, record_stats sid kind up down st)"
| "call_store lib (Stats_of sid) st = (Stats (get_stats st sid), st)"
| "call_store lib (Lookup sid) st = (Sessions (set_option (store_get st sid)), st)"
| "call_store lib (Lookup_ip ip) st = (Sessions (set_option (store_get_by_ip st ip)), st)"
| "call_store lib Every st = (Sessions (set (store_list st)), st)"
| "call_store lib Size st = (Counted (store_count st), st)"
| "call_store lib (Restart now) st =
     (case store_open lib now (conn st) of
        Inl e \<Rightarrow> (Restarted (Some e), st)
      | Inr st' \<Rightarrow> (Restarted None, st'))"

section \<open>The specification\<close>

record registry_spec =
  registered :: "session set"
  recorded :: "string \<Rightarrow> session_stats option"

fun spec_call :: "store_call \<Rightarrow> registry_spec \<Rightarrow> store_answer \<times> registry_spec" where
  "spec_call (Create s) r =
     (if \<exists>t\<in>registered r. session_id t = session_id s
      then (Created (Inl (AlreadyExists (session_id s))), r)
      else if \<exists>t\<in>registered r. source_ip t = source_ip s
      then (Created (Inl (AlreadyExists (source_ip s))), r)
      else (Created (Inr ()), r\<lparr>registered := insert (s\<lparr>dummy_to_real := []\<rparr>) (registered r)\<rparr>))"
| "spec_call (Delete sid) r =
     (if \<exists>t\<in>registered r. session_id t = sid
      then (Deleted (Inr True), \<lparr>registered = {t \<in> registered r. session_id t \<noteq> sid},
              recorded = (recorded r)(sid := None)\<rparr>)
      else (Deleted (Inr False), r))"
| "spec_call (Set_keys sid keys) r =
     (Keys_set (\<exists>t\<in>registered r. session_id t = sid),
      r\<lparr>registered := (\<lambda>t. if session_id t = sid then t\<lparr>dummy_to_real := keys\<rparr> else t) ` registered r\<rparr>)"
| "spec_call (Record sid kind up down) r =
     (Recorded, r\<lparr>recorded := (recorded r)(sid \<mapsto> bump_stats kind up down
        (case recorded r sid of None \<Rightarrow> default_stats | Some e \<Rightarrow> e))\<rparr>)"
| "spec_call (Stats_of sid) r = (Stats (recorded r sid), r)"
| "spec_call (Lookup sid) r = (Sessions {t \<in> registered r. session_id t = sid}, r)"
| "spec_call (Lookup_ip ip) r = (Sessions {t \<in> registered r. source_ip t = ip}, r)"
| "spec_call Every r = (Sessions (registered r), r)"
| "spec_call Size r = (Counted (card (registered r)), r)"
| "spec_call (Restart now) r =
     (Restarted None, \<lparr>registered = forget_keys ` {t \<in> registered r. \<not> session_expired now t},
        recorded = Map.empty\<rparr>)"

definition registry_of :: "session_store \<Rightarrow> registry_spec" where
  "registry_of st = \<lparr>registered = set (hm_values (sessions st)), recorded = hm_get (stats st)\<rparr>"

section \<open>Simulation\<close>

definition faultless :: "session_lib \<Rightarrow> bool" where
  "faultless lib \<longleftrightarrow> json_lawful lib \<and> (\<forall>q. sql_fault lib q = None) \<and> (\<forall>a. \<exists>j. to_json lib a = Inr j)"

definition spec_inv :: "session_lib \<Rightarrow> session_store \<Rightarrow> bool" where
  "spec_inv lib st \<longleftrightarrow> faultless lib \<and> registry_inv lib st"

lemma spec_inv_lib: "spec_inv lib st \<Longrightarrow> sql_fault lib q = None" "spec_inv lib st \<Longrightarrow> \<exists>j. to_json lib a = Inr j"
  by (simp_all add: spec_inv_def faultless_def)

lemma spec_inv_store:
  "spec_inv lib st \<Longrightarrow> store_inv lib st" "spec_inv lib st \<Longrightarrow> mem_ok (sessions st)"
  "spec_inv lib st \<Longrightarrow> json_lawful lib"
  by (simp_all add: spec_inv_def registry_inv_def store_inv_def)

lemma registered_id: "(\<exists>t\<in>set (hm_values (sessions st)). session_id t = sid) \<longleftrightarrow> store_get st sid \<noteq> None"
  unfolding store_get_None_iff by auto

lemma registered_ip:
  "mem_ok (sessions st) \<Longrightarrow> (\<exists>t\<in>set (hm_values (sessions st)). source_ip t = ip) \<longleftrightarrow> store_get_by_ip st ip \<noteq> None"
  by (auto simp: store_get_by_ip_None_iff)

lemma lookup_set:
  "mem_ok (sessions st) \<Longrightarrow> set_option (store_get st sid) = {t \<in> set (hm_values (sessions st)). session_id t = sid}"
  "mem_ok (sessions st) \<Longrightarrow> set_option (store_get_by_ip st ip) = {t \<in> set (hm_values (sessions st)). source_ip t = ip}"
  using store_get_iff[of st sid] store_get_by_ip_iff[of st ip] by auto

lemma create_refines:
  assumes "spec_inv lib st"
  shows "spec_call (Create s) (registry_of st)
    = (fst (call_store lib (Create s) st), registry_of (snd (call_store lib (Create s) st)))"
proof -
  note inv = spec_inv_store[OF assms]
  obtain j where j: "to_json lib (allowlist s) = Inr j" using spec_inv_lib(2)[OF assms] by blast
  have fresh: "set (hm_values (sessions (inserted s j st))) = insert (forget_keys s) (set (hm_values (sessions st)))"
    if "store_get_by_ip st (source_ip s) = None"
    using inserted_sessions[OF inv(2) that, of j] by (auto simp: hm_values_def)
  have "stats (inserted s j st) = stats st" by (simp add: inserted_def)
  with fresh show ?thesis
    by (simp add: registry_of_def registered_id registered_ip[OF inv(2)] store_create_cases[OF inv(1)]
        spec_inv_lib(1)[OF assms] j forget_keys_def[symmetric])
qed

lemma delete_refines:
  assumes "spec_inv lib st"
  shows "spec_call (Delete sid) (registry_of st)
    = (fst (call_store lib (Delete sid) st), registry_of (snd (call_store lib (Delete sid) st)))"
proof (cases "store_get st sid")
  case None
  then show ?thesis
    by (simp add: registry_of_def registered_id store_delete_cases[OF spec_inv_store(2)[OF assms]])
next
  case (Some s)
  note mem = spec_inv_store(2)[OF assms]
  from Some have s: "s \<in> set (hm_values (sessions st))" "session_id s = sid"
    using store_get_iff[OF mem] by auto
  have "set (hm_values (sessions (deleted s st))) = {t \<in> set (hm_values (sessions st)). session_id t \<noteq> sid}"
    using hm_values_remove[OF mem s(1)] s(2) by (auto simp: deleted_def)
  moreover have "hm_get (stats (deleted s st)) = (hm_get (stats st))(sid := None)"
    using s(2) by (simp add: deleted_def hm_simps)
  ultimately show ?thesis
    using Some by (simp add: registry_of_def registered_id store_delete_cases[OF mem] spec_inv_lib(1)[OF assms])
qed

lemma keys_refine:
  assumes "spec_inv lib st"
  shows "spec_call (Set_keys sid keys) (registry_of st)
    = (fst (call_store lib (Set_keys sid keys) st), registry_of (snd (call_store lib (Set_keys sid keys) st)))"
proof -
  have kept: "stats (snd (set_key_map sid keys st)) = stats st" by (simp add: set_key_map_def)
  from set_key_map_found[OF spec_inv_store(2)[OF assms], of sid keys] show ?thesis
    by (simp add: registry_of_def registered_id hm_values_set_key_map[OF spec_inv_store(2)[OF assms]]
      kept apfst_def map_prod_def case_prod_unfold)
qed

lemma restart_refines:
  assumes "spec_inv lib st"
  shows "spec_call (Restart now) (registry_of st)
    = (fst (call_store lib (Restart now) st), registry_of (snd (call_store lib (Restart now) st)))"
proof -
  note inv = spec_inv_store[OF assms]
  obtain st' where op: "store_open lib now (conn st) = Inr st'"
    using spec_inv_lib(1)[OF assms] by (simp add: store_open_def Let_def)
  from inv(1) have sch: "schema_ok (conn st)" by (simp add: store_inv_def)
  note o = store_open_okD[OF op sch]
  have mem: "mem_ok (sessions st')" using o by (simp add: store_inv_def)
  have found: "t \<in> set (hm_values (sessions st')) \<longleftrightarrow> store_get st' (session_id t) = Some t" for t
    by (simp add: store_get_iff[OF mem])
  have kept: "store_get st' (session_id t) = Some t \<longleftrightarrow>
      (\<exists>s. store_get st (session_id t) = Some s \<and> \<not> session_expired now s \<and> t = forget_keys s)" for t
    by (auto simp: restart_get[OF inv(1) op] split: option.splits)
  have "t \<in> set (hm_values (sessions st')) \<longleftrightarrow>
      t \<in> forget_keys ` {s \<in> set (hm_values (sessions st)). \<not> session_expired now s}" for t
    unfolding found kept store_get_iff[OF inv(2)] by auto
  then have "set (hm_values (sessions st'))
      = forget_keys ` {t \<in> set (hm_values (sessions st)). \<not> session_expired now t}" by blast
  moreover have "stats st' = []" using op by (auto simp: store_open_def Let_def split: option.splits)
  ultimately show ?thesis by (simp add: op registry_of_def fun_eq_iff)
qed

lemma card_registered:
  assumes "spec_inv lib st"
  shows "card (registered (registry_of st)) = store_count st"
proof -
  have "distinct (hm_values (sessions st))"
    using spec_inv_store(2)[OF assms] by (simp add: mem_ok_def distinct_map)
  from distinct_card[OF this] show ?thesis
    by (simp only: registry_of_def registry_spec.select_convs store_count_def) (simp add: hm_values_def)
qed

lemma call_keeps_inv: "spec_inv lib st \<Longrightarrow> spec_inv lib (snd (call_store lib c st))"
proof -
  assume inv: "spec_inv lib st"
  note facts = spec_inv_store[OF inv]
  have "store_inv lib (snd (call_store lib c st))"
  proof (cases c)
    case (Restart now)
    have "schema_ok (conn st)" using facts(1) by (simp add: store_inv_def)
    then show ?thesis
      using facts(1) store_open_okD(4)[of lib now "conn st"] unfolding Restart
      by (cases "store_open lib now (conn st)") simp_all
  qed (use facts in \<open>simp_all add: store_inv_create store_inv_delete store_inv_set_key_map store_inv_record_stats\<close>)
  with inv show ?thesis by (simp add: spec_inv_def registry_inv_def)
qed

lemma call_refines:
  assumes "spec_inv lib st"
  shows "spec_call c (registry_of st) = (fst (call_store lib c st), registry_of (snd (call_store lib c st)))"
proof (cases c)
  case (Record sid kind up down)
  then show ?thesis by (simp add: registry_of_def record_stats_def Let_def hm_simps)
next
  case Size
  then show ?thesis by (simp add: card_registered[OF assms])
qed (use lookup_set[OF spec_inv_store(2)[OF assms]] in
    \<open>simp_all only: create_refines[OF assms] delete_refines[OF assms] keys_refine[OF assms] restart_refines[OF assms],
     simp_all add: registry_of_def get_stats_def store_list_def\<close>)

interpretation store_spec: data_refinement "spec_inv lib" registry_of "call_store lib" spec_call for lib
  by unfold_locales (rule call_keeps_inv, assumption, rule call_refines)

section \<open>Property\<close>



lemma demo_faultless: "faultless demo_session_lib"
  using demo_session_lawful by (simp add: faultless_def demo_session_lib_def)


end
