(* ===== verification/Store_Tests.thy ===== *)
theory Store_Tests
  imports Vault Session_Spec
begin

text \<open>
  The unit tests of vault.rs and session.rs, one definition each under its own name: the calls of
  the test on the model, and what it asserts. A failing \<open>unwrap\<close> fails the test. The tests of the key
  file run on \<open>key_file_json\<close>, a table of their JSON texts and the maps these stand for; the tests
  of the store take its library and the time as arguments.
\<close>

section \<open>Assertions\<close>

definition unwrapped :: "('e, 'a) result \<Rightarrow> ('a \<Rightarrow> bool) \<Rightarrow> bool" where
  "unwrapped r k = (case r of Inl e \<Rightarrow> False | Inr x \<Rightarrow> k x)"

definition unwrapped_err :: "('e, 'a) result \<Rightarrow> ('e \<Rightarrow> bool) \<Rightarrow> bool" where
  "unwrapped_err r k = (case r of Inl e \<Rightarrow> k e | Inr x \<Rightarrow> False)"

definition expected :: "'a option \<Rightarrow> ('a \<Rightarrow> bool) \<Rightarrow> bool" where
  "expected r k = (case r of None \<Rightarrow> False | Some x \<Rightarrow> k x)"

definition called :: "('e, 'a) result \<times> 's \<Rightarrow> ('a \<Rightarrow> 's \<Rightarrow> bool) \<Rightarrow> bool" where
  "called r k = unwrapped (fst r) (\<lambda>x. k x (snd r))"

lemma assertion_simps [simp]:
  "unwrapped (Inr x) k = k x" "unwrapped_err (Inl e) k' = k' e" "expected (Some x) k = k x"
  "called (Inr x, s) k2 = k2 x s"
  by (simp_all add: unwrapped_def unwrapped_err_def expected_def called_def)

lemma trim_lead: "trim (CHR '' '' # s) = trim s"
  by (simp add: trim_def trim_start_def trim_by.simps[of ws_len "CHR '' '' # s"] ws_len_def)

section \<open>Secret stores\<close>

definition test_mock_fetch_success :: bool where
  "test_mock_fetch_success =
     (let store = mock_insert mock_new ''vault://secret/data/test-key'' ''sk-dummy-123'' ''sk-real-456'' in
      unwrapped (mock_fetch store ''vault://secret/data/test-key'') (\<lambda>pair.
        dummy pair = ''sk-dummy-123'' \<and> real pair = ''sk-real-456''))"

definition test_mock_fetch_not_found :: bool where
  "test_mock_fetch_not_found =
     unwrapped_err (mock_fetch mock_new ''vault://secret/data/nonexistent'') (\<lambda>e. case e of
        SecretNotFound ref_str \<Rightarrow> ref_str = ''vault://secret/data/nonexistent'' | _ \<Rightarrow> False)"

definition two_keys_json :: \<open>string\<close> where
  \<open>two_keys_json =
     ''{"vault://secret/data/openai-key": {"dummy": "sk-dum-abc", "real": "sk-real-abc"}, '' @
     ''"vault://secret/data/anthropic-key": {"dummy": "sk-ant-dum-xyz", "real": "sk-ant-real-xyz"}}''\<close>

definition one_key_json :: \<open>string\<close> where
  \<open>one_key_json = ''{"vault://secret/data/openai-key": {"dummy": "sk-dum-abc", "real": "sk-real-abc"}}''\<close>

definition stdin_json :: \<open>string\<close> where
  \<open>stdin_json = ''{"vault://secret/data/test-key": {"dummy": "sk-dum-test", "real": "sk-real-test"}}''\<close>

definition key_file_json :: "string \<Rightarrow> (string, (string, key_pair) hashmap) result" where
  "key_file_json j =
     (if j = two_keys_json then
        Inr [(''vault://secret/data/openai-key'', \<lparr>dummy = ''sk-dum-abc'', real = ''sk-real-abc''\<rparr>),
             (''vault://secret/data/anthropic-key'', \<lparr>dummy = ''sk-ant-dum-xyz'', real = ''sk-ant-real-xyz''\<rparr>)]
      else if j = one_key_json then
        Inr [(''vault://secret/data/openai-key'', \<lparr>dummy = ''sk-dum-abc'', real = ''sk-real-abc''\<rparr>)]
      else if j = stdin_json then
        Inr [(''vault://secret/data/test-key'', \<lparr>dummy = ''sk-dum-test'', real = ''sk-real-test''\<rparr>)]
      else if j = ''{}'' then Inr []
      else Inl ''expected ident at line 1 column 2'')"

definition test_file_store_load_and_fetch :: bool where
  "test_file_store_load_and_fetch =
     unwrapped (file_store_new key_file_json two_keys_json) (\<lambda>store.
       unwrapped (file_fetch store ''vault://secret/data/openai-key'') (\<lambda>pair.
         dummy pair = ''sk-dum-abc'' \<and> real pair = ''sk-real-abc'')
     \<and> unwrapped (file_fetch store ''vault://secret/data/anthropic-key'') (\<lambda>pair.
         dummy pair = ''sk-ant-dum-xyz'' \<and> real pair = ''sk-ant-real-xyz''))"

definition test_file_store_missing_key :: bool where
  "test_file_store_missing_key =
     unwrapped (file_store_new key_file_json one_key_json) (\<lambda>store.
       unwrapped_err (file_fetch store ''vault://secret/data/nonexistent'') (\<lambda>e. case e of
         SecretNotFound ref_str \<Rightarrow> ref_str = ''vault://secret/data/nonexistent'' | _ \<Rightarrow> False))"

definition test_file_store_malformed_json :: bool where
  "test_file_store_malformed_json =
     unwrapped_err (file_store_new key_file_json ''not valid json {{{'') (\<lambda>e. case e of
       SecretInvalid _ \<Rightarrow> True | _ \<Rightarrow> False)"

definition test_file_store_empty_file :: bool where
  "test_file_store_empty_file =
     unwrapped_err (file_store_new key_file_json ''{}'') (\<lambda>e. case e of
       SecretInvalid _ \<Rightarrow> True | _ \<Rightarrow> False)"

definition test_file_store_from_stdin_parsing :: bool where
  "test_file_store_from_stdin_parsing =
     unwrapped (file_store_new key_file_json stdin_json) (\<lambda>store.
       unwrapped (file_fetch store ''vault://secret/data/test-key'') (\<lambda>pair.
         dummy pair = ''sk-dum-test'' \<and> real pair = ''sk-real-test''))"

lemma vault_tests:
  test_mock_fetch_success test_mock_fetch_not_found test_file_store_load_and_fetch
  test_file_store_missing_key test_file_store_malformed_json test_file_store_empty_file
  test_file_store_from_stdin_parsing
  by code_simp+

section \<open>The session store\<close>

definition make_session :: "u64 \<Rightarrow> string \<Rightarrow> string \<Rightarrow> session" where
  "make_session now sid ip =
     \<lparr>session_id = sid, source_ip = ip,
      allowlist = [\<lparr>domain = ''api.openai.com'', mode = ''mitm'',
        credential_ref = Some ''vault://secret/data/test-key''\<rparr>],
      created_at = now, expires_at = Some (now + 3600), dummy_to_real = []\<rparr>"

definition test_create_and_get :: "session_lib \<Rightarrow> u64 \<Rightarrow> bool" where
  "test_create_and_get lib now =
     unwrapped (in_memory lib) (\<lambda>store.
     let s = make_session now ''sess_001'' ''10.0.1.42'' in
     called (store_create lib s store) (\<lambda>_ store.
       expected (store_get store ''sess_001'') (\<lambda>retrieved.
         session_id retrieved = ''sess_001'' \<and> source_ip retrieved = ''10.0.1.42''
         \<and> length (allowlist retrieved) = 1 \<and> domain (allowlist retrieved ! 0) = ''api.openai.com''
         \<and> mode (allowlist retrieved ! 0) = ''mitm'')
     \<and> expected (store_get_by_ip store ''10.0.1.42'') (\<lambda>by_ip. session_id by_ip = ''sess_001'')))"

definition test_duplicate_session_id_rejected :: "session_lib \<Rightarrow> u64 \<Rightarrow> bool" where
  "test_duplicate_session_id_rejected lib now =
     unwrapped (in_memory lib) (\<lambda>store.
     called (store_create lib (make_session now ''sess_dup'' ''10.0.1.51'') store) (\<lambda>_ store.
       unwrapped_err (fst (store_create lib (make_session now ''sess_dup'' ''10.0.1.52'') store)) (\<lambda>e. case e of
         AlreadyExists sid \<Rightarrow> sid = ''sess_dup'' | _ \<Rightarrow> False)))"

definition test_duplicate_source_ip_rejected :: "session_lib \<Rightarrow> u64 \<Rightarrow> bool" where
  "test_duplicate_source_ip_rejected lib now =
     unwrapped (in_memory lib) (\<lambda>store.
     called (store_create lib (make_session now ''sess_a'' ''10.0.1.60'') store) (\<lambda>_ store.
       unwrapped_err (fst (store_create lib (make_session now ''sess_b'' ''10.0.1.60'') store)) (\<lambda>e. case e of
         AlreadyExists ip \<Rightarrow> ip = ''10.0.1.60'' | _ \<Rightarrow> False)))"

definition test_delete :: "session_lib \<Rightarrow> u64 \<Rightarrow> bool" where
  "test_delete lib now =
     unwrapped (in_memory lib) (\<lambda>store.
     called (store_create lib (make_session now ''sess_del'' ''10.0.1.70'') store) (\<lambda>_ store.
       store_get store ''sess_del'' \<noteq> None
     \<and> called (store_delete lib ''sess_del'' store) (\<lambda>was_deleted store.
         was_deleted \<and> store_get store ''sess_del'' = None \<and> store_get_by_ip store ''10.0.1.70'' = None
       \<and> called (store_delete lib ''sess_del'' store) (\<lambda>deleted_again _. \<not> deleted_again))))"

definition test_delete_nonexistent :: "session_lib \<Rightarrow> bool" where
  "test_delete_nonexistent lib =
     unwrapped (in_memory lib) (\<lambda>store.
     called (store_delete lib ''nonexistent'' store) (\<lambda>result _. \<not> result))"

definition test_list :: "session_lib \<Rightarrow> u64 \<Rightarrow> bool" where
  "test_list lib now =
     unwrapped (in_memory lib) (\<lambda>store.
     called (store_create lib (make_session now ''sess_list1'' ''10.0.1.80'') store) (\<lambda>_ store.
     called (store_create lib (make_session now ''sess_list2'' ''10.0.1.81'') store) (\<lambda>_ store.
       length (store_list store) = 2)))"

definition test_count :: "session_lib \<Rightarrow> u64 \<Rightarrow> bool" where
  "test_count lib now =
     unwrapped (in_memory lib) (\<lambda>store.
       store_count store = 0
     \<and> called (store_create lib (make_session now ''sess_count'' ''10.0.1.90'') store) (\<lambda>_ store.
         store_count store = 1))"

definition test_set_key_map :: "session_lib \<Rightarrow> u64 \<Rightarrow> bool" where
  "test_set_key_map lib now =
     unwrapped (in_memory lib) (\<lambda>store.
     called (store_create lib (make_session now ''sess_keymap'' ''10.0.1.92'') store) (\<lambda>_ store.
       expected (store_get store ''sess_keymap'') (\<lambda>s. dummy_to_real s = [])
     \<and> (let keys = hm_insert ''sk-dummy-2'' ''sk-real-2'' (hm_insert ''sk-dummy-1'' ''sk-real-1'' []);
            (was_set, store) = set_key_map ''sess_keymap'' keys store
        in was_set \<and> expected (store_get store ''sess_keymap'') (\<lambda>s.
             length (dummy_to_real s) = 2
             \<and> hm_get (dummy_to_real s) ''sk-dummy-1'' = Some ''sk-real-1''
             \<and> hm_get (dummy_to_real s) ''sk-dummy-2'' = Some ''sk-real-2''))))"

definition test_set_key_map_nonexistent :: "session_lib \<Rightarrow> bool" where
  "test_set_key_map_nonexistent lib =
     unwrapped (in_memory lib) (\<lambda>store. \<not> fst (set_key_map ''nonexistent'' [] store))"

text \<open>A test that reopens its database file opens the table that the dropped store has written.\<close>

definition test_key_map_not_persisted :: "session_lib \<Rightarrow> u64 \<Rightarrow> bool" where
  "test_key_map_not_persisted lib now =
     unwrapped (store_open lib now []) (\<lambda>store.
     called (store_create lib (make_session now ''sess_km_persist'' ''10.0.1.140'') store) (\<lambda>_ store.
     let store = snd (set_key_map ''sess_km_persist'' (hm_insert ''sk-dummy'' ''sk-real'' []) store) in
       expected (store_get store ''sess_km_persist'') (\<lambda>s. length (dummy_to_real s) = 1)
     \<and> unwrapped (store_open lib now (conn store)) (\<lambda>store.
         expected (store_get store ''sess_km_persist'') (\<lambda>s. dummy_to_real s = []))))"

definition test_persist_and_recover :: "session_lib \<Rightarrow> u64 \<Rightarrow> bool" where
  "test_persist_and_recover lib now =
     unwrapped (store_open lib now []) (\<lambda>store.
     called (store_create lib (make_session now ''sess_persist'' ''10.0.1.100'') store) (\<lambda>_ store.
       store_count store = 1
     \<and> unwrapped (store_open lib now (conn store)) (\<lambda>store.
         store_count store = 1
       \<and> expected (store_get store ''sess_persist'') (\<lambda>s.
           session_id s = ''sess_persist'' \<and> source_ip s = ''10.0.1.100'' \<and> length (allowlist s) = 1
           \<and> domain (allowlist s ! 0) = ''api.openai.com'' \<and> mode (allowlist s ! 0) = ''mitm''
           \<and> dummy_to_real s = []))))"

definition test_delete_persists_to_sqlite :: "session_lib \<Rightarrow> u64 \<Rightarrow> bool" where
  "test_delete_persists_to_sqlite lib now =
     unwrapped (store_open lib now []) (\<lambda>store.
     called (store_create lib (make_session now ''sess_del_persist'' ''10.0.1.110'') store) (\<lambda>_ store.
     called (store_delete lib ''sess_del_persist'' store) (\<lambda>was_deleted store.
       was_deleted
     \<and> unwrapped (store_open lib now (conn store)) (\<lambda>store.
         store_count store = 0 \<and> store_get store ''sess_del_persist'' = None))))"

definition test_expired_sessions_cleaned_on_startup :: "session_lib \<Rightarrow> u64 \<Rightarrow> bool" where
  "test_expired_sessions_cleaned_on_startup lib now =
     unwrapped (store_open lib now []) (\<lambda>store.
     let expired = (make_session now ''sess_expired'' ''10.0.1.120'')\<lparr>expires_at := Some (now - 100)\<rparr>;
         active = make_session now ''sess_active'' ''10.0.1.121'' in
     called (store_create lib expired store) (\<lambda>_ store.
     called (store_create lib active store) (\<lambda>_ store.
       store_count store = 2
     \<and> unwrapped (store_open lib now (conn store)) (\<lambda>store.
         store_count store = 1 \<and> store_get store ''sess_expired'' = None
         \<and> store_get store ''sess_active'' \<noteq> None))))"

definition test_no_expiry_session_survives :: "session_lib \<Rightarrow> u64 \<Rightarrow> bool" where
  "test_no_expiry_session_survives lib now =
     unwrapped (store_open lib now []) (\<lambda>store.
     let s = (make_session now ''sess_noexpiry'' ''10.0.1.130'')\<lparr>expires_at := None\<rparr> in
     called (store_create lib s store) (\<lambda>_ store.
     unwrapped (store_open lib now (conn store)) (\<lambda>store.
       store_count store = 1
     \<and> expected (store_get store ''sess_noexpiry'') (\<lambda>s. expires_at s = None))))"

definition test_record_and_get_stats :: "session_lib \<Rightarrow> u64 \<Rightarrow> bool" where
  "test_record_and_get_stats lib now =
     unwrapped (in_memory lib) (\<lambda>store.
     called (store_create lib (make_session now ''sess_stats'' ''10.0.1.200'') store) (\<lambda>_ store.
     let store = record_stats ''sess_stats'' ''mitm'' 100 200 store;
         store = record_stats ''sess_stats'' ''mitm'' 50 75 store;
         store = record_stats ''sess_stats'' ''tunnel'' 30 40 store;
         store = record_stats ''sess_stats'' ''dropped'' 0 0 store in
     expected (get_stats store ''sess_stats'') (\<lambda>st.
       requests_total st = 4 \<and> requests_mitm st = 2 \<and> requests_tunnel st = 1 \<and> requests_dropped st = 1
       \<and> bytes_upstream st = 180 \<and> bytes_downstream st = 315)))"

definition test_stats_removed_on_delete :: "session_lib \<Rightarrow> u64 \<Rightarrow> bool" where
  "test_stats_removed_on_delete lib now =
     unwrapped (in_memory lib) (\<lambda>store.
     called (store_create lib (make_session now ''sess_stats_del'' ''10.0.1.201'') store) (\<lambda>_ store.
     let store = record_stats ''sess_stats_del'' ''mitm'' 10 20 store in
       get_stats store ''sess_stats_del'' \<noteq> None
     \<and> called (store_delete lib ''sess_stats_del'' store) (\<lambda>_ store. get_stats store ''sess_stats_del'' = None)))"

definition test_get_stats_nonexistent :: "session_lib \<Rightarrow> bool" where
  "test_get_stats_nonexistent lib =
     unwrapped (in_memory lib) (\<lambda>store. get_stats store ''nonexistent'' = None)"

subsection \<open>They pass on every library that does not fault\<close>

lemma faultless_memory: "faultless lib \<Longrightarrow> in_memory lib = Inr \<lparr>conn = [], sessions = [], stats = []\<rparr>"
  by (simp add: faultless_def in_memory_def)

lemma faultless_open:
  "faultless lib \<Longrightarrow> store_open lib now file = Inr \<lparr>conn = purge_expired now file,
     sessions = hm_collect (map (\<lambda>r. (row_source_ip r, session_of_row lib r)) (purge_expired now file)), stats = []\<rparr>"
  by (simp add: faultless_def store_open_def Let_def comp_def)

abbreviation test_allowlist :: "allowlist_entry list" where
  "test_allowlist \<equiv> [\<lparr>domain = ''api.openai.com'', mode = ''mitm'',
     credential_ref = Some ''vault://secret/data/test-key''\<rparr>]"

text \<open>What creating a session with the allowlist \<open>al\<close>, printed as \<open>j\<close>, answers.\<close>

definition create_answers :: "session_lib \<Rightarrow> allowlist_entry list \<Rightarrow> string \<Rightarrow> bool" where
  "create_answers lib al j \<longleftrightarrow> from_json lib j = Some al
     \<and> (\<forall>s st. allowlist s = al \<longrightarrow> store_create lib s st =
          (if select_by_id (conn st) (session_id s) then (Inl (AlreadyExists (session_id s)), st)
           else if select_by_ip (conn st) (source_ip s) then (Inl (AlreadyExists (source_ip s)), st)
           else (Inr (), inserted s j st)))"

lemma faultless_create: "faultless lib \<Longrightarrow> \<exists>j. create_answers lib al j"
proof -
  assume lib: "faultless lib"
  then obtain j where j: "to_json lib al = Inr j" "from_json lib j = Some al"
    unfolding faultless_def json_lawful_def by metis
  from lib have "sql_fault lib q = None" for q by (simp add: faultless_def)
  with j have "create_answers lib al j"
    by (simp add: create_answers_def store_create_def insert_row_def inserted_def row_of_def forget_keys_def)
  then show ?thesis by blast
qed

lemma create_answersD:
  "create_answers lib al j \<Longrightarrow> from_json lib j = Some al"
  "create_answers lib al j \<Longrightarrow> allowlist s = al \<Longrightarrow> store_create lib s st =
     (if select_by_id (conn st) (session_id s) then (Inl (AlreadyExists (session_id s)), st)
      else if select_by_ip (conn st) (source_ip s) then (Inl (AlreadyExists (source_ip s)), st)
      else (Inr (), inserted s j st))"
  by (simp_all add: create_answers_def)

lemma faultless_delete:
  "faultless lib \<Longrightarrow> store_delete lib sid st = (case map_option source_ip (store_get st sid) of
     None \<Rightarrow> (Inr False, st)
   | Some ip \<Rightarrow> (Inr True, st\<lparr>conn := delete_rows sid (conn st), sessions := hm_remove ip (sessions st),
       stats := hm_remove sid (stats st)\<rparr>))"
  by (simp add: faultless_def store_delete_def split: option.split)

lemmas store_eval = make_session_def Let_def inserted_def row_of_def forget_keys_def select_by_id_def
  select_by_ip_def hm_insert_def hm_values_def hm_get_def hm_collect_def hm_remove_def store_get_def store_get_by_ip_def
  store_list_def store_count_def set_key_map_def get_stats_def record_stats_def bump_stats_def default_stats_def
  delete_rows_def purge_expired_def row_expired_def session_of_row_def

lemma get_record_stats:
  "get_stats (record_stats sid kind up down st) sid
     = Some (bump_stats kind up down (case get_stats st sid of Some e \<Rightarrow> e | None \<Rightarrow> default_stats))"
  by (simp add: get_stats_def record_stats_def hm_simps)

lemma bump_stats_fields:
  "bump_stats kind up down e =
     \<lparr>requests_total = requests_total e + 1, requests_mitm = requests_mitm e + (if kind = ''mitm'' then 1 else 0),
      requests_tunnel = requests_tunnel e + (if kind = ''tunnel'' then 1 else 0),
      requests_dropped = requests_dropped e + (if kind = ''dropped'' then 1 else 0),
      bytes_upstream = bytes_upstream e + up, bytes_downstream = bytes_downstream e + down\<rparr>"
  by (simp add: bump_stats_def Let_def)

text \<open>The clock of the tests: far enough from both ends of a signed 64-bit integer.\<close>

definition plausible :: "u64 \<Rightarrow> bool" where
  "plausible now \<longleftrightarrow> 100 \<le> now \<and> now < 2 ^ 62"

lemma plausible_deadlines:
  assumes "plausible now"
  shows "\<not> sint (now + 3600) < sint now" "sint (now - 100) < sint now"
proof -
  have small: "sint w = uint w" if "uint w < 2 ^ 63" for w :: u64
    using that signed_take_bit_int_eq_self[of 63 "uint w"] uint_ge_0[of w] by (simp add: sint_uint)
  from assms have n: "100 \<le> uint now" "uint now < 2 ^ 62"
    by (simp_all add: plausible_def word_le_def word_less_def)
  then have "uint (now + 3600) = uint now + 3600" by (simp add: uint_word_ariths)
  moreover have "uint (now - 100) = uint now - 100" using n by (simp add: uint_word_ariths)
  ultimately show "\<not> sint (now + 3600) < sint now" "sint (now - 100) < sint now"
    using n by (simp_all add: small)
qed

lemma session_tests_memory:
  assumes "faultless lib"
  shows "test_create_and_get lib now" "test_duplicate_session_id_rejected lib now"
    "test_duplicate_source_ip_rejected lib now" "test_delete lib now" "test_delete_nonexistent lib"
    "test_list lib now" "test_count lib now" "test_set_key_map lib now" "test_set_key_map_nonexistent lib"
    "test_record_and_get_stats lib now" "test_stats_removed_on_delete lib now" "test_get_stats_nonexistent lib"
proof -
  from faultless_create[OF assms] obtain j where j: "create_answers lib test_allowlist j" by blast
  note eval = faultless_memory[OF assms] faultless_delete[OF assms] create_answersD[OF j]
  show "test_create_and_get lib now" by (simp add: test_create_and_get_def eval store_eval)
  show "test_duplicate_session_id_rejected lib now"
    by (simp add: test_duplicate_session_id_rejected_def eval store_eval)
  show "test_duplicate_source_ip_rejected lib now"
    by (simp add: test_duplicate_source_ip_rejected_def eval store_eval)
  show "test_delete lib now" by (simp add: test_delete_def eval store_eval)
  show "test_delete_nonexistent lib" by (simp add: test_delete_nonexistent_def eval store_eval)
  show "test_list lib now" by (simp add: test_list_def eval store_eval)
  show "test_count lib now" by (simp add: test_count_def eval store_eval)
  show "test_set_key_map lib now" by (simp add: test_set_key_map_def eval store_eval)
  show "test_set_key_map_nonexistent lib" by (simp add: test_set_key_map_nonexistent_def eval store_eval)
  show "test_record_and_get_stats lib now" 
    by (simp add: test_record_and_get_stats_def Let_def eval make_session_def select_by_id_def select_by_ip_def
        get_record_stats bump_stats_fields) (simp add: inserted_def get_stats_def default_stats_def)
  show "test_stats_removed_on_delete lib now" by (simp add: test_stats_removed_on_delete_def eval store_eval)
  show "test_get_stats_nonexistent lib" by (simp add: test_get_stats_nonexistent_def eval store_eval)
qed

lemma session_tests_file:
  assumes "faultless lib" and "plausible now"
  shows "test_key_map_not_persisted lib now" "test_persist_and_recover lib now"
    "test_delete_persists_to_sqlite lib now" "test_expired_sessions_cleaned_on_startup lib now"
    "test_no_expiry_session_survives lib now"
proof -
  from faultless_create[OF assms(1)] obtain j where j: "create_answers lib test_allowlist j" by blast
  note eval = faultless_open[OF assms(1)] faultless_delete[OF assms(1)] create_answersD[OF j] plausible_deadlines[OF assms(2)]
  show "test_key_map_not_persisted lib now" by (simp add: test_key_map_not_persisted_def eval store_eval)
  show "test_persist_and_recover lib now" by (simp add: test_persist_and_recover_def eval store_eval)
  show "test_delete_persists_to_sqlite lib now"
    by (simp add: test_delete_persists_to_sqlite_def eval store_eval)
  show "test_expired_sessions_cleaned_on_startup lib now"
    by (simp add: test_expired_sessions_cleaned_on_startup_def eval store_eval)
  show "test_no_expiry_session_survives lib now"
    by (simp add: test_no_expiry_session_survives_def eval store_eval)
qed

end
