(* ===== verification/Http_Tests.thy ===== *)
theory Http_Tests
  imports Store_Tests Http_Bytes Http_Rewrite
begin

text \<open>
  The unit tests of proxy.rs on requests: the key swap, WebSocket detection and the request
  reader, on the texts of the sources. \<open>MockStream\<close> is modelled as its fields and shown to be the stream
  of one block that the reader model takes; \<open>head_parser\<close> is an \<open>httparse\<close> for these requests.
\<close>

section \<open>Requests\<close>

text \<open>The lines of a request head, each with its line end, then the empty line.\<close>

definition http_text :: "string list \<Rightarrow> string" where
  "http_text ls = concat (map (\<lambda>l. l @ crlf) ls) @ crlf"

definition rewrite_dummy_to_real_swap :: bool where
  "rewrite_dummy_to_real_swap =
     (let keys = hm_insert ''sk-dummy-abc'' ''sk-real-xyz'' [];
          raw = http_text [''GET /v1/models HTTP/1.1'', ''Host: api.openai.com'',
            ''Authorization: Bearer sk-dummy-abc''] in
      unwrapped (rewrite_request raw keys ''api.openai.com'') (\<lambda>out.
        let s = from_utf8_lossy out in
        str_contains ''Authorization: Bearer sk-real-xyz'' s \<and> \<not> str_contains ''sk-dummy-abc'' s))"

definition rewrite_unknown_dummy_key_returns_err :: bool where
  "rewrite_unknown_dummy_key_returns_err =
     (let keys = hm_insert ''sk-dummy-known'' ''sk-real-known'' [];
          raw = http_text [''GET /v1/models HTTP/1.1'', ''Host: api.openai.com'',
            ''Authorization: Bearer sk-dummy-unknown''] in
      unwrapped_err (rewrite_request raw keys ''api.openai.com'') (\<lambda>e. case e of
        UnknownDummyKey key \<Rightarrow> key = ''sk-dummy-unknown'' | _ \<Rightarrow> False))"

definition rewrite_no_auth_header_returns_err :: bool where
  "rewrite_no_auth_header_returns_err =
     (let raw = http_text [''GET /v1/models HTTP/1.1'', ''Host: api.openai.com''] in
      unwrapped_err (rewrite_request raw [] ''api.openai.com'') (\<lambda>e. case e of
        NoAuthHeader \<Rightarrow> True | _ \<Rightarrow> False))"

definition rewrite_multiple_keys_in_map :: bool where
  "rewrite_multiple_keys_in_map =
     (let keys = hm_insert ''sk-dummy-2'' ''sk-real-2'' (hm_insert ''sk-dummy-1'' ''sk-real-1'' []);
          raw1 = http_text [''GET /v1/models HTTP/1.1'', ''Host: api.openai.com'',
            ''Authorization: Bearer sk-dummy-1''];
          raw2 = http_text [''GET /v1/models HTTP/1.1'', ''Host: api.openai.com'',
            ''Authorization: Bearer sk-dummy-2''] in
      unwrapped (rewrite_request raw1 keys ''api.openai.com'') (\<lambda>out1.
        str_contains ''sk-real-1'' (from_utf8_lossy out1))
    \<and> unwrapped (rewrite_request raw2 keys ''api.openai.com'') (\<lambda>out2.
        str_contains ''sk-real-2'' (from_utf8_lossy out2)))"

definition rewrite_host_header_updated :: bool where
  "rewrite_host_header_updated =
     (let keys = hm_insert ''sk-dummy'' ''sk-real'' [];
          raw = http_text [''GET /v1/models HTTP/1.1'', ''Host: api.original.com'',
            ''Authorization: Bearer sk-dummy''] in
      unwrapped (rewrite_request raw keys ''api.upstream.com'') (\<lambda>out.
        let s = from_utf8_lossy out in
        str_contains ''Host: api.upstream.com'' s \<and> \<not> str_contains ''api.original.com'' s))"

definition test_is_websocket_upgrade_detected :: bool where
  "test_is_websocket_upgrade_detected =
     is_websocket_upgrade (http_text [''GET /ws HTTP/1.1'', ''Host: api.openai.com'',
       ''Connection: Upgrade'', ''Upgrade: websocket''])"

definition test_is_websocket_upgrade_case_insensitive :: bool where
  "test_is_websocket_upgrade_case_insensitive =
     is_websocket_upgrade (http_text [''GET /ws HTTP/1.1'', ''Host: api.openai.com'',
       ''connection: upgrade'', ''upgrade: WebSocket''])"

definition test_is_websocket_upgrade_missing_connection :: bool where
  "test_is_websocket_upgrade_missing_connection =
     (\<not> is_websocket_upgrade (http_text [''GET /ws HTTP/1.1'', ''Host: api.openai.com'', ''Upgrade: websocket'']))"

definition test_is_websocket_upgrade_missing_upgrade :: bool where
  "test_is_websocket_upgrade_missing_upgrade =
     (\<not> is_websocket_upgrade (http_text [''GET /ws HTTP/1.1'', ''Host: api.openai.com'', ''Connection: Upgrade'']))"

definition test_is_websocket_upgrade_normal_request :: bool where
  "test_is_websocket_upgrade_normal_request =
     (\<not> is_websocket_upgrade (http_text [''GET /v1/models HTTP/1.1'', ''Host: api.openai.com'',
       ''Authorization: Bearer sk-dum'']))"

section \<open>The stream of the tests\<close>

record mock_stream =
  mock_data :: string
  mock_pos :: nat

definition mock_stream_new :: "string \<Rightarrow> mock_stream" where
  "mock_stream_new data = \<lparr>mock_data = data, mock_pos = 0\<rparr>"

definition mock_poll_read :: "nat \<Rightarrow> mock_stream \<Rightarrow> string \<times> mock_stream" where
  "mock_poll_read remaining s =
     (if length (mock_data s) \<le> mock_pos s then ([], s)
      else (let n = min remaining (length (mock_data s) - mock_pos s)
            in (take n (drop (mock_pos s) (mock_data s)), s\<lparr>mock_pos := mock_pos s + n\<rparr>)))"

text \<open>What is left of a mock stream, as a stream of the reader.\<close>

definition stream_of :: "mock_stream \<Rightarrow> stream" where
  "stream_of s = (if length (mock_data s) \<le> mock_pos s then [] else [Bytes (drop (mock_pos s) (mock_data s))])"

lemma mock_poll_read_stream:
  "stream_read n (stream_of s) = (Inr (fst (mock_poll_read n s)), stream_of (snd (mock_poll_read n s)))"
  if "0 < n"
  using that by (auto simp: stream_of_def mock_poll_read_def Let_def min_def add.commute)

section \<open>The reader\<close>

definition head_parser :: "string \<Rightarrow> httparse_result" where
  "head_parser buf = Complete (List.map_filter (\<lambda>l. map_option (\<lambda>(n, v). \<lparr>h_name = n, h_value = trim v\<rparr>) (split_once (CHR '':'') l))
     (takeWhile (\<lambda>l. l \<noteq> []) (drop 1 (split_on crlf buf))))"

definition read_mock :: "string \<Rightarrow> (string \<Rightarrow> bool) \<Rightarrow> bool" where
  "read_mock data k =
     (case fst (read_http_request head_parser (stream_of (mock_stream_new data))) of
        ReadOk result \<Rightarrow> k (from_utf8_lossy result) | _ \<Rightarrow> False)"

definition test_read_http_request_simple :: bool where
  "test_read_http_request_simple =
     read_mock (http_text [''GET /v1/models HTTP/1.1'', ''Host: api.openai.com'']) (\<lambda>s.
       str_contains ''GET /v1/models'' s \<and> str_contains ''Host: api.openai.com'' s)"

definition test_read_http_request_with_content_length :: \<open>bool\<close> where
  \<open>test_read_http_request_with_content_length =
     (let payload = ''{"model":"gpt-4","messages":[]}'';
          request = http_text [''POST /v1/chat/completions HTTP/1.1'', ''Host: api.openai.com'',
            ''Content-Type: application/json'', ''Content-Length: '' @ show_nat (length payload)] @ payload in
      read_mock request (\<lambda>s. str_contains ''POST /v1/chat/completions'' s \<and> str_contains payload s))\<close>

definition test_read_http_request_chunked :: bool where
  "test_read_http_request_chunked =
     (let request = http_text [''POST /upload HTTP/1.1'', ''Host: example.com'', ''Transfer-Encoding: chunked'']
            @ join crlf [''4'', ''Wiki'', ''5'', ''pedia'', ''0'', '''', ''''] in
      read_mock request (\<lambda>s. str_contains ''POST /upload'' s \<and> str_contains ''Transfer-Encoding: chunked'' s
        \<and> str_contains ''Wiki'' s \<and> str_contains ''pedia'' s))"

section \<open>They pass\<close>

definition plain_line :: "string \<Rightarrow> bool" where
  "plain_line l \<longleftrightarrow> list_all (\<lambda>c. byte c < 128 \<and> c \<noteq> CR \<and> c \<noteq> LF) l"

lemma http_text_join: "http_text ls = join crlf (ls @ [[], []])"
  by (induction ls) (simp_all add: http_text_def join_Cons)

lemma plain_lineD: "plain_line l \<Longrightarrow> c \<in> set l \<Longrightarrow> byte c < 128 \<and> c \<noteq> CR"
  by (simp add: plain_line_def list_all_iff)

lemma http_text_ascii:
  assumes "list_all plain_line ls" and "\<forall>c\<in>set payload. byte c < 128"
  shows "from_utf8_lossy (http_text ls @ payload) = http_text ls @ payload"
proof -
  have "byte c < 128" if "c \<in> set crlf" for c using that by (auto simp: crlf_def)
  moreover have "byte c < 128" if "l \<in> set ls" "c \<in> set l" for l c
    using assms(1) that plain_lineD[of l c] by (simp add: list_all_iff)
  ultimately have "\<forall>c\<in>set (http_text ls). byte c < 128" unfolding http_text_def by auto
  with assms(2) show ?thesis by (intro lossy_valid_id utf8_valid_ascii) auto
qed

lemma http_text_lines:
  assumes "list_all plain_line ls"
  shows "request_lines (http_text ls) = ls @ [[], []]"
proof -
  have "\<not> str_contains crlf x" if "x \<in> set (ls @ [[], []])" for x
  proof -
    have "CR \<notin> set x" using that assms plain_lineD[of x CR] by (auto simp: list_all_iff)
    then show ?thesis by (auto simp: str_contains_iff crlf_def)
  qed
  then have "split_on crlf (join crlf (ls @ [[], []])) = ls @ [[], []]" by (intro split_join_crlf) auto
  with http_text_ascii[OF assms, of "[]"] show ?thesis by (simp add: http_text_join)
qed

lemma http_text_str_lines:
  assumes "list_all plain_line ls"
  shows "str_lines (http_text ls) = ls @ [[]]"
proof -
  have split: "split_char LF (l @ crlf @ t) = (l @ [CR]) # split_char LF t" if "plain_line l" for l t
    using split_char_append[of LF "l @ [CR]" t] that by (auto simp: plain_line_def list_all_iff crlf_def)
  have "split_char LF (http_text ls) = map (\<lambda>l. l @ [CR]) (ls @ [[]]) @ [[]]"
    using assms
  proof (induction ls)
    case Nil
    show ?case using split[of "[]" "[]"] by (simp add: http_text_def plain_line_def)
  next
    case (Cons l ls)
    with split[of l "http_text ls"] show ?case by (simp add: http_text_def)
  qed
  then show ?thesis by (simp add: str_lines_def strip_cr_def comp_def butlast_append)
qed

lemmas line_eval = plain_line_def header_name_is_def bearer_token_def split_once_def eq_ignore_ascii_case_def
  ascii_lower_def char_of_eq_iff strip_prefix_def trim_lead trim_visible visible_def

lemma rewrite_ok:
  assumes "presented_key raw = Some k" and "hm_get keys k = Some r"
    and "rewritten_lines raw r host = ls @ [[], []]"
  shows "rewrite_request raw keys host = Inr (http_text ls)"
  using assms by (simp add: rewrite_request_eq http_text_join)

abbreviation models_request :: "string \<Rightarrow> string \<Rightarrow> string list" where
  "models_request host_line auth_line \<equiv> [''GET /v1/models HTTP/1.1'', host_line, auth_line]"

lemma models_swapped:
  assumes "list_all plain_line (models_request host_line auth_line)"
    and "header_name_is ''host'' host_line" and "\<not> header_name_is ''authorization'' host_line"
    and "bearer_token host_line = None"
    and "header_name_is ''authorization'' auth_line" and "bearer_token auth_line = Some k"
    and "hm_get keys k = Some r"
  shows "rewrite_request (http_text (models_request host_line auth_line)) keys host
    = Inr (http_text [''GET /v1/models HTTP/1.1'', ''Authorization: Bearer '' @ r, ''Host: '' @ host])"
proof (rule rewrite_ok)
  note lines = http_text_lines[OF assms(1)]
  have first: "bearer_token ''GET /v1/models HTTP/1.1'' = None" "\<not> header_name_is n ''GET /v1/models HTTP/1.1''"
    "bearer_token [] = None" "\<not> header_name_is n []" for n
    by (simp_all add: bearer_token_def header_name_is_def split_once_def)
  show "presented_key (http_text (models_request host_line auth_line)) = Some k"
    by (simp add: presented_key_def lines first assms(4,6))
  show "rewritten_lines (http_text (models_request host_line auth_line)) r host
      = [''GET /v1/models HTTP/1.1'', ''Authorization: Bearer '' @ r, ''Host: '' @ host] @ [[], []]"
    by (simp add: rewritten_lines_def lines first assms(2,3,5) rewrite_host_def insert_at_1_def auth_header_def)
qed (rule assms(7))

lemmas text_eval = str_contains_def http_text_def crlf_def lossy_valid_id utf8_valid_ascii

lemma rewrite_tests:
  rewrite_dummy_to_real_swap rewrite_unknown_dummy_key_returns_err rewrite_no_auth_header_returns_err
  rewrite_multiple_keys_in_map rewrite_host_header_updated
proof -
  note swapped = models_swapped[where host_line = "''Host: api.openai.com''"]
    models_swapped[where host_line = "''Host: api.original.com''"]
  show rewrite_dummy_to_real_swap
    by (simp add: rewrite_dummy_to_real_swap_def Let_def swapped[where k = "''sk-dummy-abc''" and r = "''sk-real-xyz''"]
        hm_simps line_eval) (simp add: text_eval)
  show rewrite_multiple_keys_in_map
    by (simp add: rewrite_multiple_keys_in_map_def Let_def swapped[where k = "''sk-dummy-1''" and r = "''sk-real-1''"]
        swapped[where k = "''sk-dummy-2''" and r = "''sk-real-2''"] hm_simps line_eval) (simp add: text_eval)
  show rewrite_host_header_updated
    by (simp add: rewrite_host_header_updated_def Let_def swapped[where k = "''sk-dummy''" and r = "''sk-real''"]
        hm_simps line_eval) (simp add: text_eval)
  show rewrite_unknown_dummy_key_returns_err
    by (simp add: rewrite_unknown_dummy_key_returns_err_def Let_def rewrite_request_eq presented_key_def http_text_lines
        line_eval hm_simps)
  show rewrite_no_auth_header_returns_err
    by (simp add: rewrite_no_auth_header_returns_err_def Let_def rewrite_request_eq presented_key_def http_text_lines
        line_eval)
qed

lemma websocket_head:
  assumes "list_all plain_line ls"
  shows "is_websocket_upgrade (http_text ls) \<longleftrightarrow>
    list_ex (\<lambda>l. eq_ignore_ascii_case l ''connection: upgrade'') ls
    \<and> list_ex (\<lambda>l. str_contains ''upgrade: websocket'' (map ascii_lower l)) ls"
proof -
  have "to_lowercase l = map ascii_lower l" if "l \<in> set ls" for l
    using assms that plain_lineD[of l] by (intro to_lowercase_ascii) (auto simp: list_all_iff)
  with http_text_ascii[OF assms, of "[]"] show ?thesis
    by (auto simp: is_websocket_upgrade_def Let_def http_text_str_lines[OF assms] list_ex_iff str_contains_def
        eq_ignore_ascii_case_def)
qed

lemma char_codes:
  "(CHR ''u'' = char_of (117 :: nat)) = True" "(CHR ''w'' = char_of (119 :: nat)) = True"
  "(CHR ''s'' = char_of (115 :: nat)) = True" "char_of (51 :: nat) = CHR ''3''" "char_of (49 :: nat) = CHR ''1''"
  by (simp_all add: char_of_def bit_simps)

lemma websocket_tests:
  test_is_websocket_upgrade_detected test_is_websocket_upgrade_case_insensitive
  test_is_websocket_upgrade_missing_connection test_is_websocket_upgrade_missing_upgrade
  test_is_websocket_upgrade_normal_request
  unfolding test_is_websocket_upgrade_detected_def test_is_websocket_upgrade_case_insensitive_def
    test_is_websocket_upgrade_missing_connection_def test_is_websocket_upgrade_missing_upgrade_def
    test_is_websocket_upgrade_normal_request_def
  by (simp_all add: websocket_head plain_line_def eq_ignore_ascii_case_def ascii_lower_def char_of_eq_iff char_codes str_contains_def)

text \<open>All three requests of the reader fit into its first buffer.\<close>

lemma read_whole:
  assumes "find_header_end data = Some pos" and "data \<noteq> []" and "length data \<le> 4096"
    and "head_parser data = Complete hs"
  shows "read_http_request head_parser (stream_of (mock_stream_new data)) = read_body hs data pos []"
  using assms by (simp add: read_http_request_def stream_of_def mock_stream_new_def read_head.simps)

lemma read_chunked_whole:
  assumes "scan_headers hs = (cl, True)" and "find_terminator data pos = Some (length data)"
  shows "read_body hs data pos st = (ReadOk data, st)"
proof -
  from assms(2) have "pos \<le> length data" by (simp add: find_terminator_Some)
  from find_terminator_scan_start[OF this] assms show ?thesis
    by (simp add: read_body_def read_chunked_body.simps Let_def)
qed

lemma head_parser_lines:
  assumes "list_all plain_line ls" and "[] \<notin> set ls" and "ls \<noteq> []"
    and "list_all plain_line ks" and "ks \<noteq> []"
  shows "head_parser (http_text ls @ join crlf ks) = Complete (List.map_filter
    (\<lambda>l. map_option (\<lambda>(n, v). \<lparr>h_name = n, h_value = trim v\<rparr>) (split_once (CHR '':'') l)) (tl ls))"
proof -
  have "http_text ls @ join crlf ks = join crlf (ls @ [] # ks)"
    using assms(5) by (induction ls) (simp_all add: http_text_def join_Cons)
  moreover have "split_on crlf (join crlf (ls @ [] # ks)) = ls @ [] # ks"
  proof (rule split_join_crlf)
    fix x assume "x \<in> set (ls @ [] # ks)"
    then have "CR \<notin> set x" using assms(1,4) plain_lineD[of x CR] by (auto simp: list_all_iff)
    then show "\<not> str_contains crlf x" by (auto simp: str_contains_iff crlf_def)
  qed simp
  moreover have "takeWhile (\<lambda>l. l \<noteq> []) (drop 1 (ls @ [] # ks)) = tl ls"
  proof (cases ls)
    case (Cons l ls')
    with assms(2) have "takeWhile (\<lambda>l. l \<noteq> []) (ls' @ [] # ks) = ls' @ takeWhile (\<lambda>l. l \<noteq> []) ([] # ks)"
      by (intro takeWhile_append2) auto
    with Cons show ?thesis by simp
  qed (use assms(3) in simp)
  ultimately show ?thesis by (simp add: head_parser_def)
qed

lemmas parse_eval = plain_line_def split_once_def trim_lead trim_visible visible_def map_filter_simps

lemmas head_eval = find_header_end_find_sub header_terminator_def http_text_def crlf_def

lemma test_read_http_request_simple_passes: test_read_http_request_simple
proof -
  let ?ls = "[''GET /v1/models HTTP/1.1'', ''Host: api.openai.com'']"
  have "head_parser (http_text ?ls) = Complete [\<lparr>h_name = ''Host'', h_value = ''api.openai.com''\<rparr>]"
    using head_parser_lines[of ?ls "[[]]"] by (simp add: parse_eval)
  moreover have "find_header_end (http_text ?ls) = Some 49" "http_text ?ls \<noteq> []" "length (http_text ?ls) \<le> 4096"
    by (simp_all add: head_eval)
  ultimately have "read_http_request head_parser (stream_of (mock_stream_new (http_text ?ls)))
      = read_body [\<lparr>h_name = ''Host'', h_value = ''api.openai.com''\<rparr>] (http_text ?ls) 49 []"
    by (intro read_whole)
  then show ?thesis
    by (simp add: test_read_http_request_simple_def read_mock_def read_body_def scan_headers_def scan_header_def
        eq_ignore_ascii_case_def) (simp add: text_eval)
qed

lemma test_read_http_request_with_content_length_passes: test_read_http_request_with_content_length
proof -
  define payload where \<open>payload = ''{"model":"gpt-4","messages":[]}''\<close>
  let ?ls = "[''POST /v1/chat/completions HTTP/1.1'', ''Host: api.openai.com'', ''Content-Type: application/json'',
    ''Content-Length: 31'']"
  let ?hs = "[\<lparr>h_name = ''Host'', h_value = ''api.openai.com''\<rparr>,
    \<lparr>h_name = ''Content-Type'', h_value = ''application/json''\<rparr>,
    \<lparr>h_name = ''Content-Length'', h_value = ''31''\<rparr>]"
  let ?data = "http_text ?ls @ payload"
  have "head_parser ?data = Complete ?hs"
    using head_parser_lines[of ?ls "[payload]"] by (simp add: parse_eval payload_def)
  moreover have "find_header_end ?data = Some 112" "?data \<noteq> []" "length ?data \<le> 4096"
    by (simp_all add: head_eval payload_def)
  ultimately have read: "read_http_request head_parser (stream_of (mock_stream_new ?data)) = read_body ?hs ?data 112 []"
    by (intro read_whole)
  have "scan_headers ?hs = (Some 31, False)"
    by (simp add: scan_headers_def scan_header_def eq_ignore_ascii_case_def ascii_lower_def char_of_eq_iff char_codes
        header_text_def from_utf8_def utf8_valid_ascii trim_visible visible_def parse_uint_def is_digit_def usize_bound_def)
  moreover have "length ?data - 112 = 31" by (simp add: http_text_def crlf_def payload_def)
  ultimately have "read_body ?hs ?data 112 [] = (ReadOk ?data, [])" by (simp add: read_body_def)
  with read have read: "fst (read_http_request head_parser (stream_of (mock_stream_new ?data))) = ReadOk ?data" by simp
  have request: "?data = http_text [''POST /v1/chat/completions HTTP/1.1'', ''Host: api.openai.com'',
      ''Content-Type: application/json'', ''Content-Length: '' @ show_nat (length payload)] @ payload"
    by (simp add: payload_def show_nat.simps digit_char_def char_codes)
  show ?thesis
    unfolding test_read_http_request_with_content_length_def Let_def payload_def[symmetric] request[symmetric]
      read_mock_def read by (simp add: text_eval payload_def)
qed

lemma test_read_http_request_chunked_passes: test_read_http_request_chunked
proof -
  let ?ls = "[''POST /upload HTTP/1.1'', ''Host: example.com'', ''Transfer-Encoding: chunked'']"
  let ?ks = "[''4'', ''Wiki'', ''5'', ''pedia'', ''0'', [], []]"
  let ?hs = "[\<lparr>h_name = ''Host'', h_value = ''example.com''\<rparr>, \<lparr>h_name = ''Transfer-Encoding'', h_value = ''chunked''\<rparr>]"
  let ?data = "http_text ?ls @ join crlf ?ks"
  have "head_parser ?data = Complete ?hs"
    using head_parser_lines[of ?ls ?ks] by (simp add: parse_eval)
  moreover have "find_header_end ?data = Some 72" "?data \<noteq> []" "length ?data \<le> 4096"
    by (simp_all add: head_eval)
  ultimately have read: "read_http_request head_parser (stream_of (mock_stream_new ?data)) = read_body ?hs ?data 72 []"
    by (intro read_whole)
  have "scan_headers ?hs = (None, True)"
    by (simp add: scan_headers_def scan_header_def eq_ignore_ascii_case_def ascii_lower_def char_of_eq_iff header_text_def
        from_utf8_def utf8_valid_ascii to_lowercase_ascii str_contains_def)
  moreover have "find_terminator ?data 72 = Some (length ?data)"
    by (simp add: find_terminator_def upt_rec head_eval body_terminator_def)
  ultimately have "read_body ?hs ?data 72 [] = (ReadOk ?data, [])" by (rule read_chunked_whole)
  with read show ?thesis
    by (simp add: test_read_http_request_chunked_def read_mock_def) (simp add: text_eval)
qed

lemmas reader_tests = test_read_http_request_simple_passes test_read_http_request_with_content_length_passes test_read_http_request_chunked_passes

end
