(* ===== verification/Api_Tests.thy ===== *)
theory Api_Tests
  imports Store_Tests Http_Tests Proxy_Main Demo_Codec
begin

text \<open>
  The integration tests of proxy.rs: a proxy with an empty store behind its two sockets. A request is
  its method, path and body; the assertions on the response text are on the status, on the body
  text that the source formats, and on the fields of the bodies that \<open>serde_json\<close> prints. The JSON texts of
  the tests are printed by \<open>session_json\<close> from the requests they stand for.
\<close>

section \<open>The proxy of the tests\<close>

definition start_test_proxy ::
  "'dt api_env \<Rightarrow> (string \<Rightarrow> string) \<Rightarrow> string \<Rightarrow> fetcher
     \<Rightarrow> (session_error, proxy_config \<times> session_store) result" where
  "start_test_proxy env sha256 cert secrets =
     (case in_memory (lib env) of
        Inl e \<Rightarrow> Inl e
      | Inr store \<Rightarrow> Inr (\<lparr>upstream_port = 0, upstream_host = [], expected_vm_ip = [],
          secret_store = Some secrets, ca_cert_sha256 = fingerprint sha256 cert,
          start_time = now_secs env\<rparr>, store))"

definition http_request_unix ::
  "'dt api_env \<Rightarrow> proxy_config \<Rightarrow> string \<Rightarrow> string \<Rightarrow> string \<Rightarrow> session_store
     \<Rightarrow> (http_response \<Rightarrow> session_store \<Rightarrow> bool) \<Rightarrow> bool" where
  "http_request_unix env cfg meth path payload store k =
     (case handle_session_api env cfg \<lparr>req_method = meth, req_path = path, req_body = Inr payload\<rparr> store of
        (Reply r, store) \<Rightarrow> k r store | (Panic, _) \<Rightarrow> False)"

definition http_request_tcp ::
  "tunnel_env \<Rightarrow> proxy_config \<Rightarrow> string \<Rightarrow> session_store \<Rightarrow> http_response" where
  "http_request_tcp tenv cfg host store =
     (let uri = \<lparr>uri_host = Some host, uri_port = Some 443, uri_text = host @ '':443''\<rparr> in
      fst (hd (handle_connection cfg (Some ''127.0.0.1'')
        [\<lparr>tr_store = store, tr_method = ''CONNECT'', tr_uri = uri, tr_tunnel = tenv\<rparr>])))"

definition body_text :: "http_response \<Rightarrow> string" where
  "body_text r = (case body r of TextBody t \<Rightarrow> t | _ \<Rightarrow> [])"

definition session_body :: "http_response \<Rightarrow> (session_response \<Rightarrow> bool) \<Rightarrow> bool" where
  "session_body r k = (case body r of SessionBody s \<Rightarrow> k s | _ \<Rightarrow> False)"

definition session_json :: \<open>create_session_request \<Rightarrow> string\<close> where
  \<open>session_json r =
     ''{"session_id":"'' @ req_session_id r @ ''","source_ip":"'' @ req_source_ip r @ ''","allowlist":['' @
     join '','' (map (\<lambda>e. ''{"domain":"'' @ domain e @ ''","mode":"'' @ mode e @ ''"'' @
       (case credential_ref e of None \<Rightarrow> [] | Some c \<Rightarrow> '',"credential_ref":"'' @ c @ ''"'') @ ''}'') (req_allowlist r)) @
     '']}''\<close>

definition tunnel_request :: "string \<Rightarrow> string \<Rightarrow> create_session_request" where
  "tunnel_request sid ip = \<lparr>req_session_id = sid, req_source_ip = ip,
     req_allowlist = [\<lparr>domain = ''api.openai.com'', mode = ''tunnel'', credential_ref = None\<rparr>], req_expires_at = None\<rparr>"

definition mitm_request :: "string \<Rightarrow> string \<Rightarrow> string \<Rightarrow> create_session_request" where
  "mitm_request sid ip cref = \<lparr>req_session_id = sid, req_source_ip = ip,
     req_allowlist = [\<lparr>domain = ''api.openai.com'', mode = ''mitm'', credential_ref = Some cref\<rparr>], req_expires_at = None\<rparr>"

section \<open>The tests\<close>

definition test_health_endpoint :: \<open>'dt api_env \<Rightarrow> (string \<Rightarrow> string) \<Rightarrow> string \<Rightarrow> bool\<close> where
  \<open>test_health_endpoint env sha256 cert =
     unwrapped (start_test_proxy env sha256 cert (mock_fetch mock_new)) (\<lambda>(cfg, store).
     http_request_unix env cfg ''GET'' ''/health'' [] store (\<lambda>r _.
       status r = 200 \<and> str_contains ''"status":"ok"'' (body_text r)
       \<and> str_contains ''"ca_cert_sha256"'' (body_text r) \<and> str_contains ''"active_sessions":0'' (body_text r)
       \<and> str_contains ''"uptime_secs"'' (body_text r)))\<close>

definition test_create_and_get_session :: "'dt api_env \<Rightarrow> (string \<Rightarrow> string) \<Rightarrow> string \<Rightarrow> bool" where
  "test_create_and_get_session env sha256 cert =
     (let secrets = mock_insert mock_new ''vault://secret/data/test-key'' ''sk-dum-test'' ''sk-real-test'' in
      unwrapped (start_test_proxy env sha256 cert (mock_fetch secrets)) (\<lambda>(cfg, store).
      http_request_unix env cfg ''POST'' ''/sessions''
        (session_json (mitm_request ''sess_test1'' ''10.0.1.42'' ''vault://secret/data/test-key'')) store (\<lambda>r store.
        status r = 201 \<and> session_body r (\<lambda>s. resp_session_id s = ''sess_test1'' \<and> resp_source_ip s = ''10.0.1.42'')
      \<and> http_request_unix env cfg ''GET'' ''/sessions/sess_test1'' [] store (\<lambda>r store.
          status r = 200 \<and> session_body r (\<lambda>s. resp_session_id s = ''sess_test1'')
        \<and> http_request_unix env cfg ''GET'' ''/sessions'' [] store (\<lambda>r store.
            status r = 200
            \<and> (case body r of SessionListBody l \<Rightarrow> list_ex (\<lambda>s. sum_session_id s = ''sess_test1'') l | _ \<Rightarrow> False))))))"

definition test_delete_session :: "'dt api_env \<Rightarrow> (string \<Rightarrow> string) \<Rightarrow> string \<Rightarrow> bool" where
  "test_delete_session env sha256 cert =
     unwrapped (start_test_proxy env sha256 cert (mock_fetch mock_new)) (\<lambda>(cfg, store).
     http_request_unix env cfg ''POST'' ''/sessions'' (session_json (tunnel_request ''sess_del'' ''10.0.1.50'')) store (\<lambda>_ store.
     http_request_unix env cfg ''DELETE'' ''/sessions/sess_del'' [] store (\<lambda>r store.
       status r = 204
     \<and> http_request_unix env cfg ''GET'' ''/sessions/sess_del'' [] store (\<lambda>r store.
         status r = 404 \<and> str_contains ''SESSION_NOT_FOUND'' (body_text r)))))"

definition test_create_session_invalid_credential_ref :: "'dt api_env \<Rightarrow> (string \<Rightarrow> string) \<Rightarrow> string \<Rightarrow> bool" where
  "test_create_session_invalid_credential_ref env sha256 cert =
     unwrapped (start_test_proxy env sha256 cert (mock_fetch mock_new)) (\<lambda>(cfg, store).
     http_request_unix env cfg ''POST'' ''/sessions''
       (session_json (mitm_request ''sess_bad'' ''10.0.1.60'' ''vault://secret/data/nonexistent'')) store (\<lambda>r _.
       status r = 422 \<and> str_contains ''CREDENTIAL_REF_INVALID'' (body_text r)))"

definition test_create_session_duplicate :: "'dt api_env \<Rightarrow> (string \<Rightarrow> string) \<Rightarrow> string \<Rightarrow> bool" where
  "test_create_session_duplicate env sha256 cert =
     unwrapped (start_test_proxy env sha256 cert (mock_fetch mock_new)) (\<lambda>(cfg, store).
     http_request_unix env cfg ''POST'' ''/sessions'' (session_json (tunnel_request ''sess_dup'' ''10.0.1.70'')) store (\<lambda>_ store.
     http_request_unix env cfg ''POST'' ''/sessions'' (session_json (tunnel_request ''sess_dup'' ''10.0.1.71'')) store (\<lambda>r _.
       status r = 409 \<and> str_contains ''SESSION_EXISTS'' (body_text r))))"

definition test_connect_unregistered_ip_403 ::
  "'dt api_env \<Rightarrow> (string \<Rightarrow> string) \<Rightarrow> string \<Rightarrow> tunnel_env \<Rightarrow> bool" where
  "test_connect_unregistered_ip_403 env sha256 cert tenv =
     unwrapped (start_test_proxy env sha256 cert (mock_fetch mock_new)) (\<lambda>(cfg, store).
       status (http_request_tcp tenv cfg ''api.openai.com'' store) = 403)"

definition test_connect_non_allowlisted_domain_403 ::
  "'dt api_env \<Rightarrow> (string \<Rightarrow> string) \<Rightarrow> string \<Rightarrow> tunnel_env \<Rightarrow> bool" where
  "test_connect_non_allowlisted_domain_403 env sha256 cert tenv =
     unwrapped (start_test_proxy env sha256 cert (mock_fetch mock_new)) (\<lambda>(cfg, store).
     http_request_unix env cfg ''POST'' ''/sessions'' (session_json (tunnel_request ''sess_allow'' ''127.0.0.1'')) store (\<lambda>_ store.
       status (http_request_tcp tenv cfg ''evil.com'' store) = 403))"

definition test_full_lifecycle ::
  "'dt api_env \<Rightarrow> (string \<Rightarrow> string) \<Rightarrow> string \<Rightarrow> tunnel_env \<Rightarrow> bool" where
  "test_full_lifecycle env sha256 cert tenv =
     unwrapped (start_test_proxy env sha256 cert (mock_fetch mock_new)) (\<lambda>(cfg, store).
     http_request_unix env cfg ''POST'' ''/sessions'' (session_json (tunnel_request ''sess_life'' ''127.0.0.1'')) store (\<lambda>r store.
       status r = 201
     \<and> status (http_request_tcp tenv cfg ''api.openai.com'' store) \<noteq> 403
     \<and> http_request_unix env cfg ''DELETE'' ''/sessions/sess_life'' [] store (\<lambda>r store.
         status r = 204
       \<and> status (http_request_tcp tenv cfg ''api.openai.com'' store) = 403)))"

lemma request_fields [simp]:
  "req_session_id (tunnel_request sid ip) = sid" "req_source_ip (tunnel_request sid ip) = ip"
  "req_expires_at (tunnel_request sid ip) = None" "req_allowlist (tunnel_request sid ip)
     = [\<lparr>domain = ''api.openai.com'', mode = ''tunnel'', credential_ref = None\<rparr>]"
  "req_session_id (mitm_request sid ip c) = sid" "req_source_ip (mitm_request sid ip c) = ip"
  "req_expires_at (mitm_request sid ip c) = None" "req_allowlist (mitm_request sid ip c)
     = [\<lparr>domain = ''api.openai.com'', mode = ''mitm'', credential_ref = Some c\<rparr>]"
  by (simp_all add: tunnel_request_def mitm_request_def)

section \<open>They pass\<close>

definition test_requests :: "create_session_request list" where
  "test_requests =
     [mitm_request ''sess_test1'' ''10.0.1.42'' ''vault://secret/data/test-key'', tunnel_request ''sess_del'' ''10.0.1.50'',
      mitm_request ''sess_bad'' ''10.0.1.60'' ''vault://secret/data/nonexistent'', tunnel_request ''sess_dup'' ''10.0.1.70'',
      tunnel_request ''sess_dup'' ''10.0.1.71'', tunnel_request ''sess_allow'' ''127.0.0.1'',
      tunnel_request ''sess_life'' ''127.0.0.1'']"

text \<open>The JSON texts are read as the requests they stand for.\<close>

definition reads_tests :: "'dt api_env \<Rightarrow> bool" where
  "reads_tests env \<longleftrightarrow> list_all (\<lambda>r. parse_create env (session_json r) = Inr r) test_requests"

lemmas api_eval = http_request_unix_def handle_session_api_def handle_create_session_def finish_create_def
  publish_keys_def create_reply_def handle_get_session_def handle_delete_session_def handle_list_sessions_def
  resolve_all_def dummy_keys_of_def key_map_of_def new_session_def session_response_from_def session_summary_from_def
  json_response_def empty_response_def error_response_def error_response_with_detail_def body_text_def session_body_def
  strip_prefix_def error_body_def error_body_with_detail_def
  mock_fetch_def mock_new_def mock_insert_def

lemma test_proxy_starts:
  "faultless (lib env) \<Longrightarrow> start_test_proxy env sha256 cert f = Inr (\<lparr>upstream_port = 0, upstream_host = [],
     expected_vm_ip = [], secret_store = Some f, ca_cert_sha256 = fingerprint sha256 cert, start_time = now_secs env\<rparr>,
     \<lparr>conn = [], sessions = [], stats = []\<rparr>)"
  by (simp add: start_test_proxy_def faultless_memory)

lemma str_contains_append: "str_contains p s \<or> str_contains p t \<Longrightarrow> str_contains p (s @ t)"
  unfolding str_contains_iff by (metis append_assoc)

lemma show_zero: "show_nat 0 = ''0''"
  by (simp add: show_nat.simps digit_char_def char_of_eq_iff)

lemma health_text:
  \<open>http_request_unix env cfg ''GET'' ''/health'' [] \<lparr>conn = [], sessions = [], stats = []\<rparr> (\<lambda>r _.
     status r = 200 \<and> str_contains ''"status":"ok"'' (body_text r)
     \<and> str_contains ''"ca_cert_sha256"'' (body_text r) \<and> str_contains ''"active_sessions":0'' (body_text r)
     \<and> str_contains ''"uptime_secs"'' (body_text r))\<close>
proof -
  let ?up = "show_nat (unat (saturating_sub (now_secs env) (start_time cfg)))"
  have printed: \<open>body_text (handle_health env cfg \<lparr>conn = [], sessions = [], stats = []\<rparr>) =
      ''{"status":"ok","ca_cert_sha256":"'' @ ca_cert_sha256 cfg @ ''","active_sessions":0'' @
      '',"uptime_secs":'' @ ?up @ ''}''\<close>
    by (simp add: handle_health_def json_response_def body_text_def store_count_def show_zero)
  have \<open>str_contains ''"status":"ok"'' ''{"status":"ok","ca_cert_sha256":"''\<close>
    \<open>str_contains ''"ca_cert_sha256"'' ''{"status":"ok","ca_cert_sha256":"''\<close>
    \<open>str_contains ''"active_sessions":0'' ''","active_sessions":0''\<close>
    \<open>str_contains ''"uptime_secs"'' '',"uptime_secs":''\<close>
    by (simp_all add: str_contains_def)
  then have \<open>str_contains ''"status":"ok"'' (body_text (handle_health env cfg \<lparr>conn = [], sessions = [], stats = []\<rparr>))\<close>
    \<open>str_contains ''"ca_cert_sha256"'' (body_text (handle_health env cfg \<lparr>conn = [], sessions = [], stats = []\<rparr>))\<close>
    \<open>str_contains ''"active_sessions":0'' (body_text (handle_health env cfg \<lparr>conn = [], sessions = [], stats = []\<rparr>))\<close>
    \<open>str_contains ''"uptime_secs"'' (body_text (handle_health env cfg \<lparr>conn = [], sessions = [], stats = []\<rparr>))\<close>
    unfolding printed by (blast intro: str_contains_append)+
  then show ?thesis
    by (simp add: http_request_unix_def handle_session_api_def strip_prefix_def)
      (simp add: handle_health_def json_response_def)
qed

lemma api_tests:
  assumes "faultless (lib env)" and "reads_tests env"
  shows "test_health_endpoint env sha256 cert" "test_create_and_get_session env sha256 cert"
    "test_delete_session env sha256 cert" "test_create_session_invalid_credential_ref env sha256 cert"
    "test_create_session_duplicate env sha256 cert"
proof -
  from assms(1) obtain j k where create:
    "create_answers (lib env) [\<lparr>domain = ''api.openai.com'', mode = ''tunnel'', credential_ref = None\<rparr>] j"
    "create_answers (lib env) [\<lparr>domain = ''api.openai.com'', mode = ''mitm'',
       credential_ref = Some ''vault://secret/data/test-key''\<rparr>] k"
    using faultless_create by blast
  note reads = assms(2)[unfolded reads_tests_def test_requests_def, simplified]
  note start = test_proxy_starts[OF assms(1)]
  note eval = start reads create_answersD[OF create(1)] create_answersD[OF create(2)] faultless_delete[OF assms(1)]
  show "test_delete_session env sha256 cert"
    by (simp add: test_delete_session_def eval api_eval store_eval str_contains_def escape_quotes_def replace_char_def)
  show "test_create_session_invalid_credential_ref env sha256 cert"
    by (simp add: test_create_session_invalid_credential_ref_def eval api_eval store_eval str_contains_def)
  show "test_create_session_duplicate env sha256 cert"
    by (simp add: test_create_session_duplicate_def eval api_eval store_eval str_contains_def escape_quotes_def replace_char_def)
  show "test_create_and_get_session env sha256 cert"
    by (simp add: test_create_and_get_session_def eval api_eval store_eval)
  show "test_health_endpoint env sha256 cert"
    by (simp add: test_health_endpoint_def start health_text store_count_def)
qed

lemma connect_status:
  "status (http_request_tcp tenv cfg host st) = (case store_get_by_ip st ''127.0.0.1'' of None \<Rightarrow> 403
     | Some s \<Rightarrow> if host_allowed s host then 200 else 403)" if "host \<noteq> []"
proof -
  have "split_target (host_port_of \<lparr>uri_host = Some host, uri_port = Some 443, uri_text = host @ '':443''\<rparr>) = (host, 443)"
    using that split_target_show[of host 443] by (simp add: host_port_of_def)
  then show ?thesis
    by (simp add: http_request_tcp_def Let_def proxy_service_def handle_connect_def admit_def empty_response_def
        split: option.split)
qed

lemma connect_tests:
  assumes "faultless (lib env)" and "reads_tests env"
  shows "test_connect_unregistered_ip_403 env sha256 cert tenv"
    "test_connect_non_allowlisted_domain_403 env sha256 cert tenv" "test_full_lifecycle env sha256 cert tenv"
proof -
  from assms(1) obtain j where
    create: "create_answers (lib env) [\<lparr>domain = ''api.openai.com'', mode = ''tunnel'', credential_ref = None\<rparr>] j"
    using faultless_create by blast
  note reads = assms(2)[unfolded reads_tests_def test_requests_def, simplified]
  note eval = test_proxy_starts[OF assms(1)] reads create_answersD[OF create] faultless_delete[OF assms(1)] connect_status
    host_allowed_def to_lowercase_ascii ascii_lower_def
  show "test_connect_unregistered_ip_403 env sha256 cert tenv"
    by (simp add: test_connect_unregistered_ip_403_def eval api_eval store_eval)
  show "test_connect_non_allowlisted_domain_403 env sha256 cert tenv"
    by (simp add: test_connect_non_allowlisted_domain_403_def eval api_eval store_eval)
  show "test_full_lifecycle env sha256 cert tenv"
    by (simp add: test_full_lifecycle_def eval api_eval store_eval)
qed

section \<open>All tests of the proxy\<close>


definition demo_tests :: "int api_env" where
  "demo_tests = \<lparr>lib = demo_session_lib, clock = demo_time, now_secs = 1000,
     parse_create = (\<lambda>j. case map_of (map (\<lambda>r. (session_json r, r)) test_requests) j of
        Some r \<Rightarrow> Inr r | None \<Rightarrow> Inl ''malformed'')\<rparr>"

lemma demo_reads: "reads_tests demo_tests"
  by (simp add: reads_tests_def demo_tests_def test_requests_def session_json_def)


end
