(* ===== verification/Vm_Tests.thy ===== *)
theory Vm_Tests
  imports Store_Tests Vm_Network Vm_State
begin

text \<open>
  The unit tests of the VM manager (error.rs, helpers.rs, network.rs, state.rs, types.rs), one
  definition each under its own name. Assertions on printed JSON are on the fields of the value printed;
  a request that is read from JSON is what its fields and the serde defaults make of it.
\<close>

section \<open>Errors and requests\<close>

definition test_error_response_serialization :: bool where
  "test_error_response_serialization =
     (let resp = error_response_new InvalidRequest ''bad request'' in
      err_code resp = ''INVALID_REQUEST'' \<and> err_message resp = ''bad request'' \<and> err_detail resp = None)"

definition test_error_response_with_detail :: bool where
  "test_error_response_with_detail =
     (let resp = error_response_with VmLaunchFailed ''Firecracker failed'' ''exit code 1'' in
      err_code resp = ''VM_LAUNCH_FAILED'' \<and> err_message resp = ''Firecracker failed''
      \<and> err_detail resp = Some ''exit code 1'')"

definition test_create_environment_request_deserialize :: bool where
  "test_create_environment_request_deserialize =
     (let req = request_defaults ''sess_8f7a3b2c'' ''alpine-3.20-pi'' (Some 1) (Some 512) (Some [])
            \<lparr>ec_allowlist = [\<lparr>egress_domain = ''api.openai.com'', inject_key = True,
               egress_credential_ref = Some ''vault://secret/data/agent-env/openai-key''\<rparr>]\<rparr> (Some 3600) in
      ce_session_id req = ''sess_8f7a3b2c'' \<and> image req = ''alpine-3.20-pi'' \<and> vcpus req = 1
      \<and> memory_mib req = 512 \<and> timeout_secs req = 3600 \<and> length (ec_allowlist (egress req)) = 1
      \<and> inject_key (ec_allowlist (egress req) ! 0))"

definition test_create_environment_request_defaults :: bool where
  "test_create_environment_request_defaults =
     (let req = request_defaults ''sess_8f7a3b2c'' ''alpine-3.20-pi'' None None None \<lparr>ec_allowlist = []\<rparr> None in
      vcpus req = 1 \<and> memory_mib req = 512 \<and> timeout_secs req = 3600)"

section \<open>Helpers\<close>

definition test_is_valid_session_id :: bool where
  "test_is_valid_session_id =
     (is_valid_session_id ''sess_8f7a3b2c'' \<and> is_valid_session_id ''abcdefgh123456''
    \<and> is_valid_session_id (replicate 64 (CHR ''a'')) \<and> is_valid_session_id ''test_session_001''
    \<and> \<not> is_valid_session_id ''short'' \<and> \<not> is_valid_session_id ''ab''
    \<and> \<not> is_valid_session_id (replicate 65 (CHR ''a''))
    \<and> \<not> is_valid_session_id ''SESSION-UPPER'' \<and> \<not> is_valid_session_id ''sess-8f7a3b2c''
    \<and> \<not> is_valid_session_id ''sess.8f7a'' \<and> \<not> is_valid_session_id ''sess 8f7a3b2c'')"

definition test_extract_session_id :: bool where
  "test_extract_session_id =
     (extract_session_id ''/v1/environments/sess_12345678'' = Some ''sess_12345678''
    \<and> extract_session_id ''/v1/environments/'' = None \<and> extract_session_id ''/v1/environments'' = None
    \<and> extract_session_id ''/v1/environments/abc/def'' = None)"

definition test_extract_session_id_and_suffix :: bool where
  "test_extract_session_id_and_suffix =
     (extract_session_id_and_suffix ''/v1/environments/sess_12345678/serial'' ''/serial'' = Some ''sess_12345678''
    \<and> extract_session_id_and_suffix ''/v1/environments/sess_12345678'' ''/serial'' = None
    \<and> extract_session_id_and_suffix ''/v1/environments/abc/def/serial'' ''/serial'' = None)"

section \<open>Networking\<close>

definition test_extract_handle :: \<open>bool\<close> where
  \<open>test_extract_handle =
     (extract_handle ''  iifname "tap-foo" tcp dport != 9999 dnat to 10.0.1.1:9999 handle 42'' = Some 42
    \<and> extract_handle ''  no handle here'' = None
    \<and> extract_handle ''  rule with handle 9999'' = Some 9999)\<close>

definition test_nft_table_constants :: bool where
  "test_nft_table_constants = (NFT_TABLE = ''ae-vm-manager'' \<and> NFT_FILTER_TABLE = ''ae-vm-manager-filter'')"

section \<open>State\<close>

definition test_ip_allocation :: bool where
  "test_ip_allocation =
     (let ips = allocated_ips (with_proxy_socket ''/tmp/test.sock'') in
      called (allocate_ip ips) (\<lambda>ip1 ips.
      called (allocate_ip ips) (\<lambda>ip2 ips.
        ip1 \<noteq> ip2 \<and> starts_with ''10.0.1.'' ip1 \<and> starts_with ''10.0.1.'' ip2
      \<and> called (allocate_ip (release_ip ip1 ips)) (\<lambda>ip3 ips. ip3 = ip1))))"

definition test_environment_state_management :: "u64 \<Rightarrow> bool" where
  "test_environment_state_management now =
     (let st = with_proxy_socket ''/tmp/test.sock'';
          st = st\<lparr>environments := hm_insert ''sess_test1234567''
            \<lparr>env_session_id = ''sess_test1234567'', env_status = Running, env_vm_ip = ''10.0.1.2'',
             env_tap_interface = ''tap-sess_test'', env_started_at = now, env_expires_at = Some (now + 3600),
             env_dummy_keys = []\<rparr> (environments st)\<rparr>
      in hm_contains_key (environments st) ''sess_test1234567'')"

section \<open>They pass\<close>

lemma helper_tests:
  test_is_valid_session_id test_extract_session_id test_extract_session_id_and_suffix
  by (simp_all add: test_is_valid_session_id_def is_valid_session_id_def session_char_def is_digit_def list_all_iff
      test_extract_session_id_def test_extract_session_id_and_suffix_def extract_session_id_def
      extract_session_id_and_suffix_def env_prefix_def strip_prefix_def strip_suffix_def)

lemma request_tests:
  test_error_response_serialization test_error_response_with_detail
  test_create_environment_request_deserialize test_create_environment_request_defaults
  by (simp_all add: test_error_response_serialization_def test_error_response_with_detail_def error_response_new_def
      error_response_with_def test_create_environment_request_deserialize_def
      test_create_environment_request_defaults_def request_defaults_def)

lemma constants_test: test_nft_table_constants
  by (simp add: test_nft_table_constants_def NFT_TABLE_def NFT_FILTER_TABLE_def)

lemma handle_test: test_extract_handle
proof -
  note eval = extract_handle_def split_on.simps[of "''handle''"] trim_lead trim_visible visible_def parse_uint_def
    is_digit_def
  have \<open>extract_handle ''  iifname "tap-foo" tcp dport != 9999 dnat to 10.0.1.1:9999 handle 42'' = Some 42\<close>
    \<open>extract_handle ''  no handle here'' = None\<close> \<open>extract_handle ''  rule with handle 9999'' = Some 9999\<close>
    by (simp_all add: eval)
  then show ?thesis by (simp add: test_extract_handle_def)
qed

lemma allocation_test: test_ip_allocation
  by code_simp

lemma state_test: "test_environment_state_management now"
  by (simp add: test_environment_state_management_def hm_contains_key_def hm_simps)

section \<open>All tests of the VM manager\<close>


end
