(* ===== verification/Spec2Isabelle.thy ===== *)
theory Spec2Isabelle
  imports Vault Session Http_Bytes Http_Rewrite Copy_Stream Proxy_Api Proxy_Connect Vm_State Vm_Network Vm_System Vm_With_Proxy Joint_System Demo_Wire Proxy_Main Vm_Main Session_Spec Api_Tests Vm_Tests
begin

text \<open>
  A verification library for agent-env: the egress proxy (\<open>src/crates/proxy\<close>) and the VM
  manager (\<open>src/crates/vm-manager\<close>).

  The program. The VM manager answers a REST API: it creates a Firecracker VM per session, gives
  it an address of a pool of 64, registers the session with the proxy over a unix socket, sets up
  a TAP interface and nftables rules that lead all traffic of the VM to the proxy, and starts a
  background task that launches the VM and waits for its deletion. The proxy keeps the
  sessions in a table and a map by source IP. A VM reaches the network by CONNECT only: the proxy
  looks up the session of the peer's IP, checks the domain against its allowlist, terminates TLS on
  both sides, replaces the dummy API key of the request by the real one, and relays bytes.

  Theories of the proxy.
  \<^item> \<open>AE_Prelude\<close>: results, hash maps as association lists (\<open>hm_\<close>; collections \<open>hm_simps\<close>,
    \<open>hm_inv\<close>), list lemmas. \<open>Rust_Text\<close>: the functions of \<open>str\<close> and \<open>String\<close> that the sources
    call, on byte strings (search, split, trim, lower case, integer parsing and
    printing, UTF-8 validation and lossy decoding).
  \<^item> \<open>Vault\<close> (vault.rs): the two secret stores; the locale \<open>secret_store\<close> is their trait.
  \<^item> \<open>Session\<close> (session.rs): rows, schema and statements of SQLite, the store and its operations;
    the locale \<open>session_registry\<close> states what the API needs of it. Lemmas: table and map in
    step, effect of each operation on every branch, restart, statistics, timestamps.
  \<^item> \<open>Session_Spec\<close>: the abstract specification of the store, a set of sessions and the statistics by id;
    the locale \<open>data_refinement\<close> lifts the simulation of one call to runs, restarts included.
    \<open>Demo_Codec\<close>: a stand-in for \<open>serde_json\<close> for the witnesses.
  \<^item> \<open>Proxy_Api\<close> (proxy.rs, \<open>SessionApiService\<close>): router and handlers as state-passing functions with
    the outcome \<open>Panic\<close> for \<open>unwrap\<close>. Lemmas: cases of each handler, invariant over request
    sequences, errors change nothing, real keys never show.
  \<^item> \<open>Http_Bytes\<close>, \<open>Http_Rewrite\<close> (proxy.rs, \<open>read_http_request\<close> to \<open>rewrite_request\<close>): reading one
    request from a stream of blocks, and the key swap on its lines.
  \<^item> \<open>Copy_Stream\<close> (stream.rs): the \<open>select!\<close> loop as a step relation with failing reads and writes.
  \<^item> \<open>Proxy_Connect\<close> (proxy.rs, \<open>ProxyService\<close>): admission and the tunnel task as the list of what it
    does to the upstream.
  \<^item> \<open>Certs\<close> (certs.rs): the CA, leaf certificates and the SNI resolver with every error path;
    \<open>Proxy_Main\<close> (main.rs, \<open>handle_connection\<close>): start-up to the bound socket, the accept loop and one
    connection. Lemmas: which names the resolver serves and with what leaf, what a started
    proxy holds.

  Theories of the VM manager.
  \<^item> \<open>Vm_Types\<close> (types.rs, error.rs, helpers.rs, constants), \<open>Vm_State\<close> (state.rs; the locale
    \<open>address_pool\<close> and its interpretation), \<open>Vm_Network\<close> (network.rs: every command, in order, with
    its error handling), \<open>Vm_Files\<close> (file_injection.rs on paths as component lists).
  \<^item> \<open>Vm_Tasks\<close>: a task is a tree of atomic actions (\<open>prog\<close>): locked sections, awaited host calls,
    spawning, waiting. \<open>Vm_Proxy_Client\<close> (proxy_client.rs): one HTTP exchange over the unix socket,
    byte by byte. \<open>Vm_Lifecycle\<close> (vm.rs) and \<open>Vm_Api\<close> (api.rs): handlers and background task as
    such trees; \<open>create_outcome\<close> lists how a creation can end. \<open>Vm_Main\<close> (main.rs, \<open>run_server\<close>):
    the tables around the server's life.
  \<^item> \<open>Vm_System\<close>: all tasks interleaved at their atomic actions, the ownership typing of
    tasks (\<open>owns\<close>), the pool invariant over all schedules, and running one task alone as one schedule.

  Both together. \<open>Vm_With_Proxy\<close>: the manager's host is a pair of the proxy's store and the rest of the
  world; the locale \<open>session_service\<close> says what the manager relies on, and the model of the proxy
  behind its socket interprets it. \<open>Joint_System\<close>: many VMs and one proxy, with every handler and
  task interleaved; \<open>serves\<close> types a task with the proxy session it holds, the locale
  \<open>managed_service\<close> extends \<open>session_service\<close> and proves the invariant over all schedules. Other
  programs may act between any two actions, as long as they leave the proxy's store alone.
  \<open>Demo_Wire\<close>: a concrete instance of the library functions for the
  witnesses. This theory: the properties that span components.

  The repository's tests. \<open>Store_Tests\<close> (vault.rs, session.rs), \<open>Http_Tests\<close> and \<open>Api_Tests\<close> (proxy.rs) and
  \<open>Vm_Tests\<close> hold the unit and integration tests under their own names, as checks on the model, with
  the proof that they pass: what the authors expect of the code holds of its translation. Tests of the
  session store hold for every library that does not fault; texts of JSON bodies stand for the values
  they are read as.

  Conventions. A string is a list of bytes. A fallible function returns \<open>result\<close>, the sum of the error
  and the value. Integers are words of their width where they can wrap, natural numbers where the
  source bounds them. A hash map is an association list with one entry per key; statements
  about maps use \<open>hm_get\<close>. No definition uses fuel: the read loops end because each step consumes a
  block of the finite input stream, \<open>allocate_from\<close> and the scanners have measures, and unbounded
  waiting is the action \<open>Wait\<close> or the step relation of \<open>Copy_Stream\<close>.

  Parameters. What the sources take from crates is an argument of the definitions: \<open>httparse\<close>, \<open>hyper\<close>,
  \<open>serde_json\<close>, \<open>time\<close>, SQLite's faults, fctools, rcgen and rustls, the file system and the commands of the
  host. Laws that a theorem needs of them are named predicates (\<open>json_lawful\<close>, \<open>wire_lawful\<close>,
  \<open>vmm_id_checks\<close>, \<open>sni_lawful\<close>) and each has an instance in a witness.

  Not modelled. Log lines; JSON text (a body is the value it prints); the TLS handshakes and the bytes of
  TLS records; the removal of temporary directories on drop and the fall-backs of \<open>dir_size\<close> for unreadable
  entries; the disk image scripts; the tests on RFC 3339 texts and on printed JSON of an environment. One call to the host is one atomic action: two commands
  of different tasks interleave, the inside of one command does not.
\<close>

section \<open>Properties\<close>

text \<open>
  C2. A created session opens the proxy to its IP for the domains of its allowlist, and only
  until it is deleted: right after the 201 answer, CONNECT from that IP to a listed domain is
  answered 200; after the deletion of the returned id every CONNECT from it is refused.
\<close>

theorem session_gates_connect:
  assumes "registry_inv (lib env) st"
    and "handle_create_session env sec inp st = (Reply r, st')" and "status r = 201"
    and "body r = SessionBody resp"
    and "uri_host uri = Some h" and "h \<noteq> []" and "sql_fault (lib env) DeleteById = None"
  shows "(status (fst (proxy_service tenv cfg st' (Some (resp_source_ip resp)) ''CONNECT'' uri)) = 200
       \<longleftrightarrow> (\<exists>a\<in>set (resp_allowlist resp). to_lowercase (domain a) = to_lowercase h))
    \<and> proxy_service tenv cfg (snd (handle_delete_session env (resp_session_id resp) st'))
        (Some (resp_source_ip resp)) ''CONNECT'' uri = (empty_response 403, [])"
proof -
  from assms(1-4) obtain pairs s where
    s: "store_get_by_ip st' (resp_source_ip resp) = Some s" "allowlist s = resp_allowlist resp"
      "session_id s = resp_session_id resp" "registry_inv (lib env) st'"
    by (rule created_lookup)
  from deleted_lookup[OF s(4,1) assms(7)] s(3)
  have gone: "store_get_by_ip (snd (handle_delete_session env (resp_session_id resp) st'))
      (resp_source_ip resp) = None" by simp
  have "fst (split_target (host_port_of uri)) = h"
    using assms(5,6) split_target_show by (simp add: host_port_of_def)
  with s(1,2) gone show ?thesis
    by (auto simp: proxy_service_def handle_connect_def admit_cases host_allowed_def list_ex_iff)
qed

theorem session_gates_connect_witness:
  "proxy_service (demo_tunnel demo_raw) demo_cfg
     (snd (handle_delete_session demo_env ''s1'' (snd (handle_create_session demo_env
        (Some (mock_fetch demo_secrets)) (Inr ''req'') demo_empty))))
     (Some ''172.16.1.2'') ''CONNECT'' demo_uri = (empty_response 403, [])"
proof -
  let ?resp = "created_response demo_env demo_pairs (new_session demo_env demo_request)"
  have inv: "registry_inv (lib demo_env) demo_empty" by (simp add: demo_registry)
  have "resp_source_ip ?resp = ''172.16.1.2''" "resp_session_id ?resp = ''s1''"
    by (simp_all add: created_response_def session_response_from_def demo_new_session)
  moreover have "uri_host demo_uri = Some ''API.openai.com''" by (simp add: demo_uri_def)
  ultimately show ?thesis
    using session_gates_connect[OF inv demo_created_reply, of ?resp demo_uri "''API.openai.com''"
        "demo_tunnel demo_raw" demo_cfg]
    by (simp add: json_response_def) (simp add: demo_lib_def)
qed

text \<open>
  C1. The key swap, end to end: a VM that presents the dummy key it was given for a
  credential has its request sent to the listed host with the real key the secret store holds
  for that credential, provided the secret store does not use one dummy key for two real keys.
\<close>

theorem dummy_key_becomes_real:
  assumes "registry_inv (lib env) st"
    and "handle_create_session env (Some f) inp st = (Reply r, st')" and "status r = 201"
    and "body r = SessionBody resp"
    and "resp_dummy_keys resp = Some dk" and "hm_get dk cref = Some d"
    and "\<And>a b p q. f a = Inr p \<Longrightarrow> f b = Inr q \<Longrightarrow> dummy p = dummy q \<Longrightarrow> real p = real q"
    and "uri_host uri = Some h" and "h \<noteq> []" and "uri_port uri = Some port"
    and "\<exists>a\<in>set (resp_allowlist resp). to_lowercase (domain a) = to_lowercase h"
    and "handshakes_ok tenv cfg h port"
    and "read_http_request (parse_http tenv) (client_data tenv) = (ReadOk req, rest)"
    and "\<not> is_websocket_upgrade req" and "presented_key req = Some d"
  shows "\<exists>p. f cref = Inr p \<and> dummy p = d
    \<and> proxy_service tenv cfg st' (Some (resp_source_ip resp)) ''CONNECT'' uri
      = (empty_response 200,
         [OpenTcp (upstream_addr cfg h port), OpenTls h,
          SendUpstream (writable tenv (join crlf (rewritten_lines req (real p) h)))]
         @ (if write_upstream tenv = Written \<and> (\<exists>u. flush_upstream tenv = Inr u)
            then [StartRelay rest] else []))"
proof -
  from assms(1-4) obtain pairs s where
    s: "store_get_by_ip st' (resp_source_ip resp) = Some s"
      "resolve_all (Some f) (allowlist s) = Inr pairs" "dummy_to_real s = key_map_of pairs"
      "resp_dummy_keys resp = (if pairs = [] then None else Some (dummy_keys_of pairs))"
      "allowlist s = resp_allowlist resp"
    by (rule created_lookup)
  note from_f = resolve_all_from[OF s(2)]
  from s(4) assms(5) have dk: "dk = dummy_keys_of pairs" by (simp split: if_splits)
  with assms(6) dummy_keys_of_get[OF from_f(1)] obtain p where
    p: "hm_get pairs cref = Some p" "dummy p = d" by auto
  then have in_pairs: "(cref, p) \<in> set pairs" by (simp add: hm_get_Some_in)
  have "hm_get (key_map_of pairs) (dummy p) = Some (real p)"
    by (rule key_map_of_exact[OF in_pairs]) (use from_f(2) in_pairs assms(7) in blast)
  then have out: "rewrite_request req (dummy_to_real s) h
      = Inr (join crlf (rewritten_lines req (real p) h))"
    using assms(15) p(2) by (simp add: rewrite_request_eq s(3))
  have target: "split_target (host_port_of uri) = (h, port)"
    using assms(8-10) split_target_show by (simp add: host_port_of_def)
  have "host_allowed s h" using assms(11) by (auto simp: host_allowed_def list_ex_iff s(5))
  with target s(1) have "proxy_service tenv cfg st' (Some (resp_source_ip resp)) ''CONNECT'' uri
      = (empty_response 200, tunnel_task tenv cfg h port (dummy_to_real s))"
    by (simp add: proxy_service_def handle_connect_def admit_cases)
  with forward_request_ok[OF assms(13)] assms(14) out from_f(2)[OF in_pairs] p(2)
  show ?thesis by (auto simp: tunnel_task_ok[OF assms(12)])
qed

theorem dummy_key_becomes_real_witness:
  "snd (proxy_service (demo_tunnel demo_raw) demo_cfg (snd (handle_create_session demo_env
         (Some (mock_fetch demo_secrets)) (Inr ''req'') demo_empty)) (Some ''172.16.1.2'') ''CONNECT''
       \<lparr>uri_host = Some ''api.openai.com'', uri_port = Some 443, uri_text = []\<rparr>)
     = [OpenTcp ''api.openai.com:443'', OpenTls ''api.openai.com'',
        SendUpstream (join crlf (rewritten_lines demo_raw ''r'' ''api.openai.com'')), StartRelay []]"
proof -
  let ?resp = "created_response demo_env demo_pairs (new_session demo_env demo_request)"
  have inv: "registry_inv (lib demo_env) demo_empty" by (simp add: demo_registry)
  have fetch: "mock_fetch demo_secrets a = Inr p \<longleftrightarrow> a = ''openai'' \<and> p = \<lparr>dummy = ''d'', real = ''r''\<rparr>"
    for a p
    by (auto simp: mock_fetch_def demo_secrets_def mock_insert_def mock_new_def hm_insert_def
        hm_get_def split: option.splits)
  have resp: "resp_source_ip ?resp = ''172.16.1.2''" "resp_allowlist ?resp = demo_allow"
    "resp_dummy_keys ?resp = Some [(''openai'', ''d'')]"
    by (simp_all add: created_response_def session_response_from_def demo_new_session demo_pairs_def
        dummy_keys_of_def hm_collect_def hm_insert_def)
  have "upstream_addr demo_cfg ''api.openai.com'' 443 = ''api.openai.com:443''"
    by (simp add: upstream_addr_def demo_cfg_def show_nat.simps digit_char_def char_of_eq_iff)
  then show ?thesis
    using dummy_key_becomes_real[OF inv demo_created_reply, of ?resp "[(''openai'', ''d'')]"
        "''openai''" "''d''" "\<lparr>uri_host = Some ''api.openai.com'', uri_port = Some 443, uri_text = []\<rparr>"
        "''api.openai.com''" 443 "demo_tunnel demo_raw" demo_cfg demo_raw "[]"]
      demo_tunnel_read[OF demo_raw_head demo_lengths(1)] demo_raw_plain demo_presented
    by (simp add: resp fetch json_response_def hm_get_def demo_allow_def)
      (simp add: handshakes_ok_def demo_tunnel_def writable_def)
qed

text \<open>
  C3. From the REST call to the tunnel: before a VM is created the proxy refuses its address; after
  the 201 it admits CONNECT from that address exactly to the domains of the egress list
  of the request, and knows every dummy key of the answer; when the VM's task has ended it
  refuses the address again.
\<close>

theorem created_vm_is_admitted:
  assumes "wire_lawful env (vh_json host) pw" and "registry_inv (lib env) store"
    and "run_prog (handle_create_environment (joined_host env cfg pw host) c (Inr bytes)) st (store, rest)
      = (Done (Some r), st', (store', rest'), ts)"
    and "vm_status r = 201" and "vm_body r = EnvironmentBody eb" and "vh_parse_create host bytes = Inr req"
    and "uri_host uri = Some h" and "h \<noteq> []" and "sql_fault (lib env) DeleteById = None"
  shows "proxy_service tenv cfg store (Some (er_vm_ip eb)) ''CONNECT'' uri = (empty_response 403, [])
    \<and> (status (fst (proxy_service tenv cfg store' (Some (er_vm_ip eb)) ''CONNECT'' uri)) = 200
       \<longleftrightarrow> (\<exists>e\<in>set (ec_allowlist (egress req)). to_lowercase (egress_domain e) = to_lowercase h))
    \<and> (\<exists>s. store_get_by_ip store' (er_vm_ip eb) = Some s \<and> holds_keys s (er_dummy_keys eb))
    \<and> (\<exists>t. ts = [t] \<and> proxy_service tenv cfg
         (fst (cleaned_world (joined_host env cfg pw host) path t
           (snd (stop_vm (joined_host env cfg pw host) vm (store', rest'')))))
         (Some (er_vm_ip eb)) ''CONNECT'' uri = (empty_response 403, []))"
proof -
  let ?host = "joined_host env cfg pw host"
  have ok: "proxy_ok env (vh_json host) pw (store, rest)" using assms(1,2) by (simp add: proxy_ok_def)
  have keeps: "same_service (proxy_ok env (vh_json host) pw) (\<lambda>w. store_get_by_ip (fst w)) w (snd (setup_tap_interface (vh_exec ?host) tap ip w))"
    "same_service (proxy_ok env (vh_json host) pw) (\<lambda>w. store_get_by_ip (fst w)) w (snd (add_dnat_rule (vh_exec ?host) tap ip w))" for tap ip w
    by (simp_all add: same_service_def proxy_ok_def)
  obtain s t where s: "store_get_by_ip store (er_vm_ip eb) = None"
      "store_get_by_ip store' = (store_get_by_ip store)(er_vm_ip eb \<mapsto> s)" "session_id s = er_session_id eb"
      "is_valid_session_id (er_session_id eb)"
      "allowlist s = map listed_entry (map proxy_entry_of (ec_allowlist (egress req)))"
      "holds_keys s (er_dummy_keys eb)" "ts = [t]" "t_session_id t = er_session_id eb"
      "proxy_ok env (vh_json host) pw (store', rest')"
    by (rule proxy.created_environment[OF _ _ ok keeps assms(3-5)]) (use assms(6) in auto)
  let ?w = "snd (stop_vm ?host vm (store', rest''))"
  have inv: "registry_inv (lib env) store'"
    using s(9) by (simp add: proxy_ok_def)
  have "fst ?w = store'" by (simp add: stopped_vm_store)
  with inv assms(1) have "proxy_ok env (vh_json host) pw ?w" by (simp add: proxy_ok_def)
  from ended_vm_store[OF this, of t cfg path] s(4,8) \<open>fst ?w = store'\<close>
  have "fst (cleaned_world ?host path t ?w) = snd (handle_delete_session env (session_id s) store')"
    by (simp add: s(3))
  with deleted_lookup[OF inv _ assms(9), of "er_vm_ip eb" s] s(2)
  have gone: "store_get_by_ip (fst (cleaned_world ?host path t ?w)) (er_vm_ip eb) = None" by simp
  have "allowlist s = map (listed_entry \<circ> proxy_entry_of) (ec_allowlist (egress req))"
    using s(5) by simp
  then have "(\<exists>a\<in>set (allowlist s). to_lowercase (domain a) = to_lowercase h)
      \<longleftrightarrow> (\<exists>e\<in>set (ec_allowlist (egress req)). to_lowercase (egress_domain e) = to_lowercase h)"
    by (simp add: listed_entry_def proxy_entry_of_def)
  with connect_by_session[OF assms(7,8)] s(1,2,6,7) gone show ?thesis by auto
qed

theorem created_vm_is_admitted_witness:
  "\<exists>store'. fst (fst (snd (snd (run_prog (handle_create_environment joint 0 (Inr ''sess_001'')) vm_state_new (demo_empty, ()))))) = store'
     \<and> proxy_service (demo_tunnel demo_raw) demo_cfg demo_empty (Some (pool_ip 2)) ''CONNECT'' demo_uri = (empty_response 403, [])
     \<and> status (fst (proxy_service (demo_tunnel demo_raw) demo_cfg store' (Some (pool_ip 2)) ''CONNECT'' demo_uri)) = 200"
proof -
  from joint_created obtain eb st' store' ts where
    run: "run_prog (handle_create_environment joint 0 (Inr ''sess_001'')) vm_state_new (demo_empty, ())
      = (Done (Some (json_ok 201 (EnvironmentBody eb))), st', (store', ()), ts)" and ip: "er_vm_ip eb = pool_ip 2" by blast
  have ok: "wire_lawful demo_api (vh_json joint_rest) demo_wire" "registry_inv (lib demo_api) demo_empty"
    using demo_joint_ok by (simp_all add: proxy_ok_def joint_fields)
  have uri: "uri_host demo_uri = Some ''API.openai.com''" "''API.openai.com'' \<noteq> []" by (simp_all add: demo_uri_def)
  have db: "sql_fault (lib demo_api) DeleteById = None" by (simp add: demo_api_def demo_session_lib_def)
  have answer: "vm_status (json_ok 201 (EnvironmentBody eb)) = 201"
    "vm_body (json_ok 201 (EnvironmentBody eb)) = EnvironmentBody eb" by (simp_all add: json_ok_def)
  from created_vm_is_admitted[OF ok run[unfolded joint_def] answer joint_fields(3) uri db, of "demo_tunnel demo_raw" "[]" 0 "()"]
  have "proxy_service (demo_tunnel demo_raw) demo_cfg demo_empty (Some (pool_ip 2)) ''CONNECT'' demo_uri = (empty_response 403, [])"
    "status (fst (proxy_service (demo_tunnel demo_raw) demo_cfg store' (Some (pool_ip 2)) ''CONNECT'' demo_uri)) = 200
      \<longleftrightarrow> (\<exists>e\<in>set (ec_allowlist (egress joint_request)). to_lowercase (egress_domain e) = to_lowercase ''API.openai.com'')"
    unfolding ip by blast+
  moreover have "to_lowercase ''API.openai.com'' = to_lowercase ''api.openai.com''"
    by (simp add: to_lowercase_ascii ascii_lower_def char_of_eq_iff)
  ultimately show ?thesis using run by (simp add: joint_request_fields)
qed



text \<open>
  C27. A session left behind blocks the pool: when the proxy still holds a session for the lowest
  free address (the deletion at the end of a VM is tried once and its outcome ignored), every
  request to create an environment is refused, whatever it asks for; the manager and the
  sessions of the proxy stay as they are, so the next request meets the same address.
\<close>

theorem stale_session_blocks_creation:
  assumes "wire_lawful env (vh_json host) pw" and "registry_inv (lib env) store"
    and "i < 64" and "pool_ip (2 + i * 4) \<notin> set (allocated_ips st)"
    and "\<forall>j<i. pool_ip (2 + j * 4) \<in> set (allocated_ips st)"
    and "store_get_by_ip store (pool_ip (2 + i * 4)) = Some s"
  shows "case run_prog (handle_create_environment (joined_host env cfg pw host) c b) st (store, rest) of
    (q, st', w', ts) \<Rightarrow> (\<exists>r. q = Done (Some r) \<and> typed_error r) \<and> st' = st \<and> ts = []
      \<and> store_get_by_ip (fst w') = store_get_by_ip store"
proof -
  have ok: "proxy_ok env (vh_json host) pw (store, rest)" using assms(1,2) by (simp add: proxy_ok_def)
  have next_ip: "allocate_ip (allocated_ips st) = (Inr (pool_ip (2 + i * 4)), allocated_ips st @ [pool_ip (2 + i * 4)])"
    by (rule lowest_allocated) (use assms in auto)
  show ?thesis
    using proxy.lowest_taken_refused[OF _ _ ok next_ip assms(4), of "joined_host env cfg pw host" cfg c b] assms(6)
    by (auto split: prod.split)
qed

theorem stale_session_blocks_creation_witness:
  "\<exists>r. fst (run_prog (handle_create_environment joint 0 (Inr ''sess_001'')) vm_state_new
      (snd (store_create (lib demo_api) (demo_session\<lparr>source_ip := pool_ip 2\<rparr>) demo_empty), ())) = Done (Some r)
    \<and> typed_error r"
proof -
  let ?s = "demo_session\<lparr>source_ip := pool_ip 2\<rparr>"
  have laws: "wire_lawful demo_api (vh_json joint_rest) demo_wire" "registry_inv (lib demo_api) demo_empty"
    using demo_joint_ok by (simp_all add: proxy_ok_def joint_fields)
  obtain st1 where c: "store_create (lib demo_api) ?s demo_empty = (Inr (), st1)"
    using joint_store_create[of ?s] by blast
  from reg.inv_create[OF laws(2) c] reg.by_ip_create[OF laws(2) c]
  have stale: "registry_inv (lib demo_api) st1" "store_get_by_ip st1 (pool_ip (2 + 0 * 4)) = Some (forget_keys ?s)"
    by simp_all
  have free: "pool_ip (2 + 0 * 4) \<notin> set (allocated_ips vm_state_new)"
    by (simp add: vm_state_new_def with_proxy_socket_def)
  from stale_session_blocks_creation[OF laws(1) stale(1) _ free _ stale(2), of demo_cfg 0 "Inr ''sess_001''" "()"]
  show ?thesis unfolding c joint_def by (auto split: prod.splits)
qed

end
